theory Spec2Isabelle
  imports Complex_Main
begin

section \<open>Python values\<close>

text \<open>
  The repository is Python. A \<open>str\<close> is a sequence of Unicode code points, so free text
  (questions, responses, messages) is a list of code points and \<open>len\<close> is \<open>length\<close>.
  Dictionary keys, stage names, tool names and unit names are ASCII literals in the
  source and are written as HOL strings. A finite Python \<open>float\<close> is the rational it
  denotes. Rounding is modelled where a result depends on it, in the section on double
  precision; elsewhere the arithmetic is exact.
\<close>

type_synonym pystr = "nat list"

definition ascii :: "string \<Rightarrow> pystr" where
  "ascii s = map of_char s"

datatype pyval =
    PNone
  | PBool bool
  | PInt int
  | PFloat rat
  | PStr pystr
  | PList "pyval list"
  | PDict "(string \<times> pyval) list"

text \<open>Truth value testing: \<open>None\<close>, \<open>False\<close>, zero and empty containers are false.\<close>

fun truthy :: "pyval \<Rightarrow> bool" where
  "truthy PNone = False"
| "truthy (PBool b) = b"
| "truthy (PInt i) = (i \<noteq> 0)"
| "truthy (PFloat x) = (x \<noteq> 0)"
| "truthy (PStr s) = (s \<noteq> [])"
| "truthy (PList xs) = (xs \<noteq> [])"
| "truthy (PDict kvs) = (kvs \<noteq> [])"

text \<open>
  A \<open>dict\<close> keeps insertion order and has one entry per key: an association list.
  \<open>d[k] = v\<close> overwrites in place when the key is present and appends otherwise.
\<close>

fun dict_set :: "('k \<times> 'v) list \<Rightarrow> 'k \<Rightarrow> 'v \<Rightarrow> ('k \<times> 'v) list" where
  "dict_set [] k v = [(k, v)]"
| "dict_set ((k', v') # kvs) k v =
     (if k' = k then (k, v) # kvs else (k', v') # dict_set kvs k v)"

fun dict_get :: "('k \<times> 'v) list \<Rightarrow> 'k \<Rightarrow> 'v option" where
  "dict_get [] k = None"
| "dict_get ((k', v') # kvs) k = (if k' = k then Some v' else dict_get kvs k)"

text \<open>\<open>d.get(k, default)\<close>\<close>

definition dict_get_default :: "('k \<times> 'v) list \<Rightarrow> 'k \<Rightarrow> 'v \<Rightarrow> 'v" where
  "dict_get_default d k dflt = (case dict_get d k of None \<Rightarrow> dflt | Some v \<Rightarrow> v)"

definition dict_keys :: "('k \<times> 'v) list \<Rightarrow> 'k list" where
  "dict_keys d = map fst d"

definition dict_values :: "('k \<times> 'v) list \<Rightarrow> 'v list" where
  "dict_values d = map snd d"

text \<open>\<open>del d[k]\<close> and \<open>d.pop(k, None)\<close>: the entry goes, the order of the rest stays.\<close>

definition dict_del :: "('k \<times> 'v) list \<Rightarrow> 'k \<Rightarrow> ('k \<times> 'v) list" where
  "dict_del d k = filter (\<lambda>(k', v'). k' \<noteq> k) d"

section \<open>data/data\_structures.py: ValidationResult\<close>

datatype ValidationStatus = PASSED | FAILED | WARNING | PENDING

record ValidationResult =
  checks :: "(string \<times> rat) list"
  confidence :: rat
  improvement_action :: "(string \<times> pyval) list"
  overall_score :: rat
  status :: ValidationStatus

text \<open>The dataclass defaults.\<close>

definition ValidationResult_new :: ValidationResult where
  "ValidationResult_new =
     \<lparr>checks = [], confidence = 0, improvement_action = [], overall_score = 0,
      status = PENDING\<rparr>"

text \<open>
  \<open>_recalculate_overall_score\<close> and \<open>add_check\<close> with the mean taken in exact rationals.
  The bound on the confidence of the quality controller is stated over these; the
  section on double precision below gives the two methods in the arithmetic of the code.
\<close>

definition recalculate_overall_score :: "ValidationResult \<Rightarrow> ValidationResult" where
  "recalculate_overall_score vr =
     (if checks vr = [] then vr\<lparr>overall_score := 0\<rparr>
      else
        let s = sum_list (dict_values (checks vr)) / of_nat (length (checks vr))
        in vr\<lparr>overall_score := s,
              status := (if s \<ge> 8 / 10 then PASSED
                         else if s \<ge> 6 / 10 then WARNING
                         else FAILED)\<rparr>)"

definition add_check :: "ValidationResult \<Rightarrow> string \<Rightarrow> rat \<Rightarrow> ValidationResult" where
  "add_check vr check_name score =
     recalculate_overall_score
       (vr\<lparr>checks := dict_set (checks vr) check_name (max 0 (min 1 score))\<rparr>)"

definition get_check_result :: "ValidationResult \<Rightarrow> string \<Rightarrow> rat \<Rightarrow> rat" where
  "get_check_result vr check_name dflt = dict_get_default (checks vr) check_name dflt"

definition set_confidence :: "ValidationResult \<Rightarrow> rat \<Rightarrow> ValidationResult" where
  "set_confidence vr c = vr\<lparr>confidence := max 0 (min 1 c)\<rparr>"

definition get_overall_score :: "ValidationResult \<Rightarrow> rat" where
  "get_overall_score vr = overall_score vr"

text \<open>A run of \<open>add_check\<close> calls, in order.\<close>

fun add_checks :: "ValidationResult \<Rightarrow> (string \<times> rat) list \<Rightarrow> ValidationResult" where
  "add_checks vr [] = vr"
| "add_checks vr ((n, s) # cs) = add_checks (add_check vr n s) cs"


text \<open>
  What every result built by \<open>add_check\<close> calls alone satisfies: one entry per check
  name, every stored score clamped into \<open>[0, 1]\<close>, and so an overall score in \<open>[0, 1]\<close>.
\<close>

definition recorded_ok :: "ValidationResult \<Rightarrow> bool" where
  "recorded_ok vr =
     (distinct (map fst (checks vr)) \<and>
      list_all (\<lambda>s. 0 \<le> s \<and> s \<le> 1) (map snd (checks vr)) \<and>
      0 \<le> overall_score vr \<and> overall_score vr \<le> 1)"


section \<open>Double precision\<close>

text \<open>
  A Python \<open>float\<close> is an IEEE 754 binary64 number. A finite one is modelled by the
  rational it denotes, and every operation returns the exact result rounded to the
  nearest double, ties to the even significand, with gradual underflow below
  \<open>2 ^ -1022\<close>. Overflow to infinity is not modelled: the sums and means below stay
  within \<open>[0, 2 ^ 53]\<close>.
\<close>

text \<open>\<open>int.bit_length\<close> of a positive integer.\<close>

function bit_length :: "int \<Rightarrow> int" where
  "bit_length n = (if n \<le> 0 then 0 else 1 + bit_length (n div 2))"
  by pat_completeness auto
termination
  by (relation "measure nat") simp_all

declare bit_length.simps [simp del]

definition pow2 :: "int \<Rightarrow> rat" where
  "pow2 k = (if 0 \<le> k then 2 ^ nat k else 1 / 2 ^ nat (- k))"

text \<open>The binary exponent of \<open>x \<noteq> 0\<close>: the \<open>e\<close> with \<open>2 ^ e \<le> \<bar>x\<bar> < 2 ^ (e + 1)\<close>.\<close>

definition exponent_of :: "rat \<Rightarrow> int" where
  "exponent_of x =
     (let (a, b) = quotient_of \<bar>x\<bar>;
          k = bit_length a - bit_length b
      in if pow2 k \<le> \<bar>x\<bar> then k else k - 1)"

definition round_half_even :: "rat \<Rightarrow> int" where
  "round_half_even m =
     (let f = \<lfloor>m\<rfloor>; d = m - of_int f
      in if d < 1 / 2 then f
         else if d > 1 / 2 then f + 1
         else if even f then f else f + 1)"

text \<open>
  The nearest double: a multiple of the spacing \<open>2 ^ (e - 52)\<close> of the doubles in the
  binade of \<open>x\<close>, where the exponent is at least \<open>-1022\<close>.
\<close>

definition round_double :: "rat \<Rightarrow> rat" where
  "round_double x =
     (if x = 0 then 0
      else
        let e = max (exponent_of x) (- 1022);
            q = pow2 (e - 52)
        in of_int (round_half_even (x / q)) * q)"

text \<open>The spacing of the doubles in the binade of \<open>x\<close>, for the facts about rounding.\<close>

definition spacing :: "rat \<Rightarrow> rat" where
  "spacing x = pow2 (max (exponent_of x) (- 1022) - 52)"

text \<open>A decimal literal such as \<open>0.8\<close> denotes the double nearest to it.\<close>

definition float_lit :: "rat \<Rightarrow> rat" where
  "float_lit x = round_double x"

definition float_add :: "rat \<Rightarrow> rat \<Rightarrow> rat" where
  "float_add x y = round_double (x + y)"

definition float_sub :: "rat \<Rightarrow> rat \<Rightarrow> rat" where
  "float_sub x y = round_double (x - y)"

definition float_mul :: "rat \<Rightarrow> rat \<Rightarrow> rat" where
  "float_mul x y = round_double (x * y)"

text \<open>\<open>x / y\<close> for \<open>y \<noteq> 0\<close>.\<close>

definition float_div :: "rat \<Rightarrow> rat \<Rightarrow> rat" where
  "float_div x y = round_double (x / y)"

text \<open>The conversion of an \<open>int\<close> operand, here a \<open>len\<close>, to \<open>float\<close>.\<close>

definition float_of_nat :: "nat \<Rightarrow> rat" where
  "float_of_nat n = round_double (of_nat n)"

text \<open>
  The builtin \<open>sum\<close> over floats. Up to CPython 3.11 it adds from left to right, starting
  from \<open>0\<close> and rounding after each addition. From CPython 3.12 on it carries a
  compensation term (Neumaier's summation), added to the total at the end when it is
  not zero.
\<close>

definition float_sum_plain :: "rat list \<Rightarrow> rat" where
  "float_sum_plain xs = foldl float_add 0 xs"

fun neumaier :: "rat \<Rightarrow> rat \<Rightarrow> rat list \<Rightarrow> rat" where
  "neumaier f c [] = (if c \<noteq> 0 then float_add f c else f)"
| "neumaier f c (x # xs) =
     (let t = float_add f x;
          c' = (if \<bar>f\<bar> \<ge> \<bar>x\<bar>
                then float_add c (float_add (float_sub f t) x)
                else float_add c (float_add (float_sub x t) f))
      in neumaier t c' xs)"

definition float_sum_compensated :: "rat list \<Rightarrow> rat" where
  "float_sum_compensated xs =
     (case xs of [] \<Rightarrow> 0 | x # rest \<Rightarrow> neumaier (float_add 0 x) 0 rest)"


section \<open>data/data\_structures.py: ValidationResult in double precision\<close>

text \<open>
  The \<open>score\<close> argument of \<open>add_check\<close>: a finite double, an infinity or a NaN. An
  \<open>int\<close> or \<open>bool\<close> argument is compared by its value and is stored as the float \<open>0.0\<close>
  or \<open>1.0\<close> it is clamped to, so it behaves as the finite number of the same value.
\<close>

datatype pyfloat = Finite rat | PosInf | NegInf | NaN

text \<open>
  \<open>max(0.0, min(1.0, score))\<close>. Both builtins keep their first argument unless a later
  one compares strictly smaller (\<open>min\<close>) or greater (\<open>max\<close>), and every comparison with
  a NaN is false: \<open>min(1.0, nan)\<close> is \<open>1.0\<close>.
\<close>

definition clamp_score :: "pyfloat \<Rightarrow> rat" where
  "clamp_score score =
     (case score of
        Finite x \<Rightarrow> max 0 (min 1 x)
      | PosInf \<Rightarrow> 1
      | NegInf \<Rightarrow> 0
      | NaN \<Rightarrow> 1)"

text \<open>
  \<open>_recalculate_overall_score\<close>, with the builtin \<open>sum\<close> as the parameter \<open>fsum\<close>:
  \<open>sum(self.checks.values()) / len(self.checks)\<close>, compared with the doubles \<open>0.8\<close> and
  \<open>0.6\<close>.
\<close>

definition recalculate_overall_score_double ::
  "(rat list \<Rightarrow> rat) \<Rightarrow> ValidationResult \<Rightarrow> ValidationResult" where
  "recalculate_overall_score_double fsum vr =
     (if checks vr = [] then vr\<lparr>overall_score := 0\<rparr>
      else
        let s = float_div (fsum (dict_values (checks vr))) (float_of_nat (length (checks vr)))
        in vr\<lparr>overall_score := s,
              status := (if s \<ge> float_lit (8 / 10) then PASSED
                         else if s \<ge> float_lit (6 / 10) then WARNING
                         else FAILED)\<rparr>)"

definition add_check_double ::
  "(rat list \<Rightarrow> rat) \<Rightarrow> ValidationResult \<Rightarrow> string \<Rightarrow> pyfloat \<Rightarrow> ValidationResult" where
  "add_check_double fsum vr check_name score =
     recalculate_overall_score_double fsum
       (vr\<lparr>checks := dict_set (checks vr) check_name (clamp_score score)\<rparr>)"

definition get_weak_aspects :: "ValidationResult \<Rightarrow> string list" where
  "get_weak_aspects vr =
     (let threshold = float_lit (6 / 10)
      in map fst (filter (\<lambda>(check_name, score). score < threshold) (checks vr)))"

text \<open>A run of \<open>add_check\<close> calls, in order.\<close>

fun add_checks_double ::
  "(rat list \<Rightarrow> rat) \<Rightarrow> ValidationResult \<Rightarrow> (string \<times> pyfloat) list \<Rightarrow> ValidationResult" where
  "add_checks_double fsum vr [] = vr"
| "add_checks_double fsum vr ((n, s) # cs) = add_checks_double fsum (add_check_double fsum vr n s) cs"

section \<open>core/quality\_controller.py: ConfidenceCalculator\<close>

text \<open>
  \<open>processing_context\<close> is a \<open>Dict[str, Any]\<close>; \<open>processing_context.get(k)\<close> is \<open>None\<close>
  for a missing key, and the \<open>if\<close> tests the truth value of what it returns.
\<close>

definition calculate_confidence ::
  "pystr \<Rightarrow> (string \<times> pyval) list \<Rightarrow> ValidationResult \<Rightarrow> rat" where
  "calculate_confidence response processing_context validation_result =
     (let base0 = 5 / 10;
          base1 = (if get_check_result validation_result ''basic_quality'' 0 > 7 / 10
                   then base0 + 2 / 10 else base0);
          base2 = (if truthy (dict_get_default processing_context ''knowledge_sources'' PNone)
                   then base1 + 15 / 100 else base1);
          base3 = (if truthy (dict_get_default processing_context ''tool_results'' PNone)
                   then base2 + 1 / 10 else base2);
          validation_score = get_overall_score validation_result;
          final_confidence = base3 * validation_score
      in min final_confidence 1)"


text \<open>
  \<open>calculate_confidence\<close> in double precision: the literals are doubles, and every
  addition and the product are rounded.
\<close>

definition calculate_confidence_double ::
  "pystr \<Rightarrow> (string \<times> pyval) list \<Rightarrow> ValidationResult \<Rightarrow> rat" where
  "calculate_confidence_double response processing_context validation_result =
     (let base0 = float_lit (5 / 10);
          base1 = (if get_check_result validation_result ''basic_quality'' 0 > float_lit (7 / 10)
                   then float_add base0 (float_lit (2 / 10)) else base0);
          base2 = (if truthy (dict_get_default processing_context ''knowledge_sources'' PNone)
                   then float_add base1 (float_lit (15 / 100)) else base1);
          base3 = (if truthy (dict_get_default processing_context ''tool_results'' PNone)
                   then float_add base2 (float_lit (1 / 10)) else base2);
          validation_score = get_overall_score validation_result;
          final_confidence = float_mul base3 validation_score
      in min final_confidence 1)"

text \<open>The base confidence after the three tests, each passed or not.\<close>

definition base_confidence :: "bool \<Rightarrow> bool \<Rightarrow> bool \<Rightarrow> rat" where
  "base_confidence quality knowledge tools =
     (let base0 = float_lit (5 / 10);
          base1 = (if quality then float_add base0 (float_lit (2 / 10)) else base0);
          base2 = (if knowledge then float_add base1 (float_lit (15 / 100)) else base1);
          base3 = (if tools then float_add base2 (float_lit (1 / 10)) else base2)
      in base3)"

section \<open>data/data\_structures.py: ProcessingResult\<close>

text \<open>
  A dataclass does not check the declared field types, and \<open>from_dict\<close> stores whatever
  the mapping holds, so each field holds a Python value. The declared types are
  \<open>str\<close>, \<open>float\<close>, \<open>bool\<close>, \<open>float\<close>, \<open>List[str]\<close>, three \<open>Dict[str, Any]\<close>, \<open>List[str]\<close>
  and \<open>Optional[str]\<close>. The field \<open>confidence\<close> is \<open>result_confidence\<close> here.
\<close>

record ProcessingResult =
  response :: pyval
  result_confidence :: pyval
  success :: pyval
  processing_time :: pyval
  knowledge_sources :: pyval
  tool_results :: pyval
  validation_results :: pyval
  metadata :: pyval
  errors :: pyval
  error :: pyval

text \<open>The dataclass defaults: \<open>ProcessingResult()\<close>.\<close>

definition ProcessingResult_new :: ProcessingResult where
  "ProcessingResult_new =
     \<lparr>response = PStr [], result_confidence = PFloat 0, success = PBool False,
      processing_time = PFloat 0, knowledge_sources = PList [], tool_results = PDict [],
      validation_results = PDict [], metadata = PDict [], errors = PList [],
      error = PNone\<rparr>"

definition to_dict :: "ProcessingResult \<Rightarrow> (string \<times> pyval) list" where
  "to_dict r =
     [(''response'', response r),
      (''confidence'', result_confidence r),
      (''success'', success r),
      (''processing_time'', processing_time r),
      (''knowledge_sources'', knowledge_sources r),
      (''tool_results'', tool_results r),
      (''validation_results'', validation_results r),
      (''metadata'', metadata r),
      (''errors'', errors r),
      (''error'', error r)]"

definition from_dict :: "(string \<times> pyval) list \<Rightarrow> ProcessingResult" where
  "from_dict d =
     \<lparr>response = dict_get_default d ''response'' (PStr []),
      result_confidence = dict_get_default d ''confidence'' (PFloat 0),
      success = dict_get_default d ''success'' (PBool False),
      processing_time = dict_get_default d ''processing_time'' (PFloat 0),
      knowledge_sources = dict_get_default d ''knowledge_sources'' (PList []),
      tool_results = dict_get_default d ''tool_results'' (PDict []),
      validation_results = dict_get_default d ''validation_results'' (PDict []),
      metadata = dict_get_default d ''metadata'' (PDict []),
      errors = dict_get_default d ''errors'' (PList []),
      error = dict_get_default d ''error'' PNone\<rparr>"

section \<open>data/data\_structures.py: PipelineState\<close>

datatype ProcessingStatus = ST_PENDING | ST_RUNNING | ST_COMPLETED | ST_FAILED | ST_CANCELLED

text \<open>
  The fields \<open>context\<close>, \<open>response\<close>, \<open>confidence\<close>, \<open>status\<close>, \<open>tool_results\<close>,
  \<open>validation_results\<close>, \<open>metadata\<close> and \<open>errors\<close> carry the prefix \<open>state_\<close> here.
\<close>

record PipelineState =
  question :: pystr
  route_config :: "(string \<times> pyval) list"
  state_context :: "(string \<times> pyval) list"
  processed_question :: pystr
  state_response :: pystr
  state_confidence :: rat
  state_status :: ProcessingStatus
  knowledge_results :: "(string \<times> pyval) list"
  state_tool_results :: "(string \<times> pyval) list"
  state_validation_results :: "(string \<times> pyval) list"
  state_metadata :: "(string \<times> pyval) list"
  state_errors :: "pystr list"
  start_time :: rat

text \<open>\<open>PipelineState(question, route_config, context)\<close>, created when the clock reads \<open>now\<close>.\<close>

definition PipelineState_new ::
  "pystr \<Rightarrow> (string \<times> pyval) list \<Rightarrow> (string \<times> pyval) list \<Rightarrow> rat \<Rightarrow> PipelineState" where
  "PipelineState_new q rc ctx now =
     \<lparr>question = q, route_config = rc, state_context = ctx, processed_question = [],
      state_response = [], state_confidence = 0, state_status = ST_PENDING,
      knowledge_results = [], state_tool_results = [], state_validation_results = [],
      state_metadata = [], state_errors = [], start_time = now\<rparr>"

definition add_validation_result :: "PipelineState \<Rightarrow> string \<Rightarrow> bool \<Rightarrow> PipelineState" where
  "add_validation_result st check_name res =
     st\<lparr>state_validation_results := dict_set (state_validation_results st) check_name (PBool res)\<rparr>"

definition add_metadata :: "PipelineState \<Rightarrow> string \<Rightarrow> pyval \<Rightarrow> PipelineState" where
  "add_metadata st k v = st\<lparr>state_metadata := dict_set (state_metadata st) k v\<rparr>"

definition add_error :: "PipelineState \<Rightarrow> pystr \<Rightarrow> PipelineState" where
  "add_error st e = st\<lparr>state_errors := state_errors st @ [e]\<rparr>"

definition set_response :: "PipelineState \<Rightarrow> pystr \<Rightarrow> PipelineState" where
  "set_response st r = st\<lparr>state_response := r\<rparr>"

definition set_state_confidence :: "PipelineState \<Rightarrow> rat \<Rightarrow> PipelineState" where
  "set_state_confidence st c = st\<lparr>state_confidence := max 0 (min 1 c)\<rparr>"

text \<open>
  \<open>get_final_result\<close>, called when the clock reads \<open>now\<close>. The \<open>error\<close> field is not
  passed to the constructor and keeps its default \<open>None\<close>.
\<close>

definition get_final_result :: "PipelineState \<Rightarrow> rat \<Rightarrow> ProcessingResult" where
  "get_final_result st now =
     \<lparr>response = PStr (state_response st),
      result_confidence = PFloat (state_confidence st),
      success = PBool (length (state_errors st) = 0 \<and> state_response st \<noteq> []),
      processing_time = PFloat (now - start_time st),
      knowledge_sources = PList (map (\<lambda>k. PStr (ascii k)) (dict_keys (knowledge_results st))),
      tool_results = PDict (state_tool_results st),
      validation_results = PDict (state_validation_results st),
      metadata = PDict (state_metadata st),
      errors = PList (map PStr (state_errors st)),
      error = PNone\<rparr>"


section \<open>core/pipeline.py\<close>

text \<open>
  \<open>str.strip()\<close> and \<open>str.split()\<close> without arguments cut at the code points for which
  \<open>str.isspace\<close> holds.
\<close>

definition is_space :: "nat \<Rightarrow> bool" where
  "is_space c =
     ((9 \<le> c \<and> c \<le> 13) \<or> (28 \<le> c \<and> c \<le> 32) \<or> c = 133 \<or> c = 160 \<or> c = 5760 \<or>
      (8192 \<le> c \<and> c \<le> 8202) \<or> c = 8232 \<or> c = 8233 \<or> c = 8239 \<or> c = 8287 \<or>
      c = 12288)"

definition strip :: "pystr \<Rightarrow> pystr" where
  "strip s = rev (dropWhile is_space (rev (dropWhile is_space s)))"

text \<open>\<open>split_acc cur s\<close>: the words of \<open>s\<close>, after the word begun in \<open>cur\<close> (kept reversed).\<close>

fun split_acc :: "pystr \<Rightarrow> pystr \<Rightarrow> pystr list" where
  "split_acc cur [] = (if cur = [] then [] else [rev cur])"
| "split_acc cur (c # cs) =
     (if is_space c
      then (if cur = [] then split_acc [] cs else rev cur # split_acc [] cs)
      else split_acc (c # cur) cs)"

definition split :: "pystr \<Rightarrow> pystr list" where
  "split s = split_acc [] s"

datatype py_error =
    KeyError pystr | TypeError pystr | ValueError pystr | ZeroDivisionError pystr
  | OtherError pystr

text \<open>\<open>str(e)\<close> for an exception built from one message.\<close>

fun error_str :: "py_error \<Rightarrow> pystr" where
  "error_str (KeyError m) = m"
| "error_str (TypeError m) = m"
| "error_str (ValueError m) = m"
| "error_str (ZeroDivisionError m) = m"
| "error_str (OtherError m) = m"

definition PreprocessingStage :: "PipelineState \<Rightarrow> PipelineState" where
  "PreprocessingStage st =
     (let q = strip (question st);
          st1 = st\<lparr>processed_question := q\<rparr>;
          st2 = add_metadata st1 ''original_length'' (PInt (int (length q)));
          st3 = add_metadata st2 ''word_count'' (PInt (int (length (split q))))
      in st3)"

text \<open>The literal \<open>"\<dots>: "\<close> of \<open>SimpleReasoningStage\<close>: nine CJK code points, a colon, a space.\<close>

definition simple_reasoning_prefix :: pystr where
  "simple_reasoning_prefix =
     [22522, 20110, 31616, 21333, 25512, 29702, 30340, 22238, 31572, 58, 32]"

definition SimpleReasoningStage :: "PipelineState \<Rightarrow> PipelineState" where
  "SimpleReasoningStage st =
     (let resp = simple_reasoning_prefix @ processed_question st;
          st1 = set_response st resp;
          st2 = set_state_confidence st1 (7 / 10)
      in st2)"

definition BasicValidationStage :: "PipelineState \<Rightarrow> PipelineState" where
  "BasicValidationStage st =
     (if state_response st \<noteq> [] \<and> length (state_response st) > 10
      then add_validation_result st ''basic_check'' True
      else add_validation_result st ''basic_check'' False)"

text \<open>The keys of \<open>stage_processors\<close>.\<close>

definition stage_names :: "string list" where
  "stage_names =
     [''preprocessing'', ''knowledge_retrieval'', ''multi_source_retrieval'',
      ''tool_orchestration'', ''tool_planning'', ''tool_execution'', ''reasoning'',
      ''simple_reasoning'', ''advanced_reasoning'', ''result_integration'', ''validation'',
      ''basic_validation'', ''multi_stage_validation'', ''fact_checking'',
      ''expert_validation'', ''postprocessing'']"

text \<open>
  The processor of a stage. Three stages are written out; the other thirteen call the
  retrieval tool, the tool orchestrator or further text processing and are the
  parameter \<open>other\<close>, which may raise.
\<close>

definition stage_process ::
  "(string \<Rightarrow> PipelineState \<Rightarrow> py_error + PipelineState) \<Rightarrow> string \<Rightarrow> PipelineState
     \<Rightarrow> py_error + PipelineState" where
  "stage_process other name st =
     (if name = ''preprocessing'' then Inr (PreprocessingStage st)
      else if name = ''simple_reasoning'' then Inr (SimpleReasoningStage st)
      else if name = ''basic_validation'' then Inr (BasicValidationStage st)
      else other name st)"

text \<open>\<open>str(i)\<close> for an \<open>int\<close>: the decimal digits, after a minus sign when negative.\<close>

function nat_str :: "nat \<Rightarrow> pystr" where
  "nat_str n = (if n < 10 then [48 + n] else nat_str (n div 10) @ [48 + n mod 10])"
  by pat_completeness auto
termination
  by (relation "measure (\<lambda>n. n)") simp_all

declare nat_str.simps [simp del]

definition int_str :: "int \<Rightarrow> pystr" where
  "int_str i = (if i < 0 then 45 # nat_str (nat (- i)) else nat_str (nat i))"

definition quoted :: "string \<Rightarrow> pystr" where
  "quoted s = [39] @ ascii s @ [39]"

text \<open>
  The values that can be hashed, and so looked up in a dict. Hashing a list or a dict
  raises \<open>TypeError\<close>.
\<close>

datatype hashable = HNone | HBool bool | HInt int | HFloat rat | HStr pystr

fun hash_key :: "pyval \<Rightarrow> py_error + hashable" where
  "hash_key PNone = Inr HNone"
| "hash_key (PBool b) = Inr (HBool b)"
| "hash_key (PInt i) = Inr (HInt i)"
| "hash_key (PFloat x) = Inr (HFloat x)"
| "hash_key (PStr s) = Inr (HStr s)"
| "hash_key (PList xs) = Inl (TypeError (ascii ''unhashable type: '' @ quoted ''list''))"
| "hash_key (PDict kvs) = Inl (TypeError (ascii ''unhashable type: '' @ quoted ''dict''))"

text \<open>
  \<open>f"{v}"\<close> for such a value. The \<open>repr\<close> of a float, its shortest decimal form that
  reads back as the same double, is the parameter \<open>float_repr\<close>.
\<close>

fun format_key :: "(rat \<Rightarrow> pystr) \<Rightarrow> hashable \<Rightarrow> pystr" where
  "format_key float_repr (HStr s) = s"
| "format_key float_repr HNone = ascii ''None''"
| "format_key float_repr (HBool b) = (if b then ascii ''True'' else ascii ''False'')"
| "format_key float_repr (HInt i) = int_str i"
| "format_key float_repr (HFloat x) = float_repr x"

text \<open>
  The key of \<open>stage_processors\<close> equal to a value: the keys are strings, and no other
  value equals a string.
\<close>

fun stage_lookup :: "hashable \<Rightarrow> string option" where
  "stage_lookup (HStr s) = find (\<lambda>k. ascii k = s) stage_names"
| "stage_lookup HNone = None"
| "stage_lookup (HBool b) = None"
| "stage_lookup (HInt i) = None"
| "stage_lookup (HFloat x) = None"

text \<open>
  The loop over \<open>route_config['stages']\<close>: a known stage is run, an unknown name adds an
  error and the loop goes on; an exception of a stage or of the membership test
  \<open>stage_name in self.stage_processors\<close> leaves the loop.
\<close>

definition unknown_stage_prefix :: pystr where
  "unknown_stage_prefix = ascii ''Unknown stage: ''"

fun run_stages ::
  "(rat \<Rightarrow> pystr) \<Rightarrow> (string \<Rightarrow> PipelineState \<Rightarrow> py_error + PipelineState) \<Rightarrow> pyval list
     \<Rightarrow> PipelineState \<Rightarrow> py_error + PipelineState" where
  "run_stages float_repr other [] st = Inr st"
| "run_stages float_repr other (stage_name # rest) st =
     (case hash_key stage_name of
        Inl e \<Rightarrow> Inl e
      | Inr key \<Rightarrow>
          (case stage_lookup key of
             Some k \<Rightarrow>
               (case stage_process other k st of
                  Inl e \<Rightarrow> Inl e
                | Inr st' \<Rightarrow> run_stages float_repr other rest st')
           | None \<Rightarrow>
               run_stages float_repr other rest
                 (add_error st (unknown_stage_prefix @ format_key float_repr key))))"

text \<open>
  What the \<open>for\<close> statement iterates over: the items of a list, the characters of a
  \<open>str\<close>, the keys of a dict; any other value raises \<open>TypeError\<close>.
\<close>

definition not_iterable :: "string \<Rightarrow> py_error" where
  "not_iterable type_name = TypeError (quoted type_name @ ascii '' object is not iterable'')"

fun iterate :: "pyval \<Rightarrow> py_error + pyval list" where
  "iterate (PList xs) = Inr xs"
| "iterate (PStr s) = Inr (map (\<lambda>c. PStr [c]) s)"
| "iterate (PDict kvs) = Inr (map (\<lambda>(k, v). PStr (ascii k)) kvs)"
| "iterate PNone = Inl (not_iterable ''NoneType'')"
| "iterate (PBool b) = Inl (not_iterable ''bool'')"
| "iterate (PInt i) = Inl (not_iterable ''int'')"
| "iterate (PFloat x) = Inl (not_iterable ''float'')"

text \<open>The literal of \<open>_handle_pipeline_failure\<close>: nine CJK code points, a colon, a space.\<close>

definition pipeline_failure_prefix :: pystr where
  "pipeline_failure_prefix =
     [22788, 29702, 36807, 31243, 20013, 20986, 29616, 38169, 35823, 58, 32]"

definition handle_pipeline_failure :: "PipelineState \<Rightarrow> py_error \<Rightarrow> rat \<Rightarrow> ProcessingResult" where
  "handle_pipeline_failure st e dt =
     ProcessingResult_new
       \<lparr>response := PStr (pipeline_failure_prefix @ error_str e),
        success := PBool False,
        error := PStr (error_str e),
        processing_time := PFloat dt,
        result_confidence := PFloat 0\<rparr>"

text \<open>
  \<open>execute_pipeline\<close>. The clock is read when the state is created (\<open>t_state\<close>), at the
  start (\<open>t0\<close>) and at the end (\<open>t1\<close>). A missing \<open>'stages'\<close> key raises inside the
  \<open>try\<close>, as does a value that cannot be iterated over.
\<close>

definition execute_pipeline ::
  "(rat \<Rightarrow> pystr) \<Rightarrow> (string \<Rightarrow> PipelineState \<Rightarrow> py_error + PipelineState) \<Rightarrow> pystr
     \<Rightarrow> (string \<times> pyval) list \<Rightarrow> (string \<times> pyval) list \<Rightarrow> rat \<Rightarrow> rat \<Rightarrow> rat
     \<Rightarrow> ProcessingResult" where
  "execute_pipeline float_repr other q rc ctx t_state t0 t1 =
     (let pipeline_state = PipelineState_new q rc ctx t_state;
          outcome =
            (case dict_get rc ''stages'' of
               None \<Rightarrow> Inl (KeyError (quoted ''stages''))
             | Some stage_list \<Rightarrow>
                 (case iterate stage_list of
                    Inl e \<Rightarrow> Inl e
                  | Inr names \<Rightarrow> run_stages float_repr other names pipeline_state))
      in case outcome of
           Inr st \<Rightarrow> (get_final_result st t1)\<lparr>processing_time := PFloat (t1 - t0)\<rparr>
         | Inl e \<Rightarrow> handle_pipeline_failure pipeline_state e (t1 - t0))"

text \<open>The stage list of the \<open>fast_track\<close> route template.\<close>

definition fast_track_stages :: "pyval list" where
  "fast_track_stages =
     [PStr (ascii ''preprocessing''), PStr (ascii ''simple_reasoning''),
      PStr (ascii ''basic_validation'')]"

section \<open>core/classifier.py\<close>

text \<open>Sequencing of steps that may raise: the first exception ends the computation.\<close>

definition bind_err :: "'e + 'a \<Rightarrow> ('a \<Rightarrow> 'e + 'b) \<Rightarrow> 'e + 'b" where
  "bind_err m f = (case m of Inl e \<Rightarrow> Inl e | Inr x \<Rightarrow> f x)"

text \<open>\<open>d[k]\<close> on a mapping, and on a value that has to be a mapping.\<close>

definition dict_getitem :: "(string \<times> pyval) list \<Rightarrow> string \<Rightarrow> py_error + pyval" where
  "dict_getitem d k = (case dict_get d k of Some v \<Rightarrow> Inr v | None \<Rightarrow> Inl (KeyError (ascii k)))"

definition getitem :: "pyval \<Rightarrow> string \<Rightarrow> py_error + pyval" where
  "getitem v k =
     (case v of
        PDict d \<Rightarrow> dict_getitem d k
      | _ \<Rightarrow> Inl (TypeError (ascii ''a str key needs a mapping'')))"

text \<open>
  Ordering against a number: \<open>int\<close>, \<open>float\<close> and \<open>bool\<close> compare by value, and every
  other value raises \<open>TypeError\<close>.
\<close>

fun num_of :: "pyval \<Rightarrow> rat option" where
  "num_of (PInt i) = Some (of_int i)"
| "num_of (PFloat x) = Some x"
| "num_of (PBool b) = Some (if b then 1 else 0)"
| "num_of _ = None"

definition py_le :: "pyval \<Rightarrow> rat \<Rightarrow> py_error + bool" where
  "py_le v n =
     (case num_of v of
        Some x \<Rightarrow> Inr (x \<le> n)
      | None \<Rightarrow> Inl (TypeError (ascii ''<= not supported'')))"

definition py_ge :: "pyval \<Rightarrow> rat \<Rightarrow> py_error + bool" where
  "py_ge v n =
     (case num_of v of
        Some x \<Rightarrow> Inr (x \<ge> n)
      | None \<Rightarrow> Inl (TypeError (ascii ''>= not supported'')))"

text \<open>
  \<open>_determine_strategy\<close>. \<open>urgency == 'high'\<close> holds only for the \<open>str\<close> \<open>'high'\<close>: a
  mapping never equals a \<open>str\<close>. The \<open>and\<close> evaluates \<open>complexity <= 2\<close> only when the
  left operand is true.
\<close>

definition determine_strategy :: "(string \<times> pyval) list \<Rightarrow> py_error + string" where
  "determine_strategy analysis_result =
     bind_err (dict_getitem analysis_result ''complexity'') (\<lambda>complexity.
     bind_err (dict_getitem analysis_result ''urgency'') (\<lambda>urgency.
     bind_err (if urgency = PStr (ascii ''high'') then py_le complexity 2 else Inr False)
       (\<lambda>fast.
     if fast then Inr ''fast_track''
     else
       bind_err (py_ge complexity 4) (\<lambda>deep.
       if deep then Inr ''comprehensive''
       else
         bind_err (dict_getitem analysis_result ''tool_needs'') (\<lambda>tool_needs.
         bind_err (getitem tool_needs ''required'') (\<lambda>required.
         if truthy required then Inr ''tool_assisted'' else Inr ''standard''))))))"

definition synthesize_routing_decision ::
  "(string \<times> pyval) list \<Rightarrow> py_error + (string \<times> pyval) list" where
  "synthesize_routing_decision analysis_result =
     bind_err (dict_getitem analysis_result ''complexity'') (\<lambda>complexity.
     bind_err (dict_getitem analysis_result ''domain'') (\<lambda>domain.
     bind_err (dict_getitem analysis_result ''urgency'') (\<lambda>urgency.
     bind_err (dict_getitem analysis_result ''tool_needs'') (\<lambda>tool_needs.
     bind_err (getitem tool_needs ''required'') (\<lambda>required.
     bind_err (dict_getitem analysis_result ''freshness_need'') (\<lambda>freshness_need.
     bind_err (getitem freshness_need ''requires_fresh'') (\<lambda>requires_fresh.
     bind_err (dict_getitem analysis_result ''user_profile'') (\<lambda>user_profile.
     bind_err (getitem user_profile ''expertise_level'') (\<lambda>expertise_level.
     bind_err (determine_strategy analysis_result) (\<lambda>strategy.
     Inr [(''complexity_level'', complexity),
          (''domain_type'', domain),
          (''urgency_level'', urgency),
          (''requires_tools'', required),
          (''requires_fresh_data'', requires_fresh),
          (''user_expertise'', expertise_level),
          (''recommended_strategy'', PStr (ascii strategy))]))))))))))"

text \<open>
  analyzers/urgency\_analyzer.py, \<open>UrgencyAnalyzer.analyze\<close>. The private methods scan the
  question for keyword lists and add floating-point weights; they are parameters here.
  \<open>calculate_overall_urgency\<close> returns one of \<open>high\<close>, \<open>medium\<close>, \<open>low\<close>.
\<close>

record UrgencyAnalyzer =
  calculate_urgency_scores :: "pystr \<Rightarrow> pyval"
  analyze_time_sensitivity :: "pystr \<Rightarrow> pyval"
  analyze_action_type :: "pystr \<Rightarrow> pyval"
  analyze_context_urgency :: "pystr \<Rightarrow> pyval"
  calculate_overall_urgency :: "pyval \<Rightarrow> pyval \<Rightarrow> pyval \<Rightarrow> pyval \<Rightarrow> string"
  calculate_urgency_confidence :: "pyval \<Rightarrow> pyval \<Rightarrow> rat"

definition UrgencyAnalyzer_analyze :: "UrgencyAnalyzer \<Rightarrow> pystr \<Rightarrow> pyval" where
  "UrgencyAnalyzer_analyze ua q =
     (let urgency_scores = calculate_urgency_scores ua q;
          time_sensitivity = analyze_time_sensitivity ua q;
          action_type = analyze_action_type ua q;
          context_urgency = analyze_context_urgency ua q;
          overall_urgency =
            calculate_overall_urgency ua urgency_scores time_sensitivity action_type
              context_urgency
      in PDict
           [(''urgency_level'', PStr (ascii overall_urgency)),
            (''urgency_scores'', urgency_scores),
            (''time_sensitivity'', time_sensitivity),
            (''action_type'', action_type),
            (''context_urgency'', context_urgency),
            (''confidence'', PFloat (calculate_urgency_confidence ua urgency_scores time_sensitivity))])"

text \<open>
  The six analyzers of \<open>MultiDimensionalClassifier\<close>. The complexity analyzer returns an
  \<open>int\<close>; the other five return mappings.
\<close>

record dimension_analyzers =
  complexity_analyzer :: "pystr \<Rightarrow> int"
  domain_analyzer :: "pystr \<Rightarrow> pyval"
  urgency_analyzer :: UrgencyAnalyzer
  tool_requirement_analyzer :: "pystr \<Rightarrow> pyval"
  freshness_analyzer :: "pystr \<Rightarrow> pyval"
  user_context_analyzer :: "(string \<times> pyval) list \<Rightarrow> pyval list \<Rightarrow> pyval"

definition classify_question ::
  "dimension_analyzers \<Rightarrow> pystr \<Rightarrow> (string \<times> pyval) list \<Rightarrow> pyval list
     \<Rightarrow> py_error + (string \<times> pyval) list" where
  "classify_question az q user_context conversation_history =
     synthesize_routing_decision
       [(''complexity'', PInt (complexity_analyzer az q)),
        (''domain'', domain_analyzer az q),
        (''urgency'', UrgencyAnalyzer_analyze (urgency_analyzer az) q),
        (''tool_needs'', tool_requirement_analyzer az q),
        (''freshness_need'', freshness_analyzer az q),
        (''user_profile'', user_context_analyzer az user_context conversation_history)]"

text \<open>
  A question of ten code points that is urgent and simple: it starts with the keyword
  for "urgent", holds the keywords for "problem", "immediately" and "solve", and has one
  comma. By the keyword tables of the analyzers its keyword, time, action and context
  urgency are all \<open>high\<close> (overall \<open>high\<close>), its complexity score is below 1.5 for every
  word count (level 0), and no tool keyword occurs in it. \<open>urgent_question_analyzers\<close>
  are the analyzers' results on it; the mappings the classifier does not look into are
  cut down to the entries it reads, which are arguments.
\<close>

definition urgent_question :: pystr where
  "urgent_question = [32039, 24613, 38382, 39064, 65292, 35831, 31435, 21363, 35299, 20915]"

definition urgent_question_urgency :: UrgencyAnalyzer where
  "urgent_question_urgency =
     \<lparr>calculate_urgency_scores = (\<lambda>q.
        PDict [(''high'', PFloat (25 / 10)), (''medium'', PFloat 0), (''low'', PFloat 0)]),
      analyze_time_sensitivity = (\<lambda>q.
        PDict [(''time_frame'', PStr (ascii ''immediate'')),
               (''time_scores'', PDict [(''immediate'', PFloat 1), (''today'', PFloat 0),
                  (''this_week'', PFloat 0), (''this_month'', PFloat 0), (''future'', PFloat 0)]),
               (''urgency_level'', PStr (ascii ''high''))]),
      analyze_action_type = (\<lambda>q.
        PDict [(''action_type'', PStr (ascii ''critical'')),
               (''action_scores'', PDict [(''critical'', PFloat 1), (''important'', PFloat 0),
                  (''routine'', PFloat 0)]),
               (''urgency_level'', PStr (ascii ''high''))]),
      analyze_context_urgency = (\<lambda>q.
        PDict [(''context_type'', PStr (ascii ''problem_solving'')),
               (''context_scores'', PDict [(''problem_solving'', PFloat 1),
                  (''learning'', PFloat 0), (''decision_making'', PFloat 0),
                  (''planning'', PFloat 0)]),
               (''urgency_level'', PStr (ascii ''high''))]),
      calculate_overall_urgency = (\<lambda>scores time action ctx. ''high''),
      calculate_urgency_confidence = (\<lambda>scores time. 85 / 100)\<rparr>"

definition urgent_question_analyzers :: "pyval \<Rightarrow> pyval \<Rightarrow> pyval \<Rightarrow> dimension_analyzers" where
  "urgent_question_analyzers domain requires_fresh expertise =
     \<lparr>complexity_analyzer = (\<lambda>q. 0),
      domain_analyzer = (\<lambda>q. domain),
      urgency_analyzer = urgent_question_urgency,
      tool_requirement_analyzer = (\<lambda>q. PDict [(''required'', PBool False), (''tools'', PList [])]),
      freshness_analyzer = (\<lambda>q. PDict [(''requires_fresh'', requires_fresh)]),
      user_context_analyzer = (\<lambda>user_context history. PDict [(''expertise_level'', expertise)])\<rparr>"

section \<open>core/router.py: model selection\<close>

text \<open>\<open>_select_model\<close>, from the route's \<open>model_preference\<close> and the complexity level.\<close>

definition select_model :: "string \<Rightarrow> int \<Rightarrow> string" where
  "select_model preference complexity =
     (if preference = ''speed'' then ''qwen-turbo''
      else if preference = ''quality'' then ''qwen-max''
      else if complexity \<le> 2 then ''qwen-turbo''
      else if complexity \<le> 4 then ''qwen-plus''
      else ''qwen-max'')"


section \<open>core/scheduler.py: the audit record\<close>

text \<open>The field \<open>question\<close> is \<open>interaction_question\<close> here. The timestamp is left out.\<close>

record InteractionData =
  interaction_question :: pystr
  classification :: "(string \<times> pyval) list"
  processing_route :: "(string \<times> pyval) list"
  result :: "ProcessingResult option"
  total_processing_time :: rat
  complexity_level :: pyval
  user_satisfaction_score :: rat
  resource_consumption :: rat
  cost_per_interaction :: rat
  error_count :: int
  total_steps :: nat
  was_escalated :: pyval
  user_feedback :: "(string \<times> pyval) list"
  validation_result :: "ValidationResult option"

definition InteractionData_new :: InteractionData where
  "InteractionData_new =
     \<lparr>interaction_question = [], classification = [], processing_route = [], result = None,
      total_processing_time = 0, complexity_level = PInt 0, user_satisfaction_score = 0,
      resource_consumption = 0, cost_per_interaction = 0, error_count = 0, total_steps = 0,
      was_escalated = PBool False, user_feedback = [], validation_result = None\<rparr>"

text \<open>\<open>len\<close> of a value.\<close>

fun py_len :: "pyval \<Rightarrow> py_error + nat" where
  "py_len (PStr s) = Inr (length s)"
| "py_len (PList xs) = Inr (length xs)"
| "py_len (PDict d) = Inr (length d)"
| "py_len _ = Inl (TypeError (ascii ''object has no len()''))"

definition calculate_resource_consumption :: "(string \<times> pyval) list \<Rightarrow> py_error + rat" where
  "calculate_resource_consumption route =
     bind_err (py_len (dict_get_default route ''stages'' (PList []))) (\<lambda>n.
       let base_consumption = of_nat n * (1 / 10)
       in if truthy (dict_get_default route ''parallel_execution'' (PBool False))
          then Inr (base_consumption * (13 / 10))
          else Inr base_consumption)"

text \<open>The table \<open>cost_per_second\<close> of \<open>_calculate_cost\<close>, keyed by model name.\<close>

definition cost_per_second :: "(string \<times> rat) list" where
  "cost_per_second = [(''qwen-turbo'', 1 / 1000), (''qwen-plus'', 2 / 1000), (''qwen-max'', 5 / 1000)]"

text \<open>
  \<open>cost_per_second.get(model, 0.001)\<close>: a \<open>str\<close> is looked up, any other hashable value
  is no key of the table, and a list or mapping cannot be hashed.
\<close>

fun cost_rate :: "pyval \<Rightarrow> py_error + rat" where
  "cost_rate (PStr s) =
     (case find (\<lambda>(k, r). ascii k = s) cost_per_second of
        Some (k, r) \<Rightarrow> Inr r
      | None \<Rightarrow> Inr (1 / 1000))"
| "cost_rate (PList xs) = Inl (TypeError (ascii ''unhashable type''))"
| "cost_rate (PDict d) = Inl (TypeError (ascii ''unhashable type''))"
| "cost_rate _ = Inr (1 / 1000)"

definition calculate_cost :: "(string \<times> pyval) list \<Rightarrow> rat \<Rightarrow> py_error + rat" where
  "calculate_cost route t =
     (let model = dict_get_default route ''model_preference'' (PStr (ascii ''qwen-turbo''))
      in bind_err (cost_rate model) (\<lambda>rate. Inr (rate * t)))"

definition create_interaction_data ::
  "pystr \<Rightarrow> (string \<times> pyval) list \<Rightarrow> (string \<times> pyval) list \<Rightarrow> ProcessingResult \<Rightarrow> rat
     \<Rightarrow> py_error + InteractionData" where
  "create_interaction_data q cls route res t =
     bind_err (calculate_resource_consumption route) (\<lambda>consumption.
     bind_err (calculate_cost route t) (\<lambda>cost.
     bind_err (py_len (dict_get_default route ''stages'' (PList []))) (\<lambda>steps.
     Inr (InteractionData_new
       \<lparr>interaction_question := q,
        classification := cls,
        processing_route := route,
        result := Some res,
        total_processing_time := t,
        complexity_level := dict_get_default cls ''complexity_level'' (PInt 0),
        user_satisfaction_score := 8 / 10,
        resource_consumption := consumption,
        cost_per_interaction := cost,
        error_count := (if truthy (success res) then 0 else 1),
        total_steps := steps,
        was_escalated := dict_get_default route ''escalated'' (PBool False)\<rparr>))))"

text \<open>
  \<open>processing_route.__dict__\<close> of the route the router builds from the \<open>comprehensive\<close>
  template for a classification of complexity 5: the template's five stages, parallel,
  timeout 30, preference \<open>quality\<close>, and the context entries of
  \<open>_build_processing_pipeline\<close> (the classification itself is cut down to its level).
\<close>

definition comprehensive_route :: "(string \<times> pyval) list" where
  "comprehensive_route =
     [(''stages'', PList (map (\<lambda>s. PStr (ascii s))
         [''preprocessing'', ''multi_source_retrieval'', ''tool_orchestration'',
          ''advanced_reasoning'', ''multi_stage_validation''])),
      (''parallel_execution'', PBool True),
      (''timeout'', PFloat 30),
      (''model_preference'', PStr (ascii ''quality'')),
      (''context'', PDict
         [(''classification_result'', PDict [(''complexity_level'', PInt 5)]),
          (''selected_model'', PStr (ascii (select_model ''quality'' 5))),
          (''resource_allocation'', PDict
             [(''cpu_cores'', PInt 2), (''memory_mb'', PInt 2560), (''timeout'', PFloat 30)])])]"

section \<open>tools/calculator\_tool.py\<close>

text \<open>
  The table \<open>conversion_factors\<close>: a factor for each unit of length and weight, and a
  function for each unit of temperature (the functions are never called: the
  temperature branch has its own formulas).
\<close>

datatype unit_entry = Factor rat | Formula "rat \<Rightarrow> rat"

definition conversion_factors :: "(string \<times> (string \<times> unit_entry) list) list" where
  "conversion_factors =
     [(''length'',
         [(''m'', Factor 1), (''cm'', Factor (1 / 100)), (''mm'', Factor (1 / 1000)),
          (''km'', Factor 1000), (''inch'', Factor (254 / 10000)),
          (''ft'', Factor (3048 / 10000)), (''yard'', Factor (9144 / 10000))]),
      (''weight'',
         [(''kg'', Factor 1), (''g'', Factor (1 / 1000)),
          (''lb'', Factor (453592 / 1000000)), (''oz'', Factor (283495 / 10000000))]),
      (''temperature'',
         [(''celsius'', Formula (\<lambda>c. c)),
          (''fahrenheit'', Formula (\<lambda>f. (f - 32) * 5 / 9)),
          (''kelvin'', Formula (\<lambda>k. k - 27315 / 100))])]"

record conversion =
  converted_value :: rat
  original_value :: rat
  from_unit :: string
  to_unit :: string
  category :: string

definition temperature_conversion :: "string \<Rightarrow> string \<Rightarrow> rat \<Rightarrow> rat" where
  "temperature_conversion from_u to_u v =
     (if from_u = ''celsius'' \<and> to_u = ''fahrenheit'' then v * 9 / 5 + 32
      else if from_u = ''fahrenheit'' \<and> to_u = ''celsius'' then (v - 32) * 5 / 9
      else if from_u = ''celsius'' \<and> to_u = ''kelvin'' then v + 27315 / 100
      else if from_u = ''kelvin'' \<and> to_u = ''celsius'' then v - 27315 / 100
      else v)"

text \<open>\<open>value * from_factor / to_factor\<close> on two entries of a table.\<close>

fun factor_conversion :: "rat \<Rightarrow> unit_entry \<Rightarrow> unit_entry \<Rightarrow> py_error + rat" where
  "factor_conversion v (Factor f) (Factor g) =
     (if g = 0 then Inl (ZeroDivisionError (ascii ''float division by zero''))
      else Inr (v * f / g))"
| "factor_conversion v _ _ = Inl (TypeError (ascii ''unsupported operand type''))"

text \<open>
  The loop over the categories: the first one that holds both units converts and
  returns; \<open>None\<close> when the loop ends without one.
\<close>

fun convert_in ::
  "(string \<times> (string \<times> unit_entry) list) list \<Rightarrow> string \<Rightarrow> string \<Rightarrow> rat
     \<Rightarrow> (py_error + conversion) option" where
  "convert_in [] from_u to_u v = None"
| "convert_in ((cat, units) # cats) from_u to_u v =
     (case (dict_get units from_u, dict_get units to_u) of
        (Some from_factor, Some to_factor) \<Rightarrow>
          Some (bind_err
            (if cat = ''temperature'' then Inr (temperature_conversion from_u to_u v)
             else factor_conversion v from_factor to_factor)
            (\<lambda>res. Inr \<lparr>converted_value = res, original_value = v, from_unit = from_u,
                            to_unit = to_u, category = cat\<rparr>))
      | _ \<Rightarrow> convert_in cats from_u to_u v)"

definition unsupported_message :: "string \<Rightarrow> string \<Rightarrow> pystr" where
  "unsupported_message from_u to_u =
     ascii (''Unsupported unit conversion: '' @ from_u @ '' to '' @ to_u)"

text \<open>
  \<open>_unit_conversion\<close>. \<open>to_float\<close> is Python's \<open>float(expression)\<close>, which raises
  \<open>ValueError\<close> on text that is no number. The unit names are the \<open>from_unit\<close> and
  \<open>to_unit\<close> parameters, \<open>''\<close> when missing.
\<close>

definition unit_conversion ::
  "(pystr \<Rightarrow> rat option) \<Rightarrow> pystr \<Rightarrow> string \<Rightarrow> string \<Rightarrow> py_error + conversion" where
  "unit_conversion to_float expression from_u to_u =
     (case to_float expression of
        None \<Rightarrow> Inl (ValueError (ascii ''could not convert string to float''))
      | Some v \<Rightarrow>
          (case convert_in conversion_factors from_u to_u v of
             Some r \<Rightarrow> r
           | None \<Rightarrow> Inl (ValueError (unsupported_message from_u to_u))))"

text \<open>
  \<open>execute\<close>, for \<open>type = 'unit_conversion'\<close>: the conversion under \<open>result\<close> with status
  \<open>success\<close>, or \<open>result = None\<close>, the text of the exception under \<open>error\<close> and status
  \<open>error\<close>. The other calculation types evaluate the expression and are not modelled.
\<close>

record calculator_output =
  out_result :: "conversion option"
  out_expression :: pystr
  out_error :: "pystr option"
  out_status :: string

definition execute_unit_conversion ::
  "(pystr \<Rightarrow> rat option) \<Rightarrow> pystr \<Rightarrow> string \<Rightarrow> string \<Rightarrow> calculator_output" where
  "execute_unit_conversion to_float expression from_u to_u =
     (case unit_conversion to_float expression from_u to_u of
        Inr c \<Rightarrow>
          \<lparr>out_result = Some c, out_expression = expression, out_error = None,
           out_status = ''success''\<rparr>
      | Inl e \<Rightarrow>
          \<lparr>out_result = None, out_expression = expression, out_error = Some (error_str e),
           out_status = ''error''\<rparr>)"

text \<open>Two units found together in one category table.\<close>

definition same_category :: "string \<Rightarrow> string \<Rightarrow> bool" where
  "same_category from_u to_u =
     list_ex (\<lambda>(cat, units). from_u \<in> set (dict_keys units) \<and> to_u \<in> set (dict_keys units))
       conversion_factors"

text \<open>\<open>float\<close> on the two texts of the examples, and no number otherwise.\<close>

definition float_of_examples :: "pystr \<Rightarrow> rat option" where
  "float_of_examples s =
     (if s = ascii ''100'' then Some 100 else if s = ascii ''32'' then Some 32 else None)"

section \<open>utils/cache\_manager.py: MemoryCache\<close>

text \<open>
  The three mappings of the memory tier. \<open>time.time()\<close> is an argument of each
  operation: \<open>set\<close> reads the clock once, \<open>get\<close> once for the expiry test and once more
  for the access stamp.
\<close>

record ('k, 'v) MemoryCache =
  max_size :: int
  default_ttl :: int
  cache :: "('k \<times> 'v) list"
  access_times :: "('k \<times> rat) list"
  expiry_times :: "('k \<times> rat) list"

definition MemoryCache_new :: "int \<Rightarrow> int \<Rightarrow> ('k, 'v) MemoryCache" where
  "MemoryCache_new msize ttl =
     \<lparr>max_size = msize, default_ttl = ttl, cache = [], access_times = [], expiry_times = []\<rparr>"

definition cache_delete :: "('k, 'v) MemoryCache \<Rightarrow> 'k \<Rightarrow> bool \<times> ('k, 'v) MemoryCache" where
  "cache_delete c key =
     (if key \<in> set (dict_keys (cache c))
      then (True, c\<lparr>cache := dict_del (cache c) key,
                     access_times := dict_del (access_times c) key,
                     expiry_times := dict_del (expiry_times c) key\<rparr>)
      else (False, c))"

definition is_expired :: "('k, 'v) MemoryCache \<Rightarrow> 'k \<Rightarrow> rat \<Rightarrow> bool" where
  "is_expired c key now =
     (case dict_get (expiry_times c) key of
        None \<Rightarrow> True
      | Some expiry \<Rightarrow> now > expiry)"

text \<open>
  \<open>get\<close>: the value, or \<open>None\<close> for an absent or expired key; an expired entry is
  deleted.
\<close>

definition cache_get ::
  "('k, 'v) MemoryCache \<Rightarrow> 'k \<Rightarrow> rat \<Rightarrow> rat \<Rightarrow> 'v option \<times> ('k, 'v) MemoryCache" where
  "cache_get c key t_check t_access =
     (if key \<notin> set (dict_keys (cache c)) then (None, c)
      else if is_expired c key t_check then (None, snd (cache_delete c key))
      else (dict_get (cache c) key,
            c\<lparr>access_times := dict_set (access_times c) key t_access\<rparr>))"

text \<open>\<open>min(keys, key=...)\<close>: the first key with the least access time.\<close>

fun lru_key :: "'k \<times> rat \<Rightarrow> ('k \<times> rat) list \<Rightarrow> 'k" where
  "lru_key (k, t) [] = k"
| "lru_key (k, t) ((k', t') # rest) =
     (if t' < t then lru_key (k', t') rest else lru_key (k, t) rest)"

definition evict_lru :: "('k, 'v) MemoryCache \<Rightarrow> ('k, 'v) MemoryCache" where
  "evict_lru c =
     (case access_times c of
        [] \<Rightarrow> c
      | first # rest \<Rightarrow> snd (cache_delete c (lru_key first rest)))"

text \<open>
  \<open>set\<close>. \<open>ttl or self.default_ttl\<close> is the default both for \<open>None\<close> and for 0, since 0
  is false.
\<close>

definition ttl_or_default :: "int option \<Rightarrow> int \<Rightarrow> int" where
  "ttl_or_default ttl dflt =
     (case ttl of None \<Rightarrow> dflt | Some t \<Rightarrow> if t = 0 then dflt else t)"

definition cache_set ::
  "('k, 'v) MemoryCache \<Rightarrow> 'k \<Rightarrow> 'v \<Rightarrow> int option \<Rightarrow> rat \<Rightarrow> ('k, 'v) MemoryCache" where
  "cache_set c key v ttl now =
     (let c1 = (if int (length (cache c)) \<ge> max_size c \<and> key \<notin> set (dict_keys (cache c))
                then evict_lru c else c);
          ttl' = ttl_or_default ttl (default_ttl c)
      in c1\<lparr>cache := dict_set (cache c1) key v,
             access_times := dict_set (access_times c1) key now,
             expiry_times := dict_set (expiry_times c1) key (now + of_int ttl')\<rparr>)"

section \<open>data/data\_structures.py: ProcessingRoute\<close>

text \<open>
  A route is a mutable object that refers to two more mutable objects, its stage list
  and its context mapping; two routes may share them. So routes live in a store
  of objects, addressed by position, and a route holds the addresses of its list and
  its mapping. The values of a context mapping are of any type \<open>'v\<close>, references to
  further objects included: \<open>dict.copy()\<close> copies the mapping, not the values. The field
  \<open>context\<close> is \<open>route_context\<close> here.
\<close>

type_synonym addr = nat

record ProcessingRoute =
  stages :: addr
  parallel_execution :: bool
  timeout :: rat
  model_preference :: string
  route_context :: addr

datatype 'v obj =
    RouteObj ProcessingRoute
  | ListObj "string list"
  | DictObj "(string \<times> 'v) list"

type_synonym 'v heap = "'v obj list"

definition alloc :: "'v heap \<Rightarrow> 'v obj \<Rightarrow> addr \<times> 'v heap" where
  "alloc h ob = (length h, h @ [ob])"

definition heap_get :: "'v heap \<Rightarrow> addr \<Rightarrow> 'v obj option" where
  "heap_get h a = (if a < length h then Some (h ! a) else None)"

definition get_route :: "'v heap \<Rightarrow> addr \<Rightarrow> ProcessingRoute option" where
  "get_route h a = (case heap_get h a of Some (RouteObj x) \<Rightarrow> Some x | _ \<Rightarrow> None)"

definition get_list :: "'v heap \<Rightarrow> addr \<Rightarrow> string list option" where
  "get_list h a = (case heap_get h a of Some (ListObj xs) \<Rightarrow> Some xs | _ \<Rightarrow> None)"

definition get_dict :: "'v heap \<Rightarrow> addr \<Rightarrow> (string \<times> 'v) list option" where
  "get_dict h a = (case heap_get h a of Some (DictObj d) \<Rightarrow> Some d | _ \<Rightarrow> None)"

text \<open>
  What a route is to its reader: the stage list, the flag, the timeout, the preference
  and the context mapping. \<open>None\<close> when the address holds no route.
\<close>

definition view ::
  "'v heap \<Rightarrow> addr \<Rightarrow> (string list \<times> bool \<times> rat \<times> string \<times> (string \<times> 'v) list) option" where
  "view h r =
     (case get_route h r of
        None \<Rightarrow> None
      | Some x \<Rightarrow>
          (case get_list h (stages x) of
             None \<Rightarrow> None
           | Some ss \<Rightarrow>
               (case get_dict h (route_context x) of
                  None \<Rightarrow> None
                | Some d \<Rightarrow>
                    Some (ss, parallel_execution x, timeout x, model_preference x, d))))"

text \<open>\<open>ProcessingRoute(stages=..., ...)\<close>: a new route, keeping the list and mapping passed.\<close>

definition new_route ::
  "'v heap \<Rightarrow> string list \<Rightarrow> bool \<Rightarrow> rat \<Rightarrow> string \<Rightarrow> (string \<times> 'v) list \<Rightarrow> addr \<times> 'v heap" where
  "new_route h ss par t pref d =
     (let (a1, h1) = alloc h (ListObj ss);
          (a2, h2) = alloc h1 (DictObj d)
      in alloc h2 (RouteObj \<lparr>stages = a1, parallel_execution = par, timeout = t,
                             model_preference = pref, route_context = a2\<rparr>))"

text \<open>\<open>copy\<close>: \<open>self.stages.copy()\<close> and \<open>self.context.copy()\<close> are new objects.\<close>

definition route_copy :: "'v heap \<Rightarrow> addr \<Rightarrow> (addr \<times> 'v heap) option" where
  "route_copy h r =
     (case get_route h r of
        None \<Rightarrow> None
      | Some x \<Rightarrow>
          (case get_list h (stages x) of
             None \<Rightarrow> None
           | Some ss \<Rightarrow>
               (case get_dict h (route_context x) of
                  None \<Rightarrow> None
                | Some d \<Rightarrow>
                    Some (new_route h ss (parallel_execution x) (timeout x)
                            (model_preference x) d))))"

definition add_stage :: "'v heap \<Rightarrow> addr \<Rightarrow> string \<Rightarrow> 'v heap option" where
  "add_stage h r stage_name =
     (case get_route h r of
        None \<Rightarrow> None
      | Some x \<Rightarrow>
          (case get_list h (stages x) of
             None \<Rightarrow> None
           | Some ss \<Rightarrow>
               Some (if stage_name \<notin> set ss
                     then h[stages x := ListObj (ss @ [stage_name])]
                     else h)))"

definition remove_stage :: "'v heap \<Rightarrow> addr \<Rightarrow> string \<Rightarrow> 'v heap option" where
  "remove_stage h r stage_name =
     (case get_route h r of
        None \<Rightarrow> None
      | Some x \<Rightarrow>
          (case get_list h (stages x) of
             None \<Rightarrow> None
           | Some ss \<Rightarrow>
               Some (if stage_name \<in> set ss
                     then h[stages x := ListObj (remove1 stage_name ss)]
                     else h)))"

definition add_context :: "'v heap \<Rightarrow> addr \<Rightarrow> string \<Rightarrow> 'v \<Rightarrow> 'v heap option" where
  "add_context h r k v =
     (case get_route h r of
        None \<Rightarrow> None
      | Some x \<Rightarrow>
          (case get_dict h (route_context x) of
             None \<Rightarrow> None
           | Some d \<Rightarrow> Some (h[route_context x := DictObj (dict_set d k v)])))"

text \<open>Assignment to a field of the route: \<open>route.timeout = t\<close> and the like.\<close>

definition set_field :: "'v heap \<Rightarrow> addr \<Rightarrow> (ProcessingRoute \<Rightarrow> ProcessingRoute) \<Rightarrow> 'v heap option" where
  "set_field h r f =
     (case get_route h r of
        None \<Rightarrow> None
      | Some x \<Rightarrow> Some (h[r := RouteObj (f x)]))"

text \<open>The operations that change a route, and a run of them on one route.\<close>

datatype 'v route_op =
    AddStage string
  | RemoveStage string
  | AddContext string 'v
  | SetTimeout rat
  | SetParallelExecution bool
  | SetModelPreference string

fun apply_op :: "'v heap \<Rightarrow> addr \<Rightarrow> 'v route_op \<Rightarrow> 'v heap option" where
  "apply_op h r (AddStage s) = add_stage h r s"
| "apply_op h r (RemoveStage s) = remove_stage h r s"
| "apply_op h r (AddContext k v) = add_context h r k v"
| "apply_op h r (SetTimeout t) = set_field h r (\<lambda>x. x\<lparr>timeout := t\<rparr>)"
| "apply_op h r (SetParallelExecution b) = set_field h r (\<lambda>x. x\<lparr>parallel_execution := b\<rparr>)"
| "apply_op h r (SetModelPreference p) = set_field h r (\<lambda>x. x\<lparr>model_preference := p\<rparr>)"

fun apply_ops :: "'v heap \<Rightarrow> addr \<Rightarrow> 'v route_op list \<Rightarrow> 'v heap option" where
  "apply_ops h r [] = Some h"
| "apply_ops h r (op # ops) =
     (case apply_op h r op of None \<Rightarrow> None | Some h' \<Rightarrow> apply_ops h' r ops)"

text \<open>The addresses a route is made of: itself, its stage list and its context mapping.\<close>

definition footprint :: "'v heap \<Rightarrow> addr \<Rightarrow> addr set" where
  "footprint h r =
     (case get_route h r of None \<Rightarrow> {} | Some x \<Rightarrow> {r, stages x, route_context x})"

text \<open>An address that holds a route whose list and mapping are there too.\<close>

definition valid_route :: "'v heap \<Rightarrow> addr \<Rightarrow> bool" where
  "valid_route h r = (view h r \<noteq> None)"

text \<open>A later store that still holds every object of an earlier one, unchanged.\<close>

definition heap_extends :: "'v heap \<Rightarrow> 'v heap \<Rightarrow> bool" where
  "heap_extends h h' = (length h \<le> length h' \<and> take (length h) h' = h)"


section \<open>core/router.py: candidate routes\<close>

text \<open>
  The three variants of \<open>_generate_candidate_routes\<close>: each copies the base route and
  changes the copy.
\<close>

definition create_speed_optimized_route :: "'v heap \<Rightarrow> addr \<Rightarrow> (addr \<times> 'v heap) option" where
  "create_speed_optimized_route h base_route =
     (case route_copy h base_route of
        None \<Rightarrow> None
      | Some (speed_route, h1) \<Rightarrow>
          (case get_route h1 speed_route of
             None \<Rightarrow> None
           | Some x \<Rightarrow>
               map_option (Pair speed_route)
                 (apply_ops h1 speed_route
                    [SetTimeout (min (timeout x) 10), SetModelPreference ''speed'',
                     RemoveStage ''multi_stage_validation''])))"

definition create_quality_optimized_route :: "'v heap \<Rightarrow> addr \<Rightarrow> (addr \<times> 'v heap) option" where
  "create_quality_optimized_route h base_route =
     (case route_copy h base_route of
        None \<Rightarrow> None
      | Some (quality_route, h1) \<Rightarrow>
          map_option (Pair quality_route)
            (apply_ops h1 quality_route
               [SetModelPreference ''quality'', AddStage ''fact_checking'',
                AddStage ''expert_validation'']))"

definition create_resource_efficient_route :: "'v heap \<Rightarrow> addr \<Rightarrow> (addr \<times> 'v heap) option" where
  "create_resource_efficient_route h base_route =
     (case route_copy h base_route of
        None \<Rightarrow> None
      | Some (efficient_route, h1) \<Rightarrow>
          map_option (Pair efficient_route)
            (apply_ops h1 efficient_route
               [SetParallelExecution False, SetModelPreference ''speed'',
                RemoveStage ''multi_source_retrieval'']))"

text \<open>\<open>if wanted: routes.append(variant(base_route))\<close>\<close>

definition add_variant ::
  "bool \<Rightarrow> ('v heap \<Rightarrow> addr \<Rightarrow> (addr \<times> 'v heap) option) \<Rightarrow> addr
     \<Rightarrow> (addr list \<times> 'v heap) option \<Rightarrow> (addr list \<times> 'v heap) option" where
  "add_variant wanted variant base_route acc =
     (case acc of
        None \<Rightarrow> None
      | Some (routes, h) \<Rightarrow>
          (if wanted
           then (case variant h base_route of
                   None \<Rightarrow> None
                 | Some (r, h') \<Rightarrow> Some (routes @ [r], h'))
           else Some (routes, h)))"

text \<open>
  \<open>_generate_candidate_routes\<close> on the template of the recommended strategy. The three
  tests (urgency high, a professional domain, high load) are arguments.
\<close>

definition generate_candidate_routes ::
  "'v heap \<Rightarrow> addr \<Rightarrow> bool \<Rightarrow> bool \<Rightarrow> bool \<Rightarrow> (addr list \<times> 'v heap) option" where
  "generate_candidate_routes h template urgent professional high_load =
     (case route_copy h template of
        None \<Rightarrow> None
      | Some (base_route, h1) \<Rightarrow>
          add_variant high_load create_resource_efficient_route base_route
            (add_variant professional create_quality_optimized_route base_route
               (add_variant urgent create_speed_optimized_route base_route
                  (Some ([base_route], h1)))))"

text \<open>
  A variant keeps the old routes when, on a valid base route, it returns a new valid
  route in a store that extends the old one.
\<close>

definition keeps_old_routes ::
  "('v heap \<Rightarrow> addr \<Rightarrow> (addr \<times> 'v heap) option) \<Rightarrow> bool" where
  "keeps_old_routes variant =
     (\<forall>h base. valid_route h base \<longrightarrow>
        (\<exists>c h'. variant h base = Some (c, h') \<and> length h \<le> c \<and> heap_extends h h' \<and>
           valid_route h' c))"

text \<open>
  The candidate list while it is built: the base route is valid, the store extends the
  one the router started from, and every candidate is a valid route created since.
\<close>

definition candidates_ok :: "'v heap \<Rightarrow> addr \<Rightarrow> (addr list \<times> 'v heap) option \<Rightarrow> bool" where
  "candidates_ok h base acc =
     (case acc of
        None \<Rightarrow> False
      | Some (routes, h') \<Rightarrow>
          valid_route h' base \<and> heap_extends h h' \<and>
          list_all (\<lambda>r. length h \<le> r \<and> valid_route h' r) routes)"

text \<open>
  The \<open>comprehensive\<close> template of \<open>_initialize_route_templates\<close>, alone in a store: its
  stage list at address 0, its empty context at 1 and the route at 2.
\<close>

definition comprehensive_template :: "addr \<times> pyval heap" where
  "comprehensive_template =
     new_route []
       [''preprocessing'', ''multi_source_retrieval'', ''tool_orchestration'',
        ''advanced_reasoning'', ''multi_stage_validation'']
       True 30 ''quality'' []"

section \<open>tools/tool\_orchestrator.py: the execution plan\<close>

text \<open>The names of the tools that \<open>ToolRegistry\<close> registers.\<close>

definition default_tools :: "string list" where
  "default_tools = [''web_search'', ''rag_retrieval'', ''calculator'', ''translator'']"

text \<open>\<open>ToolDependencyAnalyzer\<close>: the two fixed tables.\<close>

definition dependency_rules :: "(string \<times> string list) list" where
  "dependency_rules =
     [(''calculator'', [''web_search'', ''rag_retrieval'']),
      (''data_analyzer'', [''web_search'', ''rag_retrieval'', ''file_manager'']),
      (''code_executor'', [''rag_retrieval'']),
      (''translator'', []),
      (''web_search'', []),
      (''rag_retrieval'', [])]"

definition analyze_input_dependencies :: "string \<Rightarrow> string list" where
  "analyze_input_dependencies tool = dict_get_default dependency_rules tool []"

definition output_rules :: "(string \<times> string list) list" where
  "output_rules =
     [(''web_search'', [''calculator'', ''data_analyzer'']),
      (''rag_retrieval'', [''calculator'', ''data_analyzer'', ''code_executor'']),
      (''calculator'', []),
      (''translator'', []),
      (''data_analyzer'', []),
      (''code_executor'', [])]"

definition analyze_output_dependencies :: "string \<Rightarrow> string list \<Rightarrow> string list" where
  "analyze_output_dependencies tool tool_requirements =
     (let other_tools = filter (\<lambda>n. n \<noteq> tool) tool_requirements
      in filter (\<lambda>n. n \<in> set other_tools) (dict_get_default output_rules tool []))"

text \<open>
  \<open>ToolDependencyGraph\<close>. A node's tool object is given by its name, the key of the
  node.
\<close>

record tool_node =
  input_deps :: "string list"
  output_deps :: "string list"
  node_status :: string

record ToolDependencyGraph =
  nodes :: "(string \<times> tool_node) list"
  edges :: "(string \<times> string list) list"

definition add_tool ::
  "ToolDependencyGraph \<Rightarrow> string \<Rightarrow> string list \<Rightarrow> string list \<Rightarrow> ToolDependencyGraph" where
  "add_tool g tool ins outs =
     g\<lparr>nodes := dict_set (nodes g) tool
                  \<lparr>input_deps = ins, output_deps = outs, node_status = ''pending''\<rparr>,
       edges := dict_set (edges g) tool outs\<rparr>"

text \<open>The node that \<open>add_tool\<close> stores for a tool.\<close>

definition node_of :: "string \<Rightarrow> string list \<Rightarrow> tool_node" where
  "node_of tool all_reqs =
     \<lparr>input_deps = analyze_input_dependencies tool,
      output_deps = analyze_output_dependencies tool all_reqs, node_status = ''pending''\<rparr>"

text \<open>
  \<open>analyze_tool_dependencies\<close>: the requirements are given by their tool names, in
  order; a name the registry does not know is skipped.
\<close>

fun add_requirements ::
  "string list \<Rightarrow> string list \<Rightarrow> string list \<Rightarrow> ToolDependencyGraph \<Rightarrow> ToolDependencyGraph" where
  "add_requirements registry all_reqs [] g = g"
| "add_requirements registry all_reqs (tool # rest) g =
     add_requirements registry all_reqs rest
       (if tool \<in> set registry
        then add_tool g tool (analyze_input_dependencies tool)
               (analyze_output_dependencies tool all_reqs)
        else g)"

definition analyze_tool_dependencies :: "string list \<Rightarrow> string list \<Rightarrow> ToolDependencyGraph" where
  "analyze_tool_dependencies registry tool_requirements =
     add_requirements registry tool_requirements tool_requirements \<lparr>nodes = [], edges = []\<rparr>"

text \<open>
  \<open>topological_sort\<close>. One step of the inner loop deletes a ready tool from
  \<open>temp_graph\<close> and removes it from the dependency lists of the others.
\<close>

definition remove_ready ::
  "string \<Rightarrow> (string \<times> string list) list \<Rightarrow> (string \<times> string list) list" where
  "remove_ready tool tg =
     map (\<lambda>(n, deps). (n, if tool \<in> set deps then remove1 tool deps else deps))
       (dict_del tg tool)"

definition ready_tools :: "(string \<times> string list) list \<Rightarrow> string list" where
  "ready_tools tg = map fst (filter (\<lambda>(n, deps). deps = []) tg)"

lemma length_remove_ready: "length (remove_ready t tg) \<le> length tg"
  by (simp add: remove_ready_def dict_del_def)

lemma length_remove_ready_key:
  "t \<in> set (dict_keys tg) \<Longrightarrow> length (remove_ready t tg) < length tg"
proof -
  assume "t \<in> set (dict_keys tg)"
  then obtain d where "(t, d) \<in> set tg" by (auto simp: dict_keys_def)
  then have "length (filter (\<lambda>(k', v'). k' \<noteq> t) tg) < length tg"
    by (rule length_filter_less) simp
  then show ?thesis by (simp add: remove_ready_def dict_del_def)
qed

lemma length_fold_remove_ready: "length (fold remove_ready ts tg) \<le> length tg"
proof (induction ts arbitrary: tg)
  case Nil
  show ?case by simp
next
  case (Cons t ts)
  have "length (fold remove_ready ts (remove_ready t tg)) \<le> length (remove_ready t tg)"
    by (rule Cons.IH)
  also have "\<dots> \<le> length tg" by (rule length_remove_ready)
  finally show ?case by simp
qed

lemma ready_tools_keys: "set (ready_tools tg) \<subseteq> set (dict_keys tg)"
  by (auto simp: ready_tools_def dict_keys_def)

lemma length_fold_ready:
  assumes "ready_tools tg \<noteq> []"
  shows "length (fold remove_ready (ready_tools tg) tg) < length tg"
proof -
  from assms obtain t ts where r: "ready_tools tg = t # ts" by (cases "ready_tools tg") auto
  with ready_tools_keys [of tg] have "t \<in> set (dict_keys tg)" by auto
  then have "length (remove_ready t tg) < length tg" by (rule length_remove_ready_key)
  with length_fold_remove_ready [of ts "remove_ready t tg"] r show ?thesis by simp
qed

function topo_loop :: "string list \<Rightarrow> (string \<times> string list) list \<Rightarrow> string list" where
  "topo_loop res tg =
     (if tg = [] then res
      else if ready_tools tg = [] then res @ dict_keys tg
      else topo_loop (res @ ready_tools tg) (fold remove_ready (ready_tools tg) tg))"
  by pat_completeness auto
termination
  by (relation "measure (\<lambda>(res, tg). length tg)") (simp_all add: length_fold_ready)

declare topo_loop.simps [simp del]

definition topological_sort :: "ToolDependencyGraph \<Rightarrow> string list" where
  "topological_sort g =
     topo_loop [] (map (\<lambda>(name, node). (name, input_deps node)) (nodes g))"

text \<open>
  \<open>_identify_parallel_groups\<close>. A tool joins the current group when none of its input
  dependencies is still among the remaining tools and the group has fewer than
  \<open>max_parallel_tools\<close> members; \<open>remaining_tools\<close> does not change during the scan.
\<close>

definition max_parallel_tools :: nat where
  "max_parallel_tools = 3"

definition dependencies_satisfied ::
  "(string \<times> tool_node) list \<Rightarrow> string list \<Rightarrow> string \<Rightarrow> bool" where
  "dependencies_satisfied nd remaining tool =
     (case dict_get nd tool of
        None \<Rightarrow> False
      | Some node \<Rightarrow> list_all (\<lambda>dep. dep \<notin> set remaining) (input_deps node))"

fun scan_group ::
  "(string \<times> tool_node) list \<Rightarrow> string list \<Rightarrow> string list \<Rightarrow> string list \<Rightarrow> string list" where
  "scan_group nd remaining [] current_group = current_group"
| "scan_group nd remaining (tool # rest) current_group =
     (if dependencies_satisfied nd remaining tool \<and> length current_group < max_parallel_tools
      then scan_group nd remaining rest (current_group @ [tool])
      else scan_group nd remaining rest current_group)"

definition next_group :: "(string \<times> tool_node) list \<Rightarrow> string list \<Rightarrow> string list" where
  "next_group nd remaining =
     (let current_group = scan_group nd remaining remaining []
      in case remaining of
           [] \<Rightarrow> current_group
         | first # rest \<Rightarrow> if current_group = [] then [first] else current_group)"

lemma scan_group_subset:
  "set (scan_group nd remaining ts acc) \<subseteq> set acc \<union> set ts"
proof (induction ts arbitrary: acc)
  case Nil
  show ?case by simp
next
  case (Cons t ts)
  show ?case
  proof (cases "dependencies_satisfied nd remaining t \<and> length acc < max_parallel_tools")
    case True
    with Cons.IH [of "acc @ [t]"] show ?thesis by auto
  next
    case False
    with Cons.IH [of acc] show ?thesis by auto
  qed
qed

lemma scan_group_prefix:
  "\<exists>more. scan_group nd remaining ts acc = acc @ more"
proof (induction ts arbitrary: acc)
  case Nil
  show ?case by simp
next
  case (Cons t ts)
  show ?case
  proof (cases "dependencies_satisfied nd remaining t \<and> length acc < max_parallel_tools")
    case True
    from Cons.IH [of "acc @ [t]"] obtain more where
      "scan_group nd remaining ts (acc @ [t]) = (acc @ [t]) @ more" by blast
    with True show ?thesis by simp
  next
    case False
    with Cons.IH [of acc] show ?thesis by auto
  qed
qed

lemma next_group_nonempty: "remaining \<noteq> [] \<Longrightarrow> next_group nd remaining \<noteq> []"
  by (cases remaining) (auto simp: next_group_def Let_def)

lemma next_group_subset: "set (next_group nd remaining) \<subseteq> set remaining"
  using scan_group_subset [of nd remaining remaining "[]"]
  by (cases remaining) (auto simp: next_group_def Let_def)

lemma length_remove1_le: "length (remove1 t xs) \<le> length xs"
  by (induction xs) auto

lemma length_fold_remove1: "length (fold remove1 ts xs) \<le> length xs"
proof (induction ts arbitrary: xs)
  case Nil
  show ?case by simp
next
  case (Cons t ts)
  have "length (fold remove1 ts (remove1 t xs)) \<le> length (remove1 t xs)" by (rule Cons.IH)
  also have "\<dots> \<le> length xs" by (rule length_remove1_le)
  finally show ?case by simp
qed

lemma length_fold_next_group:
  assumes "remaining \<noteq> []"
  shows "length (fold remove1 (next_group nd remaining) remaining) < length remaining"
proof -
  from next_group_nonempty [OF assms] obtain t ts where
    g: "next_group nd remaining = t # ts" by (cases "next_group nd remaining") auto
  with next_group_subset [of nd remaining] have "t \<in> set remaining" by auto
  then have "length (remove1 t remaining) < length remaining"
    by (simp add: length_remove1 assms)
  with length_fold_remove1 [of ts "remove1 t remaining"] g show ?thesis by simp
qed

function groups_loop :: "(string \<times> tool_node) list \<Rightarrow> string list \<Rightarrow> string list list" where
  "groups_loop nd remaining =
     (if remaining = [] then []
      else
        (let current_group = next_group nd remaining;
             remaining' = fold remove1 current_group remaining
         in (if current_group \<noteq> [] then [current_group] else []) @ groups_loop nd remaining'))"
  by pat_completeness auto
termination
  by (relation "measure (\<lambda>(nd, remaining). length remaining)")
     (simp_all add: length_fold_next_group)

declare groups_loop.simps [simp del]

text \<open>
  \<open>tool_graph.nodes[tool_name]\<close> raises \<open>KeyError\<close> for a name that is no node; the first
  scan looks every tool of the order up.
\<close>

definition identify_parallel_groups ::
  "string list \<Rightarrow> ToolDependencyGraph \<Rightarrow> py_error + string list list" where
  "identify_parallel_groups execution_order g =
     (case find (\<lambda>t. dict_get (nodes g) t = None) execution_order of
        Some t \<Rightarrow> Inl (KeyError (ascii t))
      | None \<Rightarrow> Inr (groups_loop (nodes g) execution_order))"

text \<open>
  \<open>generate_execution_plan\<close>: one stage per group, one task per tool. A task is given by
  its tool name; its parameters are built from the question and are left out.
\<close>

definition generate_execution_plan :: "ToolDependencyGraph \<Rightarrow> py_error + string list list" where
  "generate_execution_plan g = identify_parallel_groups (topological_sort g) g"

text \<open>The position of the stage that holds a tool.\<close>

fun stage_index :: "string \<Rightarrow> string list list \<Rightarrow> nat option" where
  "stage_index tool [] = None"
| "stage_index tool (stage # rest) =
     (if tool \<in> set stage then Some 0 else map_option Suc (stage_index tool rest))"

section \<open>Facts about dictionaries\<close>

lemma dict_set_nonempty: "dict_set d k v \<noteq> []"
  by (cases d) (auto split: if_splits)

lemma dict_get_set_same: "dict_get (dict_set d k v) k = Some v"
  by (induction d) auto

lemma dict_get_set_other: "k' \<noteq> k \<Longrightarrow> dict_get (dict_set d k v) k' = dict_get d k'"
  by (induction d) auto

lemma dict_keys_set:
  "set (map fst (dict_set d k v)) = insert k (set (map fst d))"
proof (induction d)
  case Nil
  show ?case by simp
next
  case (Cons p d)
  obtain k' v' where p: "p = (k', v')" by (cases p)
  show ?case
  proof (cases "k' = k")
    case True
    with p show ?thesis by simp
  next
    case False
    with p Cons.IH show ?thesis by (simp add: insert_commute)
  qed
qed

lemma dict_set_distinct:
  "distinct (map fst d) \<Longrightarrow> distinct (map fst (dict_set d k v))"
proof (induction d)
  case Nil
  then show ?case by simp
next
  case (Cons p d)
  obtain k' v' where p: "p = (k', v')" by (cases p)
  show ?case
  proof (cases "k' = k")
    case True
    with Cons.prems p show ?thesis by simp
  next
    case False
    have "set (map fst (dict_set d k v)) = insert k (set (map fst d))"
      by (rule dict_keys_set)
    with False Cons p show ?thesis by auto
  qed
qed

lemma dict_set_values_bounded:
  "list_all P (map snd d) \<Longrightarrow> P v \<Longrightarrow> list_all P (map snd (dict_set d k v))"
  by (induction d) auto

lemma dict_get_in_set:
  "distinct (map fst d) \<Longrightarrow> (dict_get d k = Some v) = ((k, v) \<in> set d)"
proof (induction d)
  case Nil
  show ?case by simp
next
  case (Cons p d)
  obtain k' v' where p: "p = (k', v')" by (cases p)
  from Cons.prems p have notin: "k' \<notin> fst ` set d" and dist: "distinct (map fst d)"
    by simp_all
  show ?case
  proof (cases "k' = k")
    case True
    have "(k, v) \<notin> set d" using notin True by force
    with True p show ?thesis by auto
  next
    case False
    with p Cons.IH [OF dist] show ?thesis by auto
  qed
qed

lemma dict_get_None_iff: "(dict_get d k = None) = (k \<notin> set (dict_keys d))"
proof (induction d)
  case Nil
  show ?case by (simp add: dict_keys_def)
next
  case (Cons p d)
  obtain k' v' where p: "p = (k', v')" by (cases p)
  with Cons.IH show ?case by (cases "k' = k") (simp_all add: dict_keys_def)
qed

lemma dict_set_length: "length (dict_set d k v) \<le> Suc (length d)"
  by (induction d) auto

section \<open>ValidationResult: recorded scores and their exact mean\<close>

lemma add_check_checks:
  "checks (add_check vr n s) = dict_set (checks vr) n (max 0 (min 1 s))"
  by (simp add: add_check_def recalculate_overall_score_def Let_def)

lemma add_check_overall_score:
  "overall_score (add_check vr n s) =
     sum_list (map snd (checks (add_check vr n s))) / of_nat (length (checks (add_check vr n s)))"
  by (simp add: add_check_def recalculate_overall_score_def Let_def dict_set_nonempty
      dict_values_def)

lemma sum_list_unit_bounds:
  fixes xs :: "rat list"
  shows "list_all (\<lambda>s. 0 \<le> s \<and> s \<le> 1) xs \<Longrightarrow> 0 \<le> sum_list xs \<and> sum_list xs \<le> of_nat (length xs)"
  by (induction xs) auto

lemma mean_unit_bounds:
  fixes xs :: "rat list"
  assumes "list_all (\<lambda>s. 0 \<le> s \<and> s \<le> 1) xs" and "xs \<noteq> []"
  shows "0 \<le> sum_list xs / of_nat (length xs) \<and> sum_list xs / of_nat (length xs) \<le> 1"
proof -
  from assms(2) have pos: "(0::rat) < of_nat (length xs)" by simp
  from sum_list_unit_bounds [OF assms(1)]
  have lo: "0 \<le> sum_list xs" and hi: "sum_list xs \<le> of_nat (length xs)" by simp_all
  from lo pos have "0 \<le> sum_list xs / of_nat (length xs)" by simp
  moreover from hi pos have "sum_list xs / of_nat (length xs) \<le> 1"
    by (simp add: divide_le_eq)
  ultimately show ?thesis by simp
qed

lemma recorded_ok_new: "recorded_ok ValidationResult_new"
  by (simp add: recorded_ok_def ValidationResult_new_def)

lemma recorded_ok_add_check:
  assumes "recorded_ok vr"
  shows "recorded_ok (add_check vr n s)"
proof -
  let ?c = "max 0 (min 1 s)"
  let ?d = "dict_set (checks vr) n ?c"
  have c: "0 \<le> ?c \<and> ?c \<le> 1" by simp
  from assms have d: "distinct (map fst ?d)"
    by (simp add: recorded_ok_def dict_set_distinct)
  from assms c have b: "list_all (\<lambda>s. 0 \<le> s \<and> s \<le> 1) (map snd ?d)"
    unfolding recorded_ok_def by (intro dict_set_values_bounded) simp_all
  have ne: "map snd ?d \<noteq> []" by (simp add: dict_set_nonempty)
  from mean_unit_bounds [OF b ne]
  have m: "0 \<le> sum_list (map snd ?d) / of_nat (length ?d) \<and>
           sum_list (map snd ?d) / of_nat (length ?d) \<le> 1" by simp
  have "overall_score (add_check vr n s) = sum_list (map snd ?d) / of_nat (length ?d)"
    by (simp add: add_check_overall_score add_check_checks)
  with d b m show ?thesis
    by (simp add: recorded_ok_def add_check_checks)
qed

lemma recorded_ok_add_checks:
  "recorded_ok vr \<Longrightarrow> recorded_ok (add_checks vr cs)"
  by (induction vr cs rule: add_checks.induct) (simp_all add: recorded_ok_add_check)

section \<open>Rounding to double precision\<close>

lemma pow2_powi: "pow2 k = 2 powi k"
  by (simp add: pow2_def power_int_def inverse_eq_divide power_one_over)

lemma pow2_pos: "0 < pow2 k"
  by (simp add: pow2_powi)

lemma pow2_add: "pow2 (a + b) = pow2 a * pow2 b"
  by (simp add: pow2_powi power_int_add)

lemma pow2_mono: "a \<le> b \<Longrightarrow> pow2 a \<le> pow2 b"
  by (simp add: pow2_powi power_int_increasing)

lemma pow2_less_imp: "pow2 a < pow2 b \<Longrightarrow> a < b"
  using pow2_mono [of b a] by (cases "a < b") simp_all

lemma pow2_nat: "0 \<le> k \<Longrightarrow> pow2 k = 2 ^ nat k"
  by (simp add: pow2_def)

lemma bit_length_nonneg: "0 \<le> bit_length n"
proof (induction n rule: bit_length.induct)
  case (1 n)
  then show ?case by (subst bit_length.simps) simp
qed

lemma bit_length_bounds:
  "0 < n \<Longrightarrow> 0 < bit_length n \<and> 2 ^ nat (bit_length n - 1) \<le> n \<and> n < 2 ^ nat (bit_length n)"
proof (induction n rule: bit_length.induct)
  case (1 n)
  show ?case
  proof (cases "n = 1")
    case True
    have "bit_length 1 = 1" by (simp add: bit_length.simps)
    with True show ?thesis by simp
  next
    case False
    with "1.prems" have n2: "2 \<le> n" by simp
    then have h: "0 < n div 2" by simp
    from n2 have nn: "\<not> n \<le> 0" by simp
    from "1.IH" [OF nn h] have ih: "0 < bit_length (n div 2)"
      "2 ^ nat (bit_length (n div 2) - 1) \<le> n div 2"
      "n div 2 < 2 ^ nat (bit_length (n div 2))" by simp_all
    have bl: "bit_length n = 1 + bit_length (n div 2)"
      using nn by (subst bit_length.simps) simp
    have p: "(2::int) ^ nat (bit_length (n div 2)) = 2 * 2 ^ nat (bit_length (n div 2) - 1)"
      using ih(1) by (metis Suc_nat_eq_nat_zadd1 add.commute diff_add_cancel diff_ge_0_iff_ge
          int_one_le_iff_zero_less power_Suc)
    have lo: "2 ^ nat (bit_length n - 1) \<le> n"
      using ih(2) p bl by simp linarith
    have "n < 2 * (n div 2) + 2" by linarith
    also have "\<dots> \<le> 2 * 2 ^ nat (bit_length (n div 2))" using ih(3) by simp
    also have "\<dots> = 2 ^ nat (bit_length n)"
      using bl ih(1) by (simp add: nat_add_distrib)
    finally have hi: "n < 2 ^ nat (bit_length n)" .
    from bl ih(1) lo hi show ?thesis by simp
  qed
qed


lemma pow2_diff: "pow2 (a - b) = pow2 a / pow2 b"
proof -
  have "pow2 a = pow2 (a - b) * pow2 b" using pow2_add [of "a - b" b] by simp
  then show ?thesis using pow2_pos [of b] by simp
qed

lemma exponent_of_bounds:
  assumes "x \<noteq> 0"
  shows "pow2 (exponent_of x) \<le> \<bar>x\<bar> \<and> \<bar>x\<bar> < pow2 (exponent_of x + 1)"
proof -
  obtain a b where q: "quotient_of \<bar>x\<bar> = (a, b)" by (cases "quotient_of \<bar>x\<bar>")
  from quotient_of_denom_pos [OF q] have b: "0 < b" .
  from quotient_of_div [OF q] have x: "\<bar>x\<bar> = of_int a / of_int b" .
  from assms have xp: "0 < \<bar>x\<bar>" by simp
  with x b have a: "0 < a" by (simp add: zero_less_divide_iff)
  let ?la = "bit_length a" and ?lb = "bit_length b"
  let ?k = "?la - ?lb"
  note ba = bit_length_bounds [OF a] and bb = bit_length_bounds [OF b]
  have a_lo: "pow2 (?la - 1) \<le> of_int a"
  proof -
    from ba have "(2::int) ^ nat (?la - 1) \<le> a" by simp
    then have "(of_int (2 ^ nat (?la - 1)) :: rat) \<le> of_int a" by (simp only: of_int_le_iff)
    with ba show ?thesis by (simp add: pow2_nat)
  qed
  have a_hi: "of_int a < pow2 ?la"
  proof -
    from ba have "a < (2::int) ^ nat ?la" by simp
    then have "(of_int a :: rat) < of_int (2 ^ nat ?la)" by (simp only: of_int_less_iff)
    with ba show ?thesis by (simp add: pow2_nat)
  qed
  have b_lo: "pow2 (?lb - 1) \<le> of_int b"
  proof -
    from bb have "(2::int) ^ nat (?lb - 1) \<le> b" by simp
    then have "(of_int (2 ^ nat (?lb - 1)) :: rat) \<le> of_int b" by (simp only: of_int_le_iff)
    with bb show ?thesis by (simp add: pow2_nat)
  qed
  have b_hi: "of_int b < pow2 ?lb"
  proof -
    from bb have "b < (2::int) ^ nat ?lb" by simp
    then have "(of_int b :: rat) < of_int (2 ^ nat ?lb)" by (simp only: of_int_less_iff)
    with bb show ?thesis by (simp add: pow2_nat)
  qed
  have bq: "(0::rat) < of_int b" using b by simp
  have hi: "\<bar>x\<bar> < pow2 (?k + 1)"
  proof -
    have "\<bar>x\<bar> < pow2 ?la / of_int b" unfolding x using a_hi bq by (simp add: divide_strict_right_mono)
    also have "\<dots> \<le> pow2 ?la / pow2 (?lb - 1)"
      using b_lo pow2_pos [of "?lb - 1"] pow2_pos [of ?la]
      by (intro divide_left_mono) (simp_all add: bq)
    also have "\<dots> = pow2 (?k + 1)" using pow2_diff [of ?la "?lb - 1"] by (simp add: algebra_simps)
    finally show ?thesis .
  qed
  have lo: "pow2 (?k - 1) < \<bar>x\<bar>"
  proof -
    have "pow2 (?k - 1) = pow2 (?la - 1) / pow2 ?lb"
      using pow2_diff [of "?la - 1" ?lb] by (simp add: algebra_simps)
    also have "\<dots> < pow2 (?la - 1) / of_int b"
      using b_hi bq pow2_pos [of "?la - 1"] by (intro divide_strict_left_mono) simp_all
    also have "\<dots> \<le> \<bar>x\<bar>" unfolding x using a_lo bq by (simp add: divide_right_mono)
    finally show ?thesis .
  qed
  have e: "exponent_of x = (if pow2 ?k \<le> \<bar>x\<bar> then ?k else ?k - 1)"
    by (simp add: exponent_of_def q Let_def)
  show ?thesis
  proof (cases "pow2 ?k \<le> \<bar>x\<bar>")
    case True
    with e hi show ?thesis by simp
  next
    case False
    with e lo show ?thesis by simp
  qed
qed

lemma round_half_even_near: "\<bar>of_int (round_half_even m) - m\<bar> \<le> 1 / 2"
  unfolding round_half_even_def Let_def by (auto simp: abs_if) linarith+

lemma round_half_even_int: "round_half_even (of_int i) = i"
  by (simp add: round_half_even_def Let_def)

lemma round_half_even_mono:
  assumes "m \<le> m'"
  shows "round_half_even m \<le> round_half_even m'"
proof -
  from assms have f: "\<lfloor>m\<rfloor> \<le> \<lfloor>m'\<rfloor>" by (rule floor_mono)
  show ?thesis
  proof (cases "\<lfloor>m\<rfloor> = \<lfloor>m'\<rfloor>")
    case True
    with assms show ?thesis by (auto simp: round_half_even_def Let_def)
  next
    case False
    with f have "\<lfloor>m\<rfloor> + 1 \<le> \<lfloor>m'\<rfloor>" by simp
    moreover have "round_half_even m \<le> \<lfloor>m\<rfloor> + 1" by (simp add: round_half_even_def Let_def)
    moreover have "\<lfloor>m'\<rfloor> \<le> round_half_even m'" by (simp add: round_half_even_def Let_def)
    ultimately show ?thesis by linarith
  qed
qed


lemma round_double_spacing:
  "x \<noteq> 0 \<Longrightarrow> round_double x = of_int (round_half_even (x / spacing x)) * spacing x"
  by (simp add: round_double_def spacing_def Let_def)

lemma spacing_pos: "0 < spacing x"
  by (simp add: spacing_def pow2_pos)

lemma round_double_nonneg:
  assumes "0 \<le> x"
  shows "0 \<le> round_double x"
proof (cases "x = 0")
  case True
  then show ?thesis by (simp add: round_double_def)
next
  case False
  from assms spacing_pos [of x] have "0 \<le> x / spacing x" by simp
  from round_half_even_mono [OF this] have "0 \<le> round_half_even (x / spacing x)"
    using round_half_even_int [of 0] by simp
  with spacing_pos [of x] show ?thesis
    by (simp add: round_double_spacing [OF False])
qed

lemma pow2_53: "pow2 53 = of_int (2 ^ 53)"
  by (simp add: pow2_def)

lemma pow2_52: "pow2 52 = of_int (2 ^ 52)"
  by (simp add: pow2_def)

lemma round_double_upper:
  assumes "0 < x"
  shows "round_double x \<le> pow2 (max (exponent_of x) (- 1022) + 1)"
proof -
  let ?e = "max (exponent_of x) (- 1022)"
  from assms have nz: "x \<noteq> 0" by simp
  from exponent_of_bounds [OF nz] assms have "x < pow2 (exponent_of x + 1)" by simp
  also have "\<dots> \<le> pow2 (?e + 1)" by (rule pow2_mono) simp
  finally have "x \<le> pow2 (?e + 1)" by simp
  then have "x / spacing x \<le> pow2 (?e + 1) / spacing x"
    using spacing_pos [of x] by (simp add: divide_right_mono)
  also have "\<dots> = pow2 53"
    unfolding spacing_def using pow2_diff [of "?e + 1" "?e - 52"] by simp
  finally have "x / spacing x \<le> of_int (2 ^ 53)" by (simp only: pow2_53)
  from round_half_even_mono [OF this]
  have "round_half_even (x / spacing x) \<le> 2 ^ 53" by (simp only: round_half_even_int)
  then have "(of_int (round_half_even (x / spacing x)) :: rat) \<le> of_int (2 ^ 53)"
    by (simp only: of_int_le_iff)
  then have "of_int (round_half_even (x / spacing x)) * spacing x \<le> pow2 53 * spacing x"
    using spacing_pos [of x] by (simp only: pow2_53 mult_le_cancel_right_pos)
  also have "\<dots> = pow2 (?e + 1)"
    unfolding spacing_def using pow2_add [of 53 "?e - 52"] by (simp add: algebra_simps)
  finally show ?thesis by (simp only: round_double_spacing [OF nz])
qed

lemma round_double_lower:
  assumes "0 < x" and "- 1022 \<le> exponent_of x"
  shows "pow2 (exponent_of x) \<le> round_double x"
proof -
  let ?e = "exponent_of x"
  from assms have nz: "x \<noteq> 0" by simp
  from assms(2) have sp: "spacing x = pow2 (?e - 52)" by (simp add: spacing_def max_def)
  from exponent_of_bounds [OF nz] assms have "pow2 ?e \<le> x" by simp
  then have "pow2 ?e / spacing x \<le> x / spacing x"
    using spacing_pos [of x] by (simp add: divide_right_mono)
  moreover have "pow2 ?e / spacing x = pow2 52"
    unfolding sp using pow2_diff [of ?e "?e - 52"] by simp
  ultimately have "of_int (2 ^ 52) \<le> x / spacing x" by (simp only: pow2_52)
  from round_half_even_mono [OF this]
  have "2 ^ 52 \<le> round_half_even (x / spacing x)" by (simp only: round_half_even_int)
  then have "(of_int (2 ^ 52) :: rat) \<le> of_int (round_half_even (x / spacing x))"
    by (simp only: of_int_le_iff)
  then have "pow2 52 * spacing x \<le> of_int (round_half_even (x / spacing x)) * spacing x"
    using spacing_pos [of x] by (simp only: pow2_52 mult_le_cancel_right_pos)
  moreover have "pow2 52 * spacing x = pow2 ?e"
    unfolding sp using pow2_add [of 52 "?e - 52"] by simp
  ultimately show ?thesis by (simp only: round_double_spacing [OF nz])
qed

lemma exponent_of_mono:
  assumes "0 < x" and "x \<le> y"
  shows "exponent_of x \<le> exponent_of y"
proof -
  from assms have nx: "x \<noteq> 0" and ny: "y \<noteq> 0" by simp_all
  from exponent_of_bounds [OF nx] assms have "pow2 (exponent_of x) \<le> x" by simp
  also note assms(2)
  also from exponent_of_bounds [OF ny] assms have "y < pow2 (exponent_of y + 1)" by simp
  finally have "exponent_of x < exponent_of y + 1" by (rule pow2_less_imp)
  then show ?thesis by simp
qed

lemma round_double_mono:
  assumes "0 \<le> x" and "x \<le> y"
  shows "round_double x \<le> round_double y"
proof (cases "x = 0")
  case True
  from assms have "0 \<le> y" by simp
  from round_double_nonneg [OF this] True show ?thesis by (simp add: round_double_def)
next
  case False
  with assms have xp: "0 < x" and yp: "0 < y" by simp_all
  then have nx: "x \<noteq> 0" and ny: "y \<noteq> 0" by simp_all
  let ?ex = "max (exponent_of x) (- 1022)" and ?ey = "max (exponent_of y) (- 1022)"
  from exponent_of_mono [OF xp assms(2)] have le: "?ex \<le> ?ey" by simp
  show ?thesis
  proof (cases "?ex = ?ey")
    case True
    then have sp: "spacing x = spacing y" by (simp only: spacing_def)
    from assms(2) spacing_pos [of y] have "x / spacing y \<le> y / spacing y"
      by (simp add: divide_right_mono)
    from round_half_even_mono [OF this]
    have "(of_int (round_half_even (x / spacing y)) :: rat) \<le>
          of_int (round_half_even (y / spacing y))" by (simp only: of_int_le_iff)
    with spacing_pos [of y] show ?thesis
      by (simp only: round_double_spacing [OF nx] round_double_spacing [OF ny] sp
          mult_le_cancel_right_pos)
  next
    case False
    with le have lt: "?ex + 1 \<le> ?ey" by simp
    then have ey: "- 1022 \<le> exponent_of y" and eq: "?ey = exponent_of y" by simp_all
    have "round_double x \<le> pow2 (?ex + 1)" by (rule round_double_upper [OF xp])
    also have "\<dots> \<le> pow2 (exponent_of y)" using lt eq by (intro pow2_mono) simp
    also have "\<dots> \<le> round_double y" by (rule round_double_lower [OF yp ey])
    finally show ?thesis .
  qed
qed

lemma round_double_exact:
  assumes "x / spacing x = of_int i"
  shows "round_double x = x"
proof (cases "x = 0")
  case True
  then show ?thesis by (simp add: round_double_def)
next
  case False
  from assms spacing_pos [of x] have "x = of_int i * spacing x" by (simp add: field_simps)
  then show ?thesis
    using round_double_spacing [OF False] by (simp only: assms round_half_even_int)
qed

lemma round_double_of_nat:
  assumes "n \<le> 2 ^ 53"
  shows "round_double (of_nat n) = of_nat n"
proof (cases "n = 0")
  case True
  then show ?thesis by (simp add: round_double_def)
next
  case False
  let ?x = "of_nat n :: rat"
  let ?e = "exponent_of ?x"
  from False have xp: "0 < ?x" and nz: "?x \<noteq> 0" and x1: "1 \<le> ?x" by simp_all
  note eb = exponent_of_bounds [OF nz]
  have "pow2 0 \<le> ?x" using x1 by (simp add: pow2_def)
  also from eb xp have "?x < pow2 (?e + 1)" by simp
  finally have e0: "0 \<le> ?e" using pow2_less_imp by fastforce
  have x53: "?x \<le> pow2 53"
  proof -
    from assms have "(of_nat n :: rat) \<le> of_nat (2 ^ 53)" by (simp only: of_nat_le_iff)
    then show ?thesis by (simp add: pow2_def)
  qed
  from eb xp have "pow2 ?e \<le> ?x" by simp
  with x53 have "pow2 ?e < pow2 54"
    using pow2_pos [of 53] by (simp add: pow2_def)
  then have e53: "?e \<le> 53" using pow2_less_imp by fastforce
  from e0 have sp: "spacing ?x = pow2 (?e - 52)" by (simp add: spacing_def max_def)
  show ?thesis
  proof (cases "?e \<le> 52")
    case True
    then have "pow2 (?e - 52) = 1 / 2 ^ nat (52 - ?e)"
      by (cases "?e = 52") (simp_all add: pow2_def)
    then have "?x / spacing ?x = of_int (int n * 2 ^ nat (52 - ?e))"
      by (simp add: sp)
    then show ?thesis by (rule round_double_exact)
  next
    case False
    with e53 have e: "?e = 53" by simp
    from eb xp e have "pow2 53 \<le> ?x" by simp
    with x53 have x: "?x = pow2 53" by simp
    have s1: "spacing ?x = pow2 1" using sp e by simp
    have "?x / spacing ?x = ?x / pow2 1" by (simp only: s1)
    also have "\<dots> = pow2 53 / pow2 1" by (simp only: x)
    also have "\<dots> = of_int (2 ^ 52)" by (simp add: pow2_def)
    finally have "?x / spacing ?x = of_int (2 ^ 52)" .
    then show ?thesis by (rule round_double_exact)
  qed
qed


lemma round_double_error: "\<bar>round_double x - x\<bar> \<le> spacing x / 2"
proof (cases "x = 0")
  case True
  then show ?thesis using spacing_pos [of 0] by (simp add: round_double_def)
next
  case False
  let ?q = "spacing x"
  have q: "0 < ?q" by (rule spacing_pos)
  have "round_double x - x = (of_int (round_half_even (x / ?q)) - x / ?q) * ?q"
    using q by (simp add: round_double_spacing [OF False] algebra_simps)
  then have "\<bar>round_double x - x\<bar> = \<bar>of_int (round_half_even (x / ?q)) - x / ?q\<bar> * ?q"
    using q by (simp add: abs_mult)
  also have "\<dots> \<le> (1 / 2) * ?q"
    using round_half_even_near [of "x / ?q"] q by (intro mult_right_mono) simp_all
  finally show ?thesis by simp
qed

lemma round_double_one: "round_double 1 = 1"
  using round_double_of_nat [of 1] by simp

lemma foldl_float_add_bounds:
  assumes "list_all (\<lambda>s. 0 \<le> s \<and> s \<le> 1) xs"
    and "0 \<le> s" and "s \<le> of_nat k" and "k + length xs \<le> 2 ^ 53"
  shows "0 \<le> foldl float_add s xs \<and> foldl float_add s xs \<le> of_nat (k + length xs)"
  using assms
proof (induction xs arbitrary: s k)
  case Nil
  then show ?case by simp
next
  case (Cons x xs)
  from Cons.prems(1) have x: "0 \<le> x" "x \<le> 1" and rest: "list_all (\<lambda>s. 0 \<le> s \<and> s \<le> 1) xs"
    by simp_all
  from Cons.prems(4) have k1: "Suc k \<le> 2 ^ 53" and kl: "Suc k + length xs \<le> 2 ^ 53"
    by simp_all
  from x Cons.prems(2) have "0 \<le> s + x" by simp
  then have lo: "0 \<le> float_add s x" unfolding float_add_def by (rule round_double_nonneg)
  from x Cons.prems(2,3) have "0 \<le> s + x" and "s + x \<le> of_nat (Suc k)" by simp_all
  then have "round_double (s + x) \<le> round_double (of_nat (Suc k))" by (rule round_double_mono)
  then have hi: "float_add s x \<le> of_nat (Suc k)"
    by (simp only: float_add_def round_double_of_nat [OF k1])
  from Cons.IH [OF rest lo hi kl] show ?case by simp
qed

lemma float_sum_plain_bounds:
  assumes "list_all (\<lambda>s. 0 \<le> s \<and> s \<le> 1) xs" and "length xs \<le> 2 ^ 53"
  shows "0 \<le> float_sum_plain xs \<and> float_sum_plain xs \<le> of_nat (length xs)"
  using foldl_float_add_bounds [of xs 0 0] assms by (simp add: float_sum_plain_def)

lemma float_mean_plain_bounds:
  assumes "list_all (\<lambda>s. 0 \<le> s \<and> s \<le> 1) xs" and "length xs \<le> 2 ^ 53" and "xs \<noteq> []"
  shows "0 \<le> float_div (float_sum_plain xs) (float_of_nat (length xs)) \<and>
         float_div (float_sum_plain xs) (float_of_nat (length xs)) \<le> 1"
proof -
  let ?s = "float_sum_plain xs" and ?n = "of_nat (length xs) :: rat"
  from assms(3) have n: "0 < ?n" by simp
  from float_sum_plain_bounds [OF assms(1,2)] have s: "0 \<le> ?s" "?s \<le> ?n" by simp_all
  from s n have q: "0 \<le> ?s / ?n" "?s / ?n \<le> 1" by (simp_all add: divide_le_eq)
  have fn: "float_of_nat (length xs) = ?n"
    unfolding float_of_nat_def by (rule round_double_of_nat [OF assms(2)])
  from round_double_nonneg [OF q(1)] round_double_mono [OF q(1) q(2)]
  show ?thesis by (simp add: float_div_def fn round_double_one)
qed


lemma pow2_strict_mono: "a < b \<Longrightarrow> pow2 a < pow2 b"
  by (simp add: pow2_powi power_int_strict_increasing)

lemma spacing_le:
  assumes "0 < x" and "x \<le> pow2 m" and "- 1022 \<le> m"
  shows "spacing x \<le> pow2 (m - 52)"
proof -
  from assms(1) have nz: "x \<noteq> 0" by simp
  from exponent_of_bounds [OF nz] assms(1) have "pow2 (exponent_of x) \<le> x" by simp
  with assms(2) have "pow2 (exponent_of x) \<le> pow2 m" by simp
  then have "exponent_of x \<le> m"
    using pow2_strict_mono [of m "exponent_of x"] by (cases "exponent_of x \<le> m") simp_all
  with assms(3) have "max (exponent_of x) (- 1022) - 52 \<le> m - 52" by simp
  then show ?thesis unfolding spacing_def by (rule pow2_mono)
qed

lemma round_double_error_le:
  assumes "0 \<le> x" and "x \<le> pow2 m" and "- 1022 \<le> m"
  shows "\<bar>round_double x - x\<bar> \<le> pow2 (m - 53)"
proof (cases "x = 0")
  case True
  then show ?thesis using pow2_pos [of "m - 53"] by (simp add: round_double_def)
next
  case False
  with assms(1) have xp: "0 < x" by simp
  have "\<bar>round_double x - x\<bar> \<le> spacing x / 2" by (rule round_double_error)
  also have "\<dots> \<le> pow2 (m - 52) / 2" using spacing_le [OF xp assms(2,3)] by simp
  also have "\<dots> = pow2 (m - 53)" using pow2_diff [of "m - 52" 1] by (simp add: pow2_def)
  finally show ?thesis .
qed

lemma foldl_float_add_error:
  assumes "list_all (\<lambda>s. 0 \<le> s \<and> s \<le> 1) xs"
    and "0 \<le> s" and "s \<le> of_nat k" and "k + length xs \<le> 2 ^ m" and "m \<le> 53"
  shows "\<bar>foldl float_add s xs - (s + sum_list xs)\<bar> \<le> of_nat (length xs) * pow2 (int m - 53)"
  using assms(1-4)
proof (induction xs arbitrary: s k)
  case Nil
  then show ?case by simp
next
  case (Cons x xs)
  from Cons.prems(1) have x: "0 \<le> x" "x \<le> 1" and rest: "list_all (\<lambda>s. 0 \<le> s \<and> s \<le> 1) xs"
    by simp_all
  have mm: "(2::nat) ^ m \<le> 2 ^ 53" using assms(5) by (rule power_increasing) simp
  from Cons.prems(4) have k1: "Suc k \<le> 2 ^ m" and kl: "Suc k + length xs \<le> 2 ^ m"
    by simp_all
  from k1 mm have k53: "Suc k \<le> 2 ^ 53" by simp
  from x Cons.prems(2,3) have sx: "0 \<le> s + x" "s + x \<le> of_nat (Suc k)" by simp_all
  have lo: "0 \<le> float_add s x" unfolding float_add_def by (rule round_double_nonneg [OF sx(1)])
  from round_double_mono [OF sx] have hi: "float_add s x \<le> of_nat (Suc k)"
    by (simp only: float_add_def round_double_of_nat [OF k53])
  have "(of_nat (Suc k) :: rat) \<le> of_nat (2 ^ m)" using k1 by (simp only: of_nat_le_iff)
  then have "of_nat (Suc k) \<le> pow2 (int m)" by (simp add: pow2_def)
  with sx(2) have "s + x \<le> pow2 (int m)" by simp
  from round_double_error_le [OF sx(1) this]
  have e1: "\<bar>float_add s x - (s + x)\<bar> \<le> pow2 (int m - 53)" by (simp add: float_add_def)
  from Cons.IH [OF rest lo hi kl]
  have e2: "\<bar>foldl float_add (float_add s x) xs - (float_add s x + sum_list xs)\<bar>
              \<le> of_nat (length xs) * pow2 (int m - 53)" .
  have "\<bar>foldl float_add s (x # xs) - (s + sum_list (x # xs))\<bar> \<le>
        \<bar>foldl float_add (float_add s x) xs - (float_add s x + sum_list xs)\<bar> +
        \<bar>float_add s x - (s + x)\<bar>"
    by simp
  also have "\<dots> \<le> of_nat (length xs) * pow2 (int m - 53) + pow2 (int m - 53)"
    using e1 e2 by simp
  also have "\<dots> = of_nat (length (x # xs)) * pow2 (int m - 53)" by (simp add: algebra_simps)
  finally show ?case .
qed

text \<open>
  The mean of at most \<open>2 ^ m\<close> scores in \<open>[0, 1]\<close>, summed from left to right, differs
  from their exact mean by at most \<open>(2 ^ m + 1) / 2 ^ 53\<close>.
\<close>

lemma float_mean_plain_error:
  assumes "list_all (\<lambda>s. 0 \<le> s \<and> s \<le> 1) xs" and "length xs \<le> 2 ^ m" and "m \<le> 53"
    and "xs \<noteq> []"
  shows "\<bar>float_div (float_sum_plain xs) (float_of_nat (length xs)) -
          sum_list xs / of_nat (length xs)\<bar> \<le> (2 ^ m + 1) / 2 ^ 53"
proof -
  let ?s = "float_sum_plain xs" and ?n = "of_nat (length xs) :: rat"
  have mm: "(2::nat) ^ m \<le> 2 ^ 53" using assms(3) by (rule power_increasing) simp
  with assms(2) have l53: "length xs \<le> 2 ^ 53" by simp
  from assms(4) have n: "0 < ?n" and n1: "1 \<le> ?n" by (simp_all add: Suc_le_eq)
  from float_sum_plain_bounds [OF assms(1) l53] have s: "0 \<le> ?s" "?s \<le> ?n" by simp_all
  from s n have q: "0 \<le> ?s / ?n" "?s / ?n \<le> 1" by (simp_all add: divide_le_eq)
  have fn: "float_of_nat (length xs) = ?n"
    unfolding float_of_nat_def by (rule round_double_of_nat [OF l53])
  have "?s / ?n \<le> pow2 0" using q(2) by (simp add: pow2_def)
  from round_double_error_le [OF q(1) this]
  have e1: "\<bar>float_div ?s (float_of_nat (length xs)) - ?s / ?n\<bar> \<le> 1 / 2 ^ 53"
    by (simp add: float_div_def fn pow2_def)
  from foldl_float_add_error [of xs 0 0 m] assms
  have "\<bar>?s - sum_list xs\<bar> \<le> ?n * pow2 (int m - 53)" by (simp add: float_sum_plain_def)
  then have "\<bar>?s - sum_list xs\<bar> / ?n \<le> pow2 (int m - 53)"
    using n by (simp add: divide_le_eq mult.commute)
  moreover have "\<bar>?s / ?n - sum_list xs / ?n\<bar> = \<bar>?s - sum_list xs\<bar> / ?n"
    using n by (simp add: diff_divide_distrib [symmetric] abs_divide del: of_nat_0_less_iff)
  moreover have "pow2 (int m - 53) = 2 ^ m / 2 ^ 53"
    using pow2_diff [of "int m" 53] by (simp add: pow2_def)
  ultimately have e2: "\<bar>?s / ?n - sum_list xs / ?n\<bar> \<le> 2 ^ m / 2 ^ 53" by simp
  have "\<bar>float_div ?s (float_of_nat (length xs)) - sum_list xs / ?n\<bar> \<le>
        \<bar>float_div ?s (float_of_nat (length xs)) - ?s / ?n\<bar> + \<bar>?s / ?n - sum_list xs / ?n\<bar>"
    by simp
  also have "\<dots> \<le> 1 / 2 ^ 53 + 2 ^ m / 2 ^ 53" using e1 e2 by simp
  also have "\<dots> = (2 ^ m + 1) / 2 ^ 53" by (simp add: add_divide_distrib)
  finally show ?thesis .
qed

section \<open>ValidationResult: mean score, status and weak aspects\<close>

lemma add_check_double_checks:
  "checks (add_check_double fsum vr n s) = dict_set (checks vr) n (clamp_score s)"
  by (simp add: add_check_double_def recalculate_overall_score_double_def Let_def)

lemma add_check_double_overall_score:
  "overall_score (add_check_double fsum vr n s) =
     float_div (fsum (map snd (checks (add_check_double fsum vr n s))))
       (float_of_nat (length (checks (add_check_double fsum vr n s))))"
  by (simp add: add_check_double_def recalculate_overall_score_double_def Let_def
      dict_set_nonempty dict_values_def)

lemma add_check_double_status:
  "status (add_check_double fsum vr n s) =
     (if overall_score (add_check_double fsum vr n s) \<ge> float_lit (8 / 10) then PASSED
      else if overall_score (add_check_double fsum vr n s) \<ge> float_lit (6 / 10) then WARNING
      else FAILED)"
  by (simp add: add_check_double_def recalculate_overall_score_double_def Let_def
      dict_set_nonempty)

lemma clamp_score_bounds: "0 \<le> clamp_score s \<and> clamp_score s \<le> 1"
  by (cases s) (simp_all add: clamp_score_def)

text \<open>One entry per check name, every stored score in \<open>[0, 1]\<close>.\<close>

lemma add_checks_double_checks:
  assumes "distinct (map fst (checks vr))"
    and "list_all (\<lambda>s. 0 \<le> s \<and> s \<le> 1) (map snd (checks vr))"
  shows "distinct (map fst (checks (add_checks_double fsum vr cs))) \<and>
         list_all (\<lambda>s. 0 \<le> s \<and> s \<le> 1) (map snd (checks (add_checks_double fsum vr cs)))"
  using assms
proof (induction fsum vr cs rule: add_checks_double.induct)
  case (1 fsum vr)
  then show ?case by simp
next
  case (2 fsum vr n s cs)
  have d: "distinct (map fst (checks (add_check_double fsum vr n s)))"
    using "2.prems"(1) by (simp add: add_check_double_checks dict_set_distinct)
  have b: "list_all (\<lambda>s. 0 \<le> s \<and> s \<le> 1) (map snd (checks (add_check_double fsum vr n s)))"
    unfolding add_check_double_checks
    using "2.prems"(2) clamp_score_bounds [of s] by (intro dict_set_values_bounded) simp_all
  from "2.IH" [OF d b] show ?case by simp
qed

lemma weak_aspects_member:
  assumes "distinct (map fst (checks vr))"
  shows "(n \<in> set (get_weak_aspects vr)) =
         (\<exists>s. dict_get (checks vr) n = Some s \<and> s < float_lit (6 / 10))"
proof -
  have "(n \<in> set (get_weak_aspects vr)) =
        (\<exists>s. (n, s) \<in> set (checks vr) \<and> s < float_lit (6 / 10))"
    by (force simp: get_weak_aspects_def)
  then show ?thesis by (simp add: dict_get_in_set [OF assms])
qed

lemma weak_aspects_distinct:
  "distinct (map fst (checks vr)) \<Longrightarrow> distinct (get_weak_aspects vr)"
  by (simp add: get_weak_aspects_def distinct_map_filter)

text \<open>The doubles of the literals \<open>0.9\<close>, \<open>0.3\<close>, \<open>0.4\<close>, \<open>0.8\<close> and \<open>0.6\<close>.\<close>

lemma float_lit_09: "float_lit (9 / 10) = 8106479329266893 / 9007199254740992"
  by code_simp

lemma float_lit_03: "float_lit (3 / 10) = 5404319552844595 / 18014398509481984"
  by code_simp

lemma float_lit_04: "float_lit (4 / 10) = 3602879701896397 / 9007199254740992"
  by code_simp

lemma float_lit_08: "float_lit (8 / 10) = 3602879701896397 / 4503599627370496"
  by code_simp

lemma float_lit_06: "float_lit (6 / 10) = 5404319552844595 / 9007199254740992"
  by code_simp

text \<open>
  The mean of \<open>0.9\<close>, \<open>0.9\<close> and \<open>0.3\<close> is the double \<open>0.7000000000000001\<close>, one spacing
  above the double \<open>0.7\<close>, under either summation.
\<close>

lemma mean_example_plain:
  "float_div (float_sum_plain [float_lit (9 / 10), float_lit (9 / 10), float_lit (3 / 10)])
     (float_of_nat 3) = 6305039478318695 / 9007199254740992"
  by code_simp

lemma mean_example_compensated:
  "float_div (float_sum_compensated [float_lit (9 / 10), float_lit (9 / 10), float_lit (3 / 10)])
     (float_of_nat 3) = 6305039478318695 / 9007199254740992"
  by code_simp

lemma float_lit_07: "float_lit (7 / 10) = 3152519739159347 / 4503599627370496"
  by code_simp

lemma three_checks:
  assumes "distinct [a, b, c]"
  shows "checks (add_checks_double fsum ValidationResult_new
           [(a, Finite x), (b, Finite y), (c, Finite z)]) =
         [(a, max 0 (min 1 x)), (b, max 0 (min 1 y)), (c, max 0 (min 1 z))]"
    and "overall_score (add_checks_double fsum ValidationResult_new
           [(a, Finite x), (b, Finite y), (c, Finite z)]) =
         float_div (fsum [max 0 (min 1 x), max 0 (min 1 y), max 0 (min 1 z)]) (float_of_nat 3)"
proof -
  let ?vr = "add_check_double fsum
               (add_check_double fsum (add_check_double fsum ValidationResult_new a (Finite x))
                  b (Finite y)) c (Finite z)"
  have e: "add_checks_double fsum ValidationResult_new
             [(a, Finite x), (b, Finite y), (c, Finite z)] = ?vr"
    by simp
  have ch: "checks ?vr = [(a, max 0 (min 1 x)), (b, max 0 (min 1 y)), (c, max 0 (min 1 z))]"
    using assms
    by (simp add: add_check_double_checks clamp_score_def ValidationResult_new_def)
  show "checks (add_checks_double fsum ValidationResult_new
           [(a, Finite x), (b, Finite y), (c, Finite z)]) =
         [(a, max 0 (min 1 x)), (b, max 0 (min 1 y)), (c, max 0 (min 1 z))]"
    by (simp only: e ch)
  have "overall_score ?vr = float_div (fsum (map snd (checks ?vr))) (float_of_nat (length (checks ?vr)))"
    by (rule add_check_double_overall_score)
  also have "\<dots> = float_div (fsum [max 0 (min 1 x), max 0 (min 1 y), max 0 (min 1 z)])
                    (float_of_nat 3)"
    by (simp only: ch) (simp add: numeral_3_eq_3)
  finally show "overall_score (add_checks_double fsum ValidationResult_new
           [(a, Finite x), (b, Finite y), (c, Finite z)]) =
         float_div (fsum [max 0 (min 1 x), max 0 (min 1 y), max 0 (min 1 z)]) (float_of_nat 3)"
    by (simp only: e)
qed

lemma add_checks_double_status:
  "cs \<noteq> [] \<Longrightarrow>
   status (add_checks_double fsum vr cs) =
     (if overall_score (add_checks_double fsum vr cs) \<ge> float_lit (8 / 10) then PASSED
      else if overall_score (add_checks_double fsum vr cs) \<ge> float_lit (6 / 10) then WARNING
      else FAILED)"
proof (induction fsum vr cs rule: add_checks_double.induct)
  case (1 fsum vr)
  then show ?case by simp
next
  case (2 fsum vr n s cs)
  show ?case
  proof (cases "cs = []")
    case True
    then show ?thesis using add_check_double_status [of fsum vr n s] by simp
  next
    case False
    from "2.IH" [OF False] show ?thesis by simp
  qed
qed

lemma clamp_lits:
  "max 0 (min 1 (float_lit (9 / 10))) = float_lit (9 / 10)"
  "max 0 (min 1 (float_lit (3 / 10))) = float_lit (3 / 10)"
  "max 0 (min 1 (float_lit (4 / 10))) = float_lit (4 / 10)"
  by (simp_all only: float_lit_09 float_lit_03 float_lit_04)

lemma three_checks_example:
  assumes "distinct [a, b, c]"
    and "fsum = float_sum_plain \<or> fsum = float_sum_compensated"
  defines "vr3 \<equiv> add_checks_double fsum ValidationResult_new
                   [(a, Finite (float_lit (9 / 10))), (b, Finite (float_lit (9 / 10))),
                    (c, Finite (float_lit (3 / 10)))]"
  shows "overall_score vr3 = 6305039478318695 / 9007199254740992"
    and "status vr3 = WARNING"
    and "get_weak_aspects vr3 = [c]"
proof -
  note tc = three_checks [OF assms(1), of fsum "float_lit (9 / 10)" "float_lit (9 / 10)"
      "float_lit (3 / 10)", folded vr3_def, unfolded clamp_lits]
  from assms(2) show o: "overall_score vr3 = 6305039478318695 / 9007199254740992"
  proof
    assume "fsum = float_sum_plain"
    then show ?thesis by (simp only: tc(2) mean_example_plain)
  next
    assume "fsum = float_sum_compensated"
    then show ?thesis by (simp only: tc(2) mean_example_compensated)
  qed
  have "status vr3 =
     (if overall_score vr3 \<ge> float_lit (8 / 10) then PASSED
      else if overall_score vr3 \<ge> float_lit (6 / 10) then WARNING
      else FAILED)"
    unfolding vr3_def by (rule add_checks_double_status) simp
  then show "status vr3 = WARNING"
    by (simp only: o float_lit_08 float_lit_06) simp
  show "get_weak_aspects vr3 = [c]"
    by (simp only: get_weak_aspects_def Let_def tc(1) float_lit_09 float_lit_03 float_lit_06)
      simp
qed

text \<open>
  Rounding decides the status at a threshold: the scores \<open>0.4\<close>, \<open>1.0\<close> and \<open>1.0\<close> have
  the mean \<open>0.7999999999999999\<close>, below the double \<open>0.8\<close>, and the status is \<open>warning\<close>.
\<close>

lemma mean_below_threshold_plain:
  "float_div (float_sum_plain [float_lit (4 / 10), 1, 1]) (float_of_nat 3) =
     7205759403792793 / 9007199254740992"
  by code_simp

lemma mean_below_threshold_compensated:
  "float_div (float_sum_compensated [float_lit (4 / 10), 1, 1]) (float_of_nat 3) =
     7205759403792793 / 9007199254740992"
  by code_simp

lemma status_below_threshold:
  assumes "distinct [a, b, c]"
    and "fsum = float_sum_plain \<or> fsum = float_sum_compensated"
  defines "vr3 \<equiv> add_checks_double fsum ValidationResult_new
                   [(a, Finite (float_lit (4 / 10))), (b, Finite 1), (c, Finite 1)]"
  shows "overall_score vr3 = 7205759403792793 / 9007199254740992"
    and "status vr3 = WARNING"
proof -
  note tc = three_checks [OF assms(1), of fsum "float_lit (4 / 10)" 1 1,
      folded vr3_def, unfolded clamp_lits]
  have one: "max 0 (min 1 (1::rat)) = 1" by simp
  from assms(2) show o: "overall_score vr3 = 7205759403792793 / 9007199254740992"
  proof
    assume "fsum = float_sum_plain"
    then show ?thesis by (simp only: tc(2) one mean_below_threshold_plain)
  next
    assume "fsum = float_sum_compensated"
    then show ?thesis by (simp only: tc(2) one mean_below_threshold_compensated)
  qed
  have "status vr3 =
     (if overall_score vr3 \<ge> float_lit (8 / 10) then PASSED
      else if overall_score vr3 \<ge> float_lit (6 / 10) then WARNING
      else FAILED)"
    unfolding vr3_def by (rule add_checks_double_status) simp
  then show "status vr3 = WARNING"
    by (simp only: o float_lit_08 float_lit_06) simp
qed

text \<open>
  With the left-to-right \<open>sum\<close> and fewer than \<open>2 ^ 53\<close> checks, the overall score of a
  result built by \<open>add_check\<close> calls lies in \<open>[0, 1]\<close>, and it differs from the exact
  mean of the stored scores by the rounding of the additions and of the division only.
\<close>

lemma add_checks_double_length:
  "length (checks (add_checks_double fsum vr cs)) \<le> length (checks vr) + length cs"
proof (induction fsum vr cs rule: add_checks_double.induct)
  case (1 fsum vr)
  then show ?case by simp
next
  case (2 fsum vr n s cs)
  have "length (checks (add_check_double fsum vr n s)) \<le> Suc (length (checks vr))"
    by (simp only: add_check_double_checks dict_set_length)
  with "2.IH" show ?case by simp
qed

lemma add_checks_double_nonempty:
  "checks vr \<noteq> [] \<or> cs \<noteq> [] \<Longrightarrow> checks (add_checks_double fsum vr cs) \<noteq> []"
proof (induction fsum vr cs rule: add_checks_double.induct)
  case (1 fsum vr)
  then show ?case by simp
next
  case (2 fsum vr n s cs)
  have "checks (add_check_double fsum vr n s) \<noteq> []"
    by (simp only: add_check_double_checks dict_set_nonempty not_False_eq_True)
  with "2.IH" show ?case by simp
qed

lemma add_checks_double_overall_score:
  "cs \<noteq> [] \<Longrightarrow>
   overall_score (add_checks_double fsum vr cs) =
     float_div (fsum (map snd (checks (add_checks_double fsum vr cs))))
       (float_of_nat (length (checks (add_checks_double fsum vr cs))))"
proof (induction fsum vr cs rule: add_checks_double.induct)
  case (1 fsum vr)
  then show ?case by simp
next
  case (2 fsum vr n s cs)
  show ?case
  proof (cases "cs = []")
    case True
    then show ?thesis using add_check_double_overall_score [of fsum vr n s] by simp
  next
    case False
    from "2.IH" [OF False] show ?thesis by simp
  qed
qed

lemma overall_score_double_unit:
  assumes "length cs \<le> 2 ^ 53"
  shows "0 \<le> overall_score (add_checks_double float_sum_plain ValidationResult_new cs) \<and>
         overall_score (add_checks_double float_sum_plain ValidationResult_new cs) \<le> 1"
proof (cases "cs = []")
  case True
  then show ?thesis by (simp add: ValidationResult_new_def)
next
  case False
  let ?vr = "add_checks_double float_sum_plain ValidationResult_new cs"
  have d0: "distinct (map fst (checks ValidationResult_new))"
    and b0: "list_all (\<lambda>s. 0 \<le> s \<and> s \<le> 1) (map snd (checks ValidationResult_new))"
    by (simp_all add: ValidationResult_new_def)
  from add_checks_double_checks [OF d0 b0, of float_sum_plain cs]
  have b: "list_all (\<lambda>s. 0 \<le> s \<and> s \<le> 1) (map snd (checks ?vr))" by simp
  from add_checks_double_length [of float_sum_plain ValidationResult_new cs] assms
  have l: "length (map snd (checks ?vr)) \<le> 2 ^ 53" by (simp add: ValidationResult_new_def)
  from add_checks_double_nonempty [of ValidationResult_new cs float_sum_plain] False
  have ne: "map snd (checks ?vr) \<noteq> []" by simp
  from float_mean_plain_bounds [OF b l ne] show ?thesis
    by (simp add: add_checks_double_overall_score [OF False])
qed

lemma overall_score_near_exact_mean:
  assumes "cs \<noteq> []" and "length cs \<le> 2 ^ m" and "m \<le> 53"
  defines "vr \<equiv> add_checks_double float_sum_plain ValidationResult_new cs"
  shows "\<bar>overall_score vr - sum_list (map snd (checks vr)) / of_nat (length (checks vr))\<bar>
           \<le> (2 ^ m + 1) / 2 ^ 53"
proof -
  have d0: "distinct (map fst (checks ValidationResult_new))"
    and b0: "list_all (\<lambda>s. 0 \<le> s \<and> s \<le> 1) (map snd (checks ValidationResult_new))"
    by (simp_all add: ValidationResult_new_def)
  from add_checks_double_checks [OF d0 b0, of float_sum_plain cs]
  have b: "list_all (\<lambda>s. 0 \<le> s \<and> s \<le> 1) (map snd (checks vr))" by (simp add: vr_def)
  from add_checks_double_length [of float_sum_plain ValidationResult_new cs] assms(2)
  have l: "length (map snd (checks vr)) \<le> 2 ^ m" by (simp add: ValidationResult_new_def vr_def)
  from add_checks_double_nonempty [of ValidationResult_new cs float_sum_plain] assms(1)
  have ne: "map snd (checks vr) \<noteq> []" by (simp add: vr_def)
  from float_mean_plain_error [OF b l assms(3) ne] show ?thesis
    by (simp add: add_checks_double_overall_score [OF assms(1)] vr_def)
qed

text \<open>
  C3. Each \<open>add_check\<close> stores the score clamped into \<open>[0, 1]\<close> under its name and
  recomputes \<open>overall_score\<close> as the mean of the stored scores, in doubles: their \<open>sum\<close>
  divided by their number. The status is \<open>passed\<close> from the double \<open>0.8\<close>, \<open>warning\<close> from
  the double \<open>0.6\<close> and \<open>failed\<close> below. For a result built by \<open>add_check\<close> calls, every
  stored score lies in \<open>[0, 1]\<close> and \<open>get_weak_aspects\<close> lists each check scoring below
  \<open>0.6\<close> once and nothing else. Three checks with distinct names scoring \<open>0.9\<close>, \<open>0.9\<close>
  and \<open>0.3\<close> give, under either summation of \<open>sum\<close>, the overall score
  \<open>0.7000000000000001\<close>, which is within \<open>1e-9\<close> of \<open>0.7\<close> (as a real number and as a
  double), the status \<open>warning\<close> and the one weak aspect.
\<close>

theorem C3_validation_result_scoring:
  "(let vr' = add_check_double fsum vr check_name score in
      checks vr' = dict_set (checks vr) check_name (clamp_score score) \<and>
      0 \<le> clamp_score score \<and> clamp_score score \<le> 1 \<and>
      overall_score vr' =
        float_div (fsum (map snd (checks vr'))) (float_of_nat (length (checks vr'))) \<and>
      status vr' = (if overall_score vr' \<ge> float_lit (8 / 10) then PASSED
                    else if overall_score vr' \<ge> float_lit (6 / 10) then WARNING else FAILED)) \<and>
   (let vr = add_checks_double fsum ValidationResult_new cs in
      list_all (\<lambda>s. 0 \<le> s \<and> s \<le> 1) (map snd (checks vr)) \<and>
      distinct (get_weak_aspects vr) \<and>
      (n \<in> set (get_weak_aspects vr)) =
        (\<exists>s. dict_get (checks vr) n = Some s \<and> s < float_lit (6 / 10))) \<and>
   (distinct [a, b, c] \<and> (fsum = float_sum_plain \<or> fsum = float_sum_compensated) \<longrightarrow>
      (let vr3 = add_checks_double fsum ValidationResult_new
                   [(a, Finite (float_lit (9 / 10))), (b, Finite (float_lit (9 / 10))),
                    (c, Finite (float_lit (3 / 10)))] in
         overall_score vr3 = 6305039478318695 / 9007199254740992 \<and>
         \<bar>overall_score vr3 - 7 / 10\<bar> < 1 / 10 ^ 9 \<and>
         \<bar>overall_score vr3 - float_lit (7 / 10)\<bar> < 1 / 10 ^ 9 \<and>
         status vr3 = WARNING \<and>
         get_weak_aspects vr3 = [c]))"
proof -
  have d0: "distinct (map fst (checks ValidationResult_new))"
    and b0: "list_all (\<lambda>s. 0 \<le> s \<and> s \<le> 1) (map snd (checks ValidationResult_new))"
    by (simp_all add: ValidationResult_new_def)
  note ok = add_checks_double_checks [OF d0 b0, of fsum cs]
  then have d: "distinct (map fst (checks (add_checks_double fsum ValidationResult_new cs)))"
    by simp
  have first: "let vr' = add_check_double fsum vr check_name score in
      checks vr' = dict_set (checks vr) check_name (clamp_score score) \<and>
      0 \<le> clamp_score score \<and> clamp_score score \<le> 1 \<and>
      overall_score vr' =
        float_div (fsum (map snd (checks vr'))) (float_of_nat (length (checks vr'))) \<and>
      status vr' = (if overall_score vr' \<ge> float_lit (8 / 10) then PASSED
                    else if overall_score vr' \<ge> float_lit (6 / 10) then WARNING else FAILED)"
    unfolding Let_def
    using add_check_double_checks [of fsum vr check_name score]
      add_check_double_overall_score [of fsum vr check_name score]
      add_check_double_status [of fsum vr check_name score]
      clamp_score_bounds [of score]
    by simp
  have second: "let vr = add_checks_double fsum ValidationResult_new cs in
      list_all (\<lambda>s. 0 \<le> s \<and> s \<le> 1) (map snd (checks vr)) \<and>
      distinct (get_weak_aspects vr) \<and>
      (n \<in> set (get_weak_aspects vr)) =
        (\<exists>s. dict_get (checks vr) n = Some s \<and> s < float_lit (6 / 10))"
    unfolding Let_def
    using ok weak_aspects_member [OF d] weak_aspects_distinct [OF d]
    by simp
  have third: "distinct [a, b, c] \<and> (fsum = float_sum_plain \<or> fsum = float_sum_compensated) \<longrightarrow>
      (let vr3 = add_checks_double fsum ValidationResult_new
                   [(a, Finite (float_lit (9 / 10))), (b, Finite (float_lit (9 / 10))),
                    (c, Finite (float_lit (3 / 10)))] in
         overall_score vr3 = 6305039478318695 / 9007199254740992 \<and>
         \<bar>overall_score vr3 - 7 / 10\<bar> < 1 / 10 ^ 9 \<and>
         \<bar>overall_score vr3 - float_lit (7 / 10)\<bar> < 1 / 10 ^ 9 \<and>
         status vr3 = WARNING \<and>
         get_weak_aspects vr3 = [c])"
  proof
    assume h: "distinct [a, b, c] \<and> (fsum = float_sum_plain \<or> fsum = float_sum_compensated)"
    then have dist: "distinct [a, b, c]"
      and fs: "fsum = float_sum_plain \<or> fsum = float_sum_compensated" by blast+
    note ex = three_checks_example [OF dist fs]
    have c1: "\<bar>overall_score (add_checks_double fsum ValidationResult_new
                   [(a, Finite (float_lit (9 / 10))), (b, Finite (float_lit (9 / 10))),
                    (c, Finite (float_lit (3 / 10)))]) - 7 / 10\<bar> < 1 / 10 ^ 9"
      by (simp only: ex(1)) simp
    have c2: "\<bar>overall_score (add_checks_double fsum ValidationResult_new
                   [(a, Finite (float_lit (9 / 10))), (b, Finite (float_lit (9 / 10))),
                    (c, Finite (float_lit (3 / 10)))]) - float_lit (7 / 10)\<bar> < 1 / 10 ^ 9"
      by (simp only: ex(1) float_lit_07) simp
    from ex c1 c2 show "let vr3 = add_checks_double fsum ValidationResult_new
                   [(a, Finite (float_lit (9 / 10))), (b, Finite (float_lit (9 / 10))),
                    (c, Finite (float_lit (3 / 10)))] in
         overall_score vr3 = 6305039478318695 / 9007199254740992 \<and>
         \<bar>overall_score vr3 - 7 / 10\<bar> < 1 / 10 ^ 9 \<and>
         \<bar>overall_score vr3 - float_lit (7 / 10)\<bar> < 1 / 10 ^ 9 \<and>
         status vr3 = WARNING \<and>
         get_weak_aspects vr3 = [c]"
      unfolding Let_def by blast
  qed
  from first second third show ?thesis by blast
qed

text \<open>
  The checks \<open>accuracy\<close>, \<open>relevance\<close> and \<open>clarity\<close> with the scores \<open>0.9\<close>, \<open>0.9\<close> and
  \<open>0.3\<close>, summed from left to right.
\<close>

theorem C3_validation_result_scoring_witness:
  "distinct [''accuracy'', ''relevance'', ''clarity''] \<and>
   (let vr3 = add_checks_double float_sum_plain ValidationResult_new
                [(''accuracy'', Finite (float_lit (9 / 10))),
                 (''relevance'', Finite (float_lit (9 / 10))),
                 (''clarity'', Finite (float_lit (3 / 10)))] in
      overall_score vr3 = 6305039478318695 / 9007199254740992 \<and>
      \<bar>overall_score vr3 - 7 / 10\<bar> < 1 / 10 ^ 9 \<and>
      \<bar>overall_score vr3 - float_lit (7 / 10)\<bar> < 1 / 10 ^ 9 \<and>
      status vr3 = WARNING \<and>
      get_weak_aspects vr3 = [''clarity''])"
proof -
  have h: "distinct [''accuracy'', ''relevance'', ''clarity'']" by simp
  from C3_validation_result_scoring
    [of float_sum_plain _ _ _ "[]" _ "''accuracy''" "''relevance''" "''clarity''"] h
  show ?thesis by blast
qed

section \<open>ConfidenceCalculator: the confidence never exceeds 0.95\<close>

lemma base_confidence_bounds:
  fixes v :: rat
  assumes "0 \<le> v" and "v \<le> 1" and "5 / 10 \<le> b" and "b \<le> 95 / 100"
  shows "0 \<le> min (b * v) 1 \<and> min (b * v) 1 \<le> 95 / 100"
proof -
  from assms have b0: "0 \<le> b" by simp
  from assms(1) b0 have lo: "0 \<le> b * v" by simp
  have "b * v \<le> b * 1" using assms(2) b0 by (intro mult_left_mono) simp_all
  with assms(4) have hi: "b * v \<le> 95 / 100" by simp
  from lo hi show ?thesis by (simp add: min_def)
qed

lemma calculate_confidence_bounds:
  assumes "0 \<le> overall_score vr" and "overall_score vr \<le> 1"
  shows "0 \<le> calculate_confidence resp ctx vr \<and>
         calculate_confidence resp ctx vr \<le> 95 / 100"
  unfolding calculate_confidence_def Let_def get_overall_score_def
  by (intro base_confidence_bounds assms) (simp_all split: if_splits)

text \<open>
  C10. For every response, processing context and ValidationResult whose checks were
  recorded by \<open>add_check\<close> calls, the confidence lies in \<open>[0, 0.95]\<close>: the base is at
  most 0.5 + 0.2 + 0.15 + 0.1 and the overall score it is multiplied by is at most 1,
  so 1.0 is never returned. The arithmetic here is exact; the next section has the bound
  for the rounded sums, mean and product of the code.
\<close>

theorem C10_confidence_at_most_095:
  "0 \<le> calculate_confidence resp ctx (add_checks ValidationResult_new cs) \<and>
   calculate_confidence resp ctx (add_checks ValidationResult_new cs) \<le> 95 / 100 \<and>
   calculate_confidence resp ctx (add_checks ValidationResult_new cs) \<noteq> 1"
proof -
  have "recorded_ok (add_checks ValidationResult_new cs)"
    by (rule recorded_ok_add_checks [OF recorded_ok_new])
  then have "0 \<le> overall_score (add_checks ValidationResult_new cs)"
    and "overall_score (add_checks ValidationResult_new cs) \<le> 1"
    by (simp_all add: recorded_ok_def)
  from calculate_confidence_bounds [OF this, of resp ctx]
  show ?thesis by simp
qed

text \<open>The bound is met: a perfect basic-quality check with knowledge sources and tool results.\<close>

lemma confidence_095_attained:
  "calculate_confidence (ascii ''ok'')
     [(''knowledge_sources'', PList [PStr (ascii ''rag'')]),
      (''tool_results'', PDict [(''calculator'', PInt 1)])]
     (add_checks ValidationResult_new [(''basic_quality'', 1)]) = 95 / 100"
  by (simp add: calculate_confidence_def add_check_def recalculate_overall_score_def Let_def
      ValidationResult_new_def get_check_result_def get_overall_score_def
      dict_get_default_def dict_values_def)

theorem C10_confidence_at_most_095_witness:
  "calculate_confidence (ascii ''ok'')
     [(''knowledge_sources'', PList [PStr (ascii ''rag'')])]
     (add_checks ValidationResult_new [(''basic_quality'', 9 / 10), (''completeness'', 1)])
   \<le> 95 / 100"
  using C10_confidence_at_most_095
    [of "ascii ''ok''" "[(''knowledge_sources'', PList [PStr (ascii ''rag'')])]"
        "[(''basic_quality'', 9 / 10), (''completeness'', 1)]"]
  by blast

section \<open>ConfidenceCalculator: the bound in double precision\<close>

text \<open>The doubles of the literals, and the sums that make up the base confidence.\<close>

lemma float_lit_05: "float_lit (5 / 10) = 1 / 2"
  by code_simp

lemma float_lit_02: "float_lit (2 / 10) = 3602879701896397 / 18014398509481984"
  by code_simp

lemma float_lit_015: "float_lit (15 / 100) = 5404319552844595 / 36028797018963968"
  by code_simp

lemma float_lit_01: "float_lit (1 / 10) = 3602879701896397 / 36028797018963968"
  by code_simp

lemma base_add_q: "float_add (1 / 2) (3602879701896397 / 18014398509481984) = 3152519739159347 / 4503599627370496"
  by code_simp

lemma base_add_k: "float_add (1 / 2) (5404319552844595 / 36028797018963968) = 5854679515581645 / 9007199254740992"
  by code_simp

lemma base_add_t: "float_add (1 / 2) (3602879701896397 / 36028797018963968) = 5404319552844595 / 9007199254740992"
  by code_simp

lemma base_add_qk: "float_add (3152519739159347 / 4503599627370496) (5404319552844595 / 36028797018963968) = 7656119366529843 / 9007199254740992"
  by code_simp

lemma base_add_qt: "float_add (3152519739159347 / 4503599627370496) (3602879701896397 / 36028797018963968) = 7205759403792793 / 9007199254740992"
  by code_simp

lemma base_add_kt: "float_add (5854679515581645 / 9007199254740992) (3602879701896397 / 36028797018963968) = 3 / 4"
  by code_simp

lemma base_add_qkt: "float_add (7656119366529843 / 9007199254740992) (3602879701896397 / 36028797018963968) = 4278419646001971 / 4503599627370496"
  by code_simp

lemma float_lit_095: "float_lit (95 / 100) = 4278419646001971 / 4503599627370496"
  by code_simp

lemma round_double_095:
  "round_double (4278419646001971 / 4503599627370496) = 4278419646001971 / 4503599627370496"
  by code_simp

lemma base_confidence_range:
  "0 \<le> base_confidence q k t \<and> base_confidence q k t \<le> 4278419646001971 / 4503599627370496"
  by (cases q; cases k; cases t)
    (simp_all only: base_confidence_def Let_def if_True if_False float_lit_05 float_lit_02
      float_lit_015 float_lit_01 base_add_q base_add_k base_add_t base_add_qk base_add_qt
      base_add_kt base_add_qkt, simp_all)

lemma calculate_confidence_double_base:
  "calculate_confidence_double resp ctx vr =
     min (float_mul
            (base_confidence (get_check_result vr ''basic_quality'' 0 > float_lit (7 / 10))
               (truthy (dict_get_default ctx ''knowledge_sources'' PNone))
               (truthy (dict_get_default ctx ''tool_results'' PNone)))
            (overall_score vr)) 1"
  by (simp add: calculate_confidence_double_def base_confidence_def Let_def
      get_overall_score_def)

lemma calculate_confidence_double_bounds:
  assumes "0 \<le> overall_score vr" and "overall_score vr \<le> 1"
  shows "0 \<le> calculate_confidence_double resp ctx vr \<and>
         calculate_confidence_double resp ctx vr \<le> float_lit (95 / 100) \<and>
         calculate_confidence_double resp ctx vr \<le> 95 / 100"
proof -
  let ?b = "base_confidence (get_check_result vr ''basic_quality'' 0 > float_lit (7 / 10))
               (truthy (dict_get_default ctx ''knowledge_sources'' PNone))
               (truthy (dict_get_default ctx ''tool_results'' PNone))"
  let ?L = "4278419646001971 / 4503599627370496 :: rat"
  from base_confidence_range [of "get_check_result vr ''basic_quality'' 0 > float_lit (7 / 10)"
      "truthy (dict_get_default ctx ''knowledge_sources'' PNone)"
      "truthy (dict_get_default ctx ''tool_results'' PNone)"]
  have b: "0 \<le> ?b" "?b \<le> ?L" by simp_all
  from b(1) assms(1) have lo: "0 \<le> ?b * overall_score vr" by simp
  have "?b * overall_score vr \<le> ?b * 1"
    using assms(2) b(1) by (intro mult_left_mono) simp_all
  with b(2) have hi: "?b * overall_score vr \<le> ?L" by simp
  from round_double_nonneg [OF lo] have f0: "0 \<le> float_mul ?b (overall_score vr)"
    by (simp only: float_mul_def)
  from round_double_mono [OF lo hi] have f1: "float_mul ?b (overall_score vr) \<le> ?L"
    by (simp only: float_mul_def round_double_095)
  have L: "?L \<le> 95 / 100" "?L \<le> 1" by simp_all
  from f0 f1 L show ?thesis
    by (simp only: calculate_confidence_double_base float_lit_095) (simp add: min_def)
qed

text \<open>
  The same bound for the values the code computes: with the left-to-right \<open>sum\<close> and
  at most \<open>2 ^ 53\<close> \<open>add_check\<close> calls, the confidence in double precision lies between
  0 and the double \<open>0.95\<close>.
\<close>

lemma confidence_at_most_095_double:
  assumes "length cs \<le> 2 ^ 53"
  shows "0 \<le> calculate_confidence_double resp ctx
                (add_checks_double float_sum_plain ValidationResult_new cs) \<and>
         calculate_confidence_double resp ctx
                (add_checks_double float_sum_plain ValidationResult_new cs) \<le> float_lit (95 / 100) \<and>
         calculate_confidence_double resp ctx
                (add_checks_double float_sum_plain ValidationResult_new cs) \<le> 95 / 100"
proof -
  from overall_score_double_unit [OF assms]
  have "0 \<le> overall_score (add_checks_double float_sum_plain ValidationResult_new cs)"
    and "overall_score (add_checks_double float_sum_plain ValidationResult_new cs) \<le> 1"
    by simp_all
  then show ?thesis by (rule calculate_confidence_double_bounds)
qed

section \<open>ProcessingResult: the round trip through a plain mapping\<close>

lemma from_dict_to_dict: "from_dict (to_dict r) = r"
  by (simp add: from_dict_def to_dict_def dict_get_default_def)

lemma from_dict_empty: "from_dict [] = ProcessingResult_new"
  by (simp add: from_dict_def ProcessingResult_new_def dict_get_default_def)

text \<open>
  C9. \<open>from_dict (to_dict r)\<close> is \<open>r\<close>, field for field, for every ProcessingResult;
  a field whose key the mapping lacks gets its default: the empty string, 0.0, false,
  the empty list or mapping, and \<open>None\<close> for \<open>error\<close>.
\<close>

theorem C9_processing_result_round_trip:
  "from_dict (to_dict r) = r \<and>
   from_dict [] = ProcessingResult_new \<and>
   (dict_get d ''response'' = None \<longrightarrow> response (from_dict d) = PStr []) \<and>
   (dict_get d ''confidence'' = None \<longrightarrow> result_confidence (from_dict d) = PFloat 0) \<and>
   (dict_get d ''success'' = None \<longrightarrow> success (from_dict d) = PBool False) \<and>
   (dict_get d ''processing_time'' = None \<longrightarrow> processing_time (from_dict d) = PFloat 0) \<and>
   (dict_get d ''knowledge_sources'' = None \<longrightarrow> knowledge_sources (from_dict d) = PList []) \<and>
   (dict_get d ''tool_results'' = None \<longrightarrow> tool_results (from_dict d) = PDict []) \<and>
   (dict_get d ''validation_results'' = None \<longrightarrow> validation_results (from_dict d) = PDict []) \<and>
   (dict_get d ''metadata'' = None \<longrightarrow> metadata (from_dict d) = PDict []) \<and>
   (dict_get d ''errors'' = None \<longrightarrow> errors (from_dict d) = PList []) \<and>
   (dict_get d ''error'' = None \<longrightarrow> error (from_dict d) = PNone) \<and>
   (dict_get d ''response'' = Some v \<longrightarrow> response (from_dict d) = v)"
  by (simp add: from_dict_to_dict from_dict_empty)
     (simp add: from_dict_def dict_get_default_def)

text \<open>
  A mapping that holds two of the ten keys: the two values are kept and the other eight
  fields are the defaults.
\<close>

theorem C9_processing_result_round_trip_witness:
  "from_dict [(''response'', PStr (ascii ''ok'')), (''success'', PBool True)] =
     ProcessingResult_new\<lparr>response := PStr (ascii ''ok''), success := PBool True\<rparr> \<and>
   from_dict (to_dict (ProcessingResult_new\<lparr>error := PStr (ascii ''boom'')\<rparr>)) =
     ProcessingResult_new\<lparr>error := PStr (ascii ''boom'')\<rparr>"
proof -
  let ?d = "[(''response'', PStr (ascii ''ok'')), (''success'', PBool True)]"
  note c9 = C9_processing_result_round_trip
    [of "ProcessingResult_new\<lparr>error := PStr (ascii ''boom'')\<rparr>" ?d "PStr (ascii ''ok'')"]
  have "response (from_dict ?d) = PStr (ascii ''ok'')"
    and "result_confidence (from_dict ?d) = PFloat 0"
    and "processing_time (from_dict ?d) = PFloat 0"
    and "knowledge_sources (from_dict ?d) = PList []"
    and "tool_results (from_dict ?d) = PDict []"
    and "validation_results (from_dict ?d) = PDict []"
    and "metadata (from_dict ?d) = PDict []"
    and "errors (from_dict ?d) = PList []"
    and "error (from_dict ?d) = PNone"
    using c9 by simp_all
  moreover have "success (from_dict ?d) = PBool True"
    by (simp add: from_dict_def dict_get_default_def)
  ultimately have "from_dict ?d =
     ProcessingResult_new\<lparr>response := PStr (ascii ''ok''), success := PBool True\<rparr>"
    by (simp add: ProcessingResult_new_def ProcessingResult.equality)
  with c9 show ?thesis by simp
qed

section \<open>The pipeline: the fast-track stage list and unknown stage names\<close>

lemma ascii_eq_iff: "(ascii a = ascii b) = (a = b)"
proof -
  have "inj (of_char :: char \<Rightarrow> nat)" by (rule injI) simp
  then have "inj (map (of_char :: char \<Rightarrow> nat))" by (simp only: inj_map)
  then show ?thesis unfolding ascii_def by (auto dest: injD)
qed

lemma find_known_stage:
  "k \<in> set stage_names \<Longrightarrow> find (\<lambda>k'. ascii k' = ascii k) stage_names = Some k"
  by (simp add: ascii_eq_iff stage_names_def, elim disjE) simp_all

lemma find_unknown_stage:
  "n \<notin> set (map ascii stage_names) \<Longrightarrow> find (\<lambda>k. ascii k = n) stage_names = None"
  by (auto simp: find_None_iff)

lemma run_stages_unknown:
  "n \<notin> set (map ascii stage_names) \<Longrightarrow>
   run_stages float_repr other (PStr n # rest) st =
     run_stages float_repr other rest (add_error st (unknown_stage_prefix @ n))"
  by (simp add: find_unknown_stage)

lemma run_stages_known:
  "k \<in> set stage_names \<Longrightarrow>
   run_stages float_repr other (PStr (ascii k) # rest) st =
     (case stage_process other k st of
        Inl e \<Rightarrow> Inl e
      | Inr st' \<Rightarrow> run_stages float_repr other rest st')"
  by (simp add: find_known_stage)

text \<open>
  A stage name that is not a \<open>str\<close> is no key of \<open>stage_processors\<close>: the \<open>int\<close> 5 is
  recorded as \<open>Unknown stage: 5\<close> and the loop goes on. A \<open>'stages'\<close> value that is a
  \<open>str\<close> is run character by character.
\<close>

lemma run_stages_int_name:
  "run_stages float_repr other (PInt 5 # rest) st =
     run_stages float_repr other rest (add_error st (ascii ''Unknown stage: 5''))"
  by (simp add: unknown_stage_prefix_def int_str_def nat_str.simps ascii_def)

lemma iterate_str_stages:
  "iterate (PStr (ascii ''ab'')) = Inr [PStr (ascii ''a''), PStr (ascii ''b'')]"
  by (simp add: ascii_def)

lemma run_fast_track:
  "run_stages float_repr other fast_track_stages st =
     Inr (BasicValidationStage (SimpleReasoningStage (PreprocessingStage st)))"
proof -
  have k: "''preprocessing'' \<in> set stage_names" "''simple_reasoning'' \<in> set stage_names"
    "''basic_validation'' \<in> set stage_names"
    by (simp_all add: stage_names_def)
  show ?thesis
    unfolding fast_track_stages_def
    by (simp only: run_stages_known [OF k(1)] run_stages_known [OF k(2)]
        run_stages_known [OF k(3)]) (simp add: stage_process_def)
qed

lemma fast_track_state:
  assumes "state_errors st = []"
  defines "st' \<equiv> BasicValidationStage (SimpleReasoningStage (PreprocessingStage st))"
  shows "state_response st' = simple_reasoning_prefix @ strip (question st)"
    and "state_confidence st' = 7 / 10"
    and "state_errors st' = []"
  using assms(1) unfolding st'_def
  by (simp_all add: BasicValidationStage_def SimpleReasoningStage_def PreprocessingStage_def
      Let_def add_validation_result_def add_metadata_def set_response_def
      set_state_confidence_def)

lemma simple_reasoning_prefix_length: "length simple_reasoning_prefix = 11"
  by (simp add: simple_reasoning_prefix_def)

lemma execute_fast_track:
  fixes float_repr other q ctx t_state t0 t1
  assumes "dict_get rc ''stages'' = Some (PList fast_track_stages)"
  defines "r \<equiv> execute_pipeline float_repr other q rc ctx t_state t0 t1"
  shows "success r = PBool True"
    and "result_confidence r = PFloat (7 / 10)"
    and "response r = PStr (simple_reasoning_prefix @ strip q)"
    and "errors r = PList []"
    and "error r = PNone"
proof -
  let ?st = "PipelineState_new q rc ctx t_state"
  let ?st' = "BasicValidationStage (SimpleReasoningStage (PreprocessingStage ?st))"
  have e: "state_errors ?st = []" and qq: "question ?st = q"
    by (simp_all add: PipelineState_new_def)
  have r: "r = (get_final_result ?st' t1)\<lparr>processing_time := PFloat (t1 - t0)\<rparr>"
    unfolding r_def execute_pipeline_def Let_def by (simp add: assms(1) run_fast_track)
  note fs = fast_track_state [OF e]
  have ne: "simple_reasoning_prefix @ strip q \<noteq> []"
    by (simp add: simple_reasoning_prefix_def)
  show "success r = PBool True" "result_confidence r = PFloat (7 / 10)"
    "response r = PStr (simple_reasoning_prefix @ strip q)" "errors r = PList []"
    "error r = PNone"
    using ne by (simp_all add: r get_final_result_def fs qq)
qed

lemma execute_unknown_stage:
  fixes float_repr other q ctx t_state t0 t1
  assumes "n \<notin> set (map ascii stage_names)"
    and "dict_get rc ''stages'' = Some (PList [PStr n])"
  defines "r \<equiv> execute_pipeline float_repr other q rc ctx t_state t0 t1"
  shows "success r = PBool False"
    and "errors r = PList [PStr (unknown_stage_prefix @ n)]"
    and "response r = PStr []"
    and "error r = PNone"
proof -
  let ?st = "PipelineState_new q rc ctx t_state"
  have r: "r = (get_final_result (add_error ?st (unknown_stage_prefix @ n)) t1)
                 \<lparr>processing_time := PFloat (t1 - t0)\<rparr>"
    unfolding r_def execute_pipeline_def Let_def
    by (simp add: assms(2) run_stages_unknown [OF assms(1)] del: run_stages.simps(2))
  show "success r = PBool False" "errors r = PList [PStr (unknown_stage_prefix @ n)]"
    "response r = PStr []" "error r = PNone"
    by (simp_all add: r get_final_result_def add_error_def PipelineState_new_def)
qed

text \<open>
  C2. With the stage list \<open>[preprocessing, simple_reasoning, basic_validation]\<close> the
  pipeline returns, for every question (empty or not), a result with \<open>success\<close> true,
  confidence 0.7 and the response \<open>prefix + question.strip()\<close>, which has at least 11
  characters. With a single unknown stage name it returns \<open>success\<close> false and the one
  recorded error \<open>Unknown stage: name\<close> in \<open>errors\<close> (the field \<open>error\<close> stays \<open>None\<close>).
  An unknown name adds its error and the stages after it still run.
\<close>

theorem C2_pipeline_stages:
  "(dict_get rc ''stages'' = Some (PList fast_track_stages) \<longrightarrow>
      (let r = execute_pipeline float_repr other q rc ctx t_state t0 t1 in
         success r = PBool True \<and>
         (\<exists>c. result_confidence r = PFloat c \<and> 0 < c) \<and>
         (\<exists>s. response r = PStr s \<and> 10 < length s) \<and>
         errors r = PList [])) \<and>
   (n \<notin> set (map ascii stage_names) \<and> dict_get rc ''stages'' = Some (PList [PStr n]) \<longrightarrow>
      (let r = execute_pipeline float_repr other q rc ctx t_state t0 t1 in
         success r = PBool False \<and>
         (\<exists>e. errors r = PList [PStr e] \<and> e \<noteq> [] \<and> e = unknown_stage_prefix @ n) \<and>
         error r = PNone)) \<and>
   (n \<notin> set (map ascii stage_names) \<longrightarrow>
      run_stages float_repr other (PStr n # rest) st =
        run_stages float_repr other rest (add_error st (unknown_stage_prefix @ n)))"
proof (intro conjI impI)
  assume a: "dict_get rc ''stages'' = Some (PList fast_track_stages)"
  note ex = execute_fast_track [OF a]
  have len: "10 < length (simple_reasoning_prefix @ strip q)"
    by (simp add: simple_reasoning_prefix_length)
  have c: "\<exists>c. result_confidence (execute_pipeline float_repr other q rc ctx t_state t0 t1) = PFloat c
             \<and> 0 < c"
    by (rule exI [of _ "7 / 10"]) (simp add: ex(2))
  have s: "\<exists>s. response (execute_pipeline float_repr other q rc ctx t_state t0 t1) = PStr s
             \<and> 10 < length s"
    by (rule exI [of _ "simple_reasoning_prefix @ strip q"]) (simp only: ex(3) len simp_thms)
  from c s ex(1) ex(4) show "let r = execute_pipeline float_repr other q rc ctx t_state t0 t1 in
         success r = PBool True \<and>
         (\<exists>c. result_confidence r = PFloat c \<and> 0 < c) \<and>
         (\<exists>s. response r = PStr s \<and> 10 < length s) \<and>
         errors r = PList []"
    unfolding Let_def by blast
next
  assume a: "n \<notin> set (map ascii stage_names) \<and> dict_get rc ''stages'' = Some (PList [PStr n])"
  then have a1: "n \<notin> set (map ascii stage_names)"
    and a2: "dict_get rc ''stages'' = Some (PList [PStr n])" by simp_all
  note ex = execute_unknown_stage [OF a1 a2]
  have "unknown_stage_prefix @ n \<noteq> []" by (simp add: unknown_stage_prefix_def ascii_def)
  with ex show "let r = execute_pipeline float_repr other q rc ctx t_state t0 t1 in
         success r = PBool False \<and>
         (\<exists>e. errors r = PList [PStr e] \<and> e \<noteq> [] \<and> e = unknown_stage_prefix @ n) \<and>
         error r = PNone"
    unfolding Let_def by simp
next
  assume "n \<notin> set (map ascii stage_names)"
  then show "run_stages float_repr other (PStr n # rest) st =
        run_stages float_repr other rest (add_error st (unknown_stage_prefix @ n))"
    by (rule run_stages_unknown)
qed

text \<open>
  The two runs of the repository's pipeline tests: the question of
  \<open>test_simple_pipeline_execution\<close> (eight code points) on the fast-track stages, and
  the empty question on the single stage \<open>invalid_stage\<close>.
\<close>

theorem C2_pipeline_stages_witness:
  "(let r = execute_pipeline (\<lambda>x. []) (\<lambda>name st. Inr st)
              [20160, 20040, 26159, 26426, 22120, 23398, 20064, 65311]
              [(''stages'', PList fast_track_stages),
               (''model_preference'', PStr (ascii ''speed'')), (''timeout'', PFloat 10)]
              [] 0 0 1 in
      success r = PBool True \<and>
      (\<exists>c. result_confidence r = PFloat c \<and> 0 < c) \<and>
      (\<exists>s. response r = PStr s \<and> 10 < length s) \<and>
      errors r = PList []) \<and>
   (let r = execute_pipeline (\<lambda>x. []) (\<lambda>name st. Inr st) []
              [(''stages'', PList [PStr (ascii ''invalid_stage'')]),
               (''model_preference'', PStr (ascii ''speed'')), (''timeout'', PFloat 5)]
              [] 0 0 1 in
      success r = PBool False \<and>
      (\<exists>e. errors r = PList [PStr e] \<and> e \<noteq> [] \<and>
           e = unknown_stage_prefix @ ascii ''invalid_stage'') \<and>
      error r = PNone)"
proof -
  let ?rc1 = "[(''stages'', PList fast_track_stages),
               (''model_preference'', PStr (ascii ''speed'')), (''timeout'', PFloat 10)]"
  let ?rc2 = "[(''stages'', PList [PStr (ascii ''invalid_stage'')]),
               (''model_preference'', PStr (ascii ''speed'')), (''timeout'', PFloat 5)]"
  have h1: "dict_get ?rc1 ''stages'' = Some (PList fast_track_stages)" by simp
  have h2: "ascii ''invalid_stage'' \<notin> set (map ascii stage_names)"
    by (simp add: stage_names_def ascii_eq_iff)
  have h3: "dict_get ?rc2 ''stages'' = Some (PList [PStr (ascii ''invalid_stage'')])" by simp
  from C2_pipeline_stages [where rc = ?rc1] h1
  have a: "let r = execute_pipeline (\<lambda>x. []) (\<lambda>name st. Inr st)
              [20160, 20040, 26159, 26426, 22120, 23398, 20064, 65311] ?rc1 [] 0 0 1 in
      success r = PBool True \<and>
      (\<exists>c. result_confidence r = PFloat c \<and> 0 < c) \<and>
      (\<exists>s. response r = PStr s \<and> 10 < length s) \<and>
      errors r = PList []"
    by blast
  from C2_pipeline_stages [where rc = ?rc2 and n = "ascii ''invalid_stage''"] h2 h3
  have b: "let r = execute_pipeline (\<lambda>x. []) (\<lambda>name st. Inr st) [] ?rc2 [] 0 0 1 in
      success r = PBool False \<and>
      (\<exists>e. errors r = PList [PStr e] \<and> e \<noteq> [] \<and>
           e = unknown_stage_prefix @ ascii ''invalid_stage'') \<and>
      error r = PNone"
    by blast
  from a b show ?thesis by (rule conjI)
qed

section \<open>The classifier: strategy selection\<close>

text \<open>
  On an analysis whose \<open>urgency\<close> entry is the \<open>str\<close> itself, \<open>_determine_strategy\<close>
  selects in the order the specification gives.
\<close>

lemma determine_strategy_on_str_urgency:
  assumes "dict_get ar ''complexity'' = Some (PInt c)"
    and "dict_get ar ''urgency'' = Some (PStr (ascii u))"
    and "dict_get ar ''tool_needs'' = Some (PDict tn)"
    and "dict_get tn ''required'' = Some (PBool req)"
  shows "determine_strategy ar =
     Inr (if u = ''high'' \<and> c \<le> 2 then ''fast_track''
          else if c \<ge> 4 then ''comprehensive''
          else if req then ''tool_assisted''
          else ''standard'')"
  using assms
  by (simp add: determine_strategy_def bind_err_def dict_getitem_def getitem_def py_le_def
      py_ge_def ascii_eq_iff)

text \<open>What \<open>UrgencyAnalyzer.analyze\<close> returns is a mapping, whatever the question.\<close>

lemma urgency_analysis_is_mapping:
  "UrgencyAnalyzer_analyze ua q \<noteq> PStr s"
  by (simp add: UrgencyAnalyzer_analyze_def Let_def)

lemma urgency_analysis_level:
  "getitem (UrgencyAnalyzer_analyze ua q) ''urgency_level'' =
     Inr (PStr (ascii (calculate_overall_urgency ua (calculate_urgency_scores ua q)
       (analyze_time_sensitivity ua q) (analyze_action_type ua q)
       (analyze_context_urgency ua q))))"
  by (simp add: UrgencyAnalyzer_analyze_def Let_def getitem_def dict_getitem_def)

lemma classify_question_strategy:
  assumes "classify_question az q uc h = Inr rd"
  shows "\<exists>required.
     getitem (tool_requirement_analyzer az q) ''required'' = Inr required \<and>
     dict_get rd ''recommended_strategy'' =
       Some (PStr (ascii (if complexity_analyzer az q \<ge> 4 then ''comprehensive''
                          else if truthy required then ''tool_assisted''
                          else ''standard'')))"
proof -
  let ?ar = "[(''complexity'', PInt (complexity_analyzer az q)),
        (''domain'', domain_analyzer az q),
        (''urgency'', UrgencyAnalyzer_analyze (urgency_analyzer az) q),
        (''tool_needs'', tool_requirement_analyzer az q),
        (''freshness_need'', freshness_analyzer az q),
        (''user_profile'', user_context_analyzer az uc h)]"
  from assms have s: "synthesize_routing_decision ?ar = Inr rd"
    by (simp add: classify_question_def)
  from s obtain required where
    req: "getitem (tool_requirement_analyzer az q) ''required'' = Inr required"
    by (auto simp: synthesize_routing_decision_def bind_err_def dict_getitem_def
        split: sum.splits)
  have d: "determine_strategy ?ar =
      Inr (if complexity_analyzer az q \<ge> 4 then ''comprehensive''
           else if truthy required then ''tool_assisted'' else ''standard'')"
    using req urgency_analysis_is_mapping [of "urgency_analyzer az" q "ascii ''high''"]
    by (simp add: determine_strategy_def bind_err_def dict_getitem_def py_ge_def)
  from s req d have "dict_get rd ''recommended_strategy'' =
       Some (PStr (ascii (if complexity_analyzer az q \<ge> 4 then ''comprehensive''
                          else if truthy required then ''tool_assisted''
                          else ''standard'')))"
    by (auto simp: synthesize_routing_decision_def bind_err_def dict_getitem_def
        split: sum.splits)
  with req show ?thesis by blast
qed

text \<open>
  C1, as the code has it. When the urgency analysis of a question is \<open>high\<close> and its
  complexity is at most 2, the routing decision of \<open>classify_question\<close> does not
  recommend \<open>fast_track\<close>: it recommends \<open>tool_assisted\<close> when tools are required and
  \<open>standard\<close> otherwise. The \<open>urgency\<close> entry that \<open>_determine_strategy\<close> compares with
  \<open>'high'\<close> is the whole mapping returned by the urgency analyzer, whose
  \<open>urgency_level\<close> entry is \<open>'high'\<close>.
\<close>

theorem C1_urgent_simple_question_is_not_fast_tracked:
  assumes "calculate_overall_urgency (urgency_analyzer az)
             (calculate_urgency_scores (urgency_analyzer az) q)
             (analyze_time_sensitivity (urgency_analyzer az) q)
             (analyze_action_type (urgency_analyzer az) q)
             (analyze_context_urgency (urgency_analyzer az) q) = ''high''"
    and "complexity_analyzer az q \<le> 2"
    and "classify_question az q uc h = Inr rd"
  shows "getitem (UrgencyAnalyzer_analyze (urgency_analyzer az) q) ''urgency_level'' =
           Inr (PStr (ascii ''high'')) \<and>
         dict_get rd ''complexity_level'' = Some (PInt (complexity_analyzer az q)) \<and>
         dict_get rd ''recommended_strategy'' \<noteq> Some (PStr (ascii ''fast_track'')) \<and>
         (\<exists>required.
            getitem (tool_requirement_analyzer az q) ''required'' = Inr required \<and>
            dict_get rd ''recommended_strategy'' =
              Some (PStr (ascii (if truthy required then ''tool_assisted'' else ''standard''))))"
proof -
  from classify_question_strategy [OF assms(3)] obtain required where
    req: "getitem (tool_requirement_analyzer az q) ''required'' = Inr required" and
    st: "dict_get rd ''recommended_strategy'' =
       Some (PStr (ascii (if complexity_analyzer az q \<ge> 4 then ''comprehensive''
                          else if truthy required then ''tool_assisted''
                          else ''standard'')))"
    by blast
  from assms(2) st have st': "dict_get rd ''recommended_strategy'' =
       Some (PStr (ascii (if truthy required then ''tool_assisted'' else ''standard'')))"
    by simp
  then have nf: "dict_get rd ''recommended_strategy'' \<noteq> Some (PStr (ascii ''fast_track''))"
    by (simp add: ascii_eq_iff)
  have lvl: "getitem (UrgencyAnalyzer_analyze (urgency_analyzer az) q) ''urgency_level'' =
           Inr (PStr (ascii ''high''))"
    by (simp add: urgency_analysis_level assms(1))
  from assms(3) have cl: "dict_get rd ''complexity_level'' = Some (PInt (complexity_analyzer az q))"
    by (auto simp: classify_question_def synthesize_routing_decision_def bind_err_def
        dict_getitem_def split: sum.splits)
  from lvl cl nf req st' show ?thesis by blast
qed

text \<open>
  The urgent and simple question, with an empty user context and history: the urgency
  level in the decision is the analyzer's mapping with \<open>urgency_level = 'high'\<close>, the
  complexity level is 0, and the recommended strategy is \<open>standard\<close>.
\<close>

theorem C1_urgent_simple_question_is_not_fast_tracked_witness:
  "\<forall>domain requires_fresh expertise.
     (\<exists>rd. classify_question (urgent_question_analyzers domain requires_fresh expertise)
             urgent_question [] [] = Inr rd \<and>
           getitem (UrgencyAnalyzer_analyze urgent_question_urgency urgent_question)
             ''urgency_level'' = Inr (PStr (ascii ''high'')) \<and>
           dict_get rd ''complexity_level'' = Some (PInt 0) \<and>
           dict_get rd ''recommended_strategy'' \<noteq> Some (PStr (ascii ''fast_track'')) \<and>
           dict_get rd ''recommended_strategy'' = Some (PStr (ascii ''standard'')))"
proof (intro allI)
  fix domain requires_fresh expertise
  let ?az = "urgent_question_analyzers domain requires_fresh expertise"
  have ua: "urgency_analyzer ?az = urgent_question_urgency"
    and ca: "complexity_analyzer ?az urgent_question = 0"
    and ta: "tool_requirement_analyzer ?az urgent_question =
               PDict [(''required'', PBool False), (''tools'', PList [])]"
    by (simp_all add: urgent_question_analyzers_def)
  have h1: "calculate_overall_urgency (urgency_analyzer ?az)
             (calculate_urgency_scores (urgency_analyzer ?az) urgent_question)
             (analyze_time_sensitivity (urgency_analyzer ?az) urgent_question)
             (analyze_action_type (urgency_analyzer ?az) urgent_question)
             (analyze_context_urgency (urgency_analyzer ?az) urgent_question) = ''high''"
    by (simp add: ua urgent_question_urgency_def)
  have h2: "complexity_analyzer ?az urgent_question \<le> 2" by (simp add: ca)
  obtain rd where h3: "classify_question ?az urgent_question [] [] = Inr rd"
    by (simp add: classify_question_def synthesize_routing_decision_def determine_strategy_def
        bind_err_def dict_getitem_def getitem_def py_ge_def urgent_question_analyzers_def
        UrgencyAnalyzer_analyze_def Let_def)
  note c1 = C1_urgent_simple_question_is_not_fast_tracked [OF h1 h2 h3]
  from c1 have lvl: "getitem (UrgencyAnalyzer_analyze urgent_question_urgency urgent_question)
             ''urgency_level'' = Inr (PStr (ascii ''high''))"
    by (simp only: ua)
  from c1 have cl: "dict_get rd ''complexity_level'' = Some (PInt 0)"
    by (simp only: ca)
  from c1 have nf: "dict_get rd ''recommended_strategy'' \<noteq> Some (PStr (ascii ''fast_track''))"
    by blast
  from c1 obtain required where
    req: "getitem (tool_requirement_analyzer ?az urgent_question) ''required'' = Inr required"
    and st: "dict_get rd ''recommended_strategy'' =
              Some (PStr (ascii (if truthy required then ''tool_assisted'' else ''standard'')))"
    by blast
  from req have "required = PBool False"
    by (simp add: ta getitem_def dict_getitem_def)
  with st have st': "dict_get rd ''recommended_strategy'' = Some (PStr (ascii ''standard''))"
    by simp
  from lvl cl nf st'
  have "getitem (UrgencyAnalyzer_analyze urgent_question_urgency urgent_question)
             ''urgency_level'' = Inr (PStr (ascii ''high'')) \<and>
        dict_get rd ''complexity_level'' = Some (PInt 0) \<and>
        dict_get rd ''recommended_strategy'' \<noteq> Some (PStr (ascii ''fast_track'')) \<and>
        dict_get rd ''recommended_strategy'' = Some (PStr (ascii ''standard''))"
    by blast
  with h3 show "\<exists>rd. classify_question ?az urgent_question [] [] = Inr rd \<and>
           getitem (UrgencyAnalyzer_analyze urgent_question_urgency urgent_question)
             ''urgency_level'' = Inr (PStr (ascii ''high'')) \<and>
           dict_get rd ''complexity_level'' = Some (PInt 0) \<and>
           dict_get rd ''recommended_strategy'' \<noteq> Some (PStr (ascii ''fast_track'')) \<and>
           dict_get rd ''recommended_strategy'' = Some (PStr (ascii ''standard''))"
    by blast
qed

section \<open>The scheduler's audit record: resource consumption and cost\<close>

lemma cost_rate_of_preference:
  "pref \<in> {''speed'', ''balanced'', ''quality''} \<Longrightarrow> cost_rate (PStr (ascii pref)) = Inr (1 / 1000)"
  by (auto simp: cost_per_second_def ascii_eq_iff)

lemma cost_rate_of_model_name:
  "cost_rate (PStr (ascii ''qwen-turbo'')) = Inr (1 / 1000)"
  "cost_rate (PStr (ascii ''qwen-plus'')) = Inr (2 / 1000)"
  "cost_rate (PStr (ascii ''qwen-max'')) = Inr (5 / 1000)"
  by (simp_all add: cost_per_second_def ascii_eq_iff)

lemma resource_consumption_formula:
  assumes "dict_get route ''stages'' = Some (PList stage_list)"
    and "dict_get route ''parallel_execution'' = Some (PBool par)"
  shows "calculate_resource_consumption route =
           Inr (of_nat (length stage_list) * (1 / 10) * (if par then 13 / 10 else 1))"
  using assms
  by (simp add: calculate_resource_consumption_def bind_err_def dict_get_default_def Let_def)

lemma cost_of_router_route:
  assumes "dict_get route ''model_preference'' = Some (PStr (ascii pref))"
    and "pref \<in> {''speed'', ''balanced'', ''quality''}"
  shows "calculate_cost route t = Inr (1 / 1000 * t)"
  using assms(1) cost_rate_of_preference [OF assms(2)]
  by (simp add: calculate_cost_def bind_err_def dict_get_default_def Let_def)

text \<open>
  C5, as the code has it. For a route as the router builds it (a stage list, a
  parallelism flag and one of the preferences \<open>speed\<close>, \<open>balanced\<close>, \<open>quality\<close>) the
  audit record has resource consumption \<open>0.1 * stage_count\<close>, times 1.3 when parallel,
  and cost \<open>0.001 * processing_time\<close> whichever model the route selected: the rate table
  is keyed by model name and is looked up with the preference.
\<close>

theorem C5_audit_record_cost_is_flat:
  assumes "dict_get route ''stages'' = Some (PList stage_list)"
    and "dict_get route ''parallel_execution'' = Some (PBool par)"
    and "dict_get route ''model_preference'' = Some (PStr (ascii pref))"
    and "pref \<in> {''speed'', ''balanced'', ''quality''}"
  shows "\<exists>d. create_interaction_data q cls route res t = Inr d \<and>
           resource_consumption d =
             of_nat (length stage_list) * (1 / 10) * (if par then 13 / 10 else 1) \<and>
           total_steps d = length stage_list \<and>
           cost_per_interaction d = 1 / 1000 * t"
  using assms(1) resource_consumption_formula [OF assms(1,2)]
    cost_of_router_route [OF assms(3,4), of t]
  by (simp add: create_interaction_data_def bind_err_def dict_get_default_def)

text \<open>
  The comprehensive route, whose selected model is \<open>qwen-max\<close> (rate 0.005), after 2
  seconds: resource consumption 0.65 and cost 0.002, not 0.010.
\<close>

theorem C5_audit_record_cost_is_flat_witness:
  "select_model ''quality'' 5 = ''qwen-max'' \<and>
   dict_get cost_per_second (select_model ''quality'' 5) = Some (5 / 1000) \<and>
   (\<exists>d. create_interaction_data (ascii ''question'') [] comprehensive_route ProcessingResult_new 2 = Inr d \<and>
        resource_consumption d = 65 / 100 \<and>
        total_steps d = 5 \<and>
        cost_per_interaction d = 2 / 1000 \<and>
        cost_per_interaction d \<noteq> 5 / 1000 * 2)"
proof -
  let ?stages = "map (\<lambda>s. PStr (ascii s))
         [''preprocessing'', ''multi_source_retrieval'', ''tool_orchestration'',
          ''advanced_reasoning'', ''multi_stage_validation'']"
  have h1: "dict_get comprehensive_route ''stages'' = Some (PList ?stages)"
    and h2: "dict_get comprehensive_route ''parallel_execution'' = Some (PBool True)"
    and h3: "dict_get comprehensive_route ''model_preference'' = Some (PStr (ascii ''quality''))"
    by (simp_all add: comprehensive_route_def)
  have h4: "''quality'' \<in> {''speed'', ''balanced'', ''quality''}" by simp
  from C5_audit_record_cost_is_flat [OF h1 h2 h3 h4, of "ascii ''question''" "[]" ProcessingResult_new 2]
  obtain d where d: "create_interaction_data (ascii ''question'') [] comprehensive_route ProcessingResult_new 2 = Inr d"
    and rc: "resource_consumption d = of_nat (length ?stages) * (1 / 10) * (13 / 10)"
    and ts: "total_steps d = length ?stages"
    and c: "cost_per_interaction d = 1 / 1000 * 2"
    by auto
  from rc have rc': "resource_consumption d = 65 / 100" by simp
  from ts have ts': "total_steps d = 5" by simp
  from c have c': "cost_per_interaction d = 2 / 1000" "cost_per_interaction d \<noteq> 5 / 1000 * 2"
    by simp_all
  have m: "select_model ''quality'' 5 = ''qwen-max''"
    "dict_get cost_per_second (select_model ''quality'' 5) = Some (5 / 1000)"
    by (simp_all add: select_model_def cost_per_second_def)
  from m d rc' ts' c' show ?thesis by blast
qed

section \<open>The calculator: unit conversion\<close>

lemma convert_in_None_iff:
  "(convert_in cats from_u to_u v = None) =
     (\<not> list_ex (\<lambda>(cat, units). from_u \<in> set (dict_keys units) \<and> to_u \<in> set (dict_keys units))
          cats)"
proof (induction cats)
  case Nil
  show ?case by simp
next
  case (Cons p cats)
  obtain cat units where p: "p = (cat, units)" by (cases p)
  show ?case
  proof (cases "dict_get units from_u")
    case None
    then have "from_u \<notin> set (dict_keys units)"
      using dict_get_None_iff [of units from_u] by simp
    with None p Cons.IH show ?thesis by simp
  next
    case f: (Some ff)
    show ?thesis
    proof (cases "dict_get units to_u")
      case None
      then have "to_u \<notin> set (dict_keys units)"
        using dict_get_None_iff [of units to_u] by simp
      with None p f Cons.IH show ?thesis by simp
    next
      case (Some tf)
      from f have "from_u \<in> set (dict_keys units)"
        using dict_get_None_iff [of units from_u] by simp
      moreover from Some have "to_u \<in> set (dict_keys units)"
        using dict_get_None_iff [of units to_u] by simp
      ultimately show ?thesis using p f Some by simp
    qed
  qed
qed

lemma unsupported_conversion:
  assumes "\<not> same_category from_u to_u" and "to_float expression = Some v"
  shows "unit_conversion to_float expression from_u to_u =
           Inl (ValueError (unsupported_message from_u to_u))"
proof -
  from assms(1) have "convert_in conversion_factors from_u to_u v = None"
    by (simp add: convert_in_None_iff same_category_def)
  with assms(2) show ?thesis by (simp add: unit_conversion_def)
qed

lemma other_category_is_error:
  assumes "\<not> same_category from_u to_u"
  shows "\<exists>e. unit_conversion to_float expression from_u to_u = Inl e"
proof (cases "to_float expression")
  case None
  then show ?thesis by (simp add: unit_conversion_def)
next
  case (Some v)
  from unsupported_conversion [of from_u to_u to_float expression v, OF assms Some]
  show ?thesis by blast
qed

lemma km_to_m:
  "to_float expression = Some 100 \<Longrightarrow>
   unit_conversion to_float expression ''km'' ''m'' =
     Inr \<lparr>converted_value = 100000, original_value = 100, from_unit = ''km'', to_unit = ''m'',
          category = ''length''\<rparr>"
  by (simp add: unit_conversion_def conversion_factors_def bind_err_def)

lemma fahrenheit_to_celsius:
  "to_float expression = Some 32 \<Longrightarrow>
   unit_conversion to_float expression ''fahrenheit'' ''celsius'' =
     Inr \<lparr>converted_value = 0, original_value = 32, from_unit = ''fahrenheit'',
          to_unit = ''celsius'', category = ''temperature''\<rparr>"
  by (simp add: unit_conversion_def conversion_factors_def bind_err_def
      temperature_conversion_def)

text \<open>
  C7. Converting the value 100 from \<open>km\<close> to \<open>m\<close> gives exactly 100000, and 32 from
  \<open>fahrenheit\<close> to \<open>celsius\<close> gives exactly 0. For two units that no category table
  holds together, the tool returns no value but an error result: for a numeric
  expression its text is \<open>Unsupported unit conversion: from to to\<close>.
\<close>

theorem C7_unit_conversion:
  "(to_float expression = Some 100 \<longrightarrow>
      (let out = execute_unit_conversion to_float expression ''km'' ''m'' in
         map_option converted_value (out_result out) = Some 100000 \<and>
         map_option category (out_result out) = Some ''length'' \<and>
         out_status out = ''success'')) \<and>
   (to_float expression = Some 32 \<longrightarrow>
      (let out = execute_unit_conversion to_float expression ''fahrenheit'' ''celsius'' in
         map_option converted_value (out_result out) = Some 0 \<and>
         map_option category (out_result out) = Some ''temperature'' \<and>
         out_status out = ''success'')) \<and>
   (\<not> same_category from_u to_u \<longrightarrow>
      (let out = execute_unit_conversion to_float expression from_u to_u in
         out_result out = None \<and> out_status out = ''error'' \<and> out_error out \<noteq> None \<and>
         (to_float expression \<noteq> None \<longrightarrow>
            unit_conversion to_float expression from_u to_u =
              Inl (ValueError (unsupported_message from_u to_u)) \<and>
            out_error out = Some (unsupported_message from_u to_u))))"
proof (intro conjI impI)
  assume "to_float expression = Some 100"
  from km_to_m [of to_float expression, OF this]
  show "let out = execute_unit_conversion to_float expression ''km'' ''m'' in
         map_option converted_value (out_result out) = Some 100000 \<and>
         map_option category (out_result out) = Some ''length'' \<and>
         out_status out = ''success''"
    by (simp add: execute_unit_conversion_def)
next
  assume "to_float expression = Some 32"
  from fahrenheit_to_celsius [of to_float expression, OF this]
  show "let out = execute_unit_conversion to_float expression ''fahrenheit'' ''celsius'' in
         map_option converted_value (out_result out) = Some 0 \<and>
         map_option category (out_result out) = Some ''temperature'' \<and>
         out_status out = ''success''"
    by (simp add: execute_unit_conversion_def)
next
  assume ns: "\<not> same_category from_u to_u"
  from other_category_is_error [OF ns, of to_float expression] obtain e where
    e: "unit_conversion to_float expression from_u to_u = Inl e" by blast
  have a: "out_result (execute_unit_conversion to_float expression from_u to_u) = None"
    and b: "out_status (execute_unit_conversion to_float expression from_u to_u) = ''error''"
    and c: "out_error (execute_unit_conversion to_float expression from_u to_u) \<noteq> None"
    by (simp_all add: execute_unit_conversion_def e)
  have d: "to_float expression \<noteq> None \<longrightarrow>
            unit_conversion to_float expression from_u to_u =
              Inl (ValueError (unsupported_message from_u to_u)) \<and>
            out_error (execute_unit_conversion to_float expression from_u to_u) =
              Some (unsupported_message from_u to_u)"
  proof
    assume "to_float expression \<noteq> None"
    then obtain v where "to_float expression = Some v" by blast
    from unsupported_conversion [of from_u to_u to_float expression v, OF ns this]
    show "unit_conversion to_float expression from_u to_u =
              Inl (ValueError (unsupported_message from_u to_u)) \<and>
          out_error (execute_unit_conversion to_float expression from_u to_u) =
              Some (unsupported_message from_u to_u)"
      by (simp add: execute_unit_conversion_def)
  qed
  from a b c d
  show "let out = execute_unit_conversion to_float expression from_u to_u in
         out_result out = None \<and> out_status out = ''error'' \<and> out_error out \<noteq> None \<and>
         (to_float expression \<noteq> None \<longrightarrow>
            unit_conversion to_float expression from_u to_u =
              Inl (ValueError (unsupported_message from_u to_u)) \<and>
            out_error out = Some (unsupported_message from_u to_u))"
    unfolding Let_def by blast
qed

text \<open>The two conversions above, and \<open>km\<close> to \<open>kg\<close>, which no table holds together.\<close>

theorem C7_unit_conversion_witness:
  "map_option converted_value
     (out_result (execute_unit_conversion float_of_examples (ascii ''100'') ''km'' ''m'')) =
     Some 100000 \<and>
   map_option converted_value
     (out_result (execute_unit_conversion float_of_examples (ascii ''32'') ''fahrenheit''
        ''celsius'')) = Some 0 \<and>
   \<not> same_category ''km'' ''kg'' \<and>
   out_result (execute_unit_conversion float_of_examples (ascii ''100'') ''km'' ''kg'') = None \<and>
   out_status (execute_unit_conversion float_of_examples (ascii ''100'') ''km'' ''kg'') = ''error'' \<and>
   out_error (execute_unit_conversion float_of_examples (ascii ''100'') ''km'' ''kg'') =
     Some (ascii ''Unsupported unit conversion: km to kg'')"
proof -
  have f100: "float_of_examples (ascii ''100'') = Some 100"
    by (simp add: float_of_examples_def)
  have f32: "float_of_examples (ascii ''32'') = Some 32"
    by (simp add: float_of_examples_def ascii_eq_iff)
  have ns: "\<not> same_category ''km'' ''kg''"
    by (simp add: same_category_def conversion_factors_def dict_keys_def)
  have ne: "float_of_examples (ascii ''100'') \<noteq> None" by (simp add: f100)
  from C7_unit_conversion [of float_of_examples "ascii ''100''" "''km''" "''kg''"] f100 ns ne
  have a: "map_option converted_value
     (out_result (execute_unit_conversion float_of_examples (ascii ''100'') ''km'' ''m'')) =
     Some 100000"
    and c: "out_result (execute_unit_conversion float_of_examples (ascii ''100'') ''km'' ''kg'') =
      None"
    and d: "out_status (execute_unit_conversion float_of_examples (ascii ''100'') ''km'' ''kg'') =
      ''error''"
    and e: "out_error (execute_unit_conversion float_of_examples (ascii ''100'') ''km'' ''kg'') =
      Some (unsupported_message ''km'' ''kg'')"
    unfolding Let_def by blast+
  from C7_unit_conversion [of float_of_examples "ascii ''32''"] f32
  have b: "map_option converted_value
     (out_result (execute_unit_conversion float_of_examples (ascii ''32'') ''fahrenheit''
        ''celsius'')) = Some 0"
    unfolding Let_def by blast
  have m: "unsupported_message ''km'' ''kg'' = ascii ''Unsupported unit conversion: km to kg''"
    by (simp add: unsupported_message_def)
  from a b ns c d e m show ?thesis by simp
qed

section \<open>The memory cache: expiry\<close>

lemma dict_del_absent: "k \<notin> set (dict_keys (dict_del d k))"
  by (auto simp: dict_del_def dict_keys_def)

lemma dict_get_del_same: "dict_get (dict_del d k) k = None"
  by (induction d) (auto simp: dict_del_def)

lemma dict_set_key_present: "k \<in> set (dict_keys (dict_set d k v))"
  using dict_keys_set [of d k v] by (simp add: dict_keys_def)

lemma cache_set_stores:
  "dict_get (cache (cache_set c k v ttl now)) k = Some v"
  "k \<in> set (dict_keys (cache (cache_set c k v ttl now)))"
  "dict_get (expiry_times (cache_set c k v ttl now)) k =
     Some (now + of_int (ttl_or_default ttl (default_ttl c)))"
  by (simp_all add: cache_set_def Let_def dict_get_set_same dict_set_key_present)

text \<open>An entry whose expiry lies in the past is absent on \<open>get\<close> and is removed by it.\<close>

lemma expired_entry_is_absent_and_removed:
  assumes "k \<in> set (dict_keys (cache c))"
    and "dict_get (expiry_times c) k = Some expiry"
    and "expiry < t"
  shows "fst (cache_get c k t t') = None"
    and "k \<notin> set (dict_keys (cache (snd (cache_get c k t t'))))"
    and "dict_get (expiry_times (snd (cache_get c k t t'))) k = None"
    and "dict_get (access_times (snd (cache_get c k t t'))) k = None"
  using assms
  by (simp_all add: cache_get_def is_expired_def cache_delete_def dict_del_absent
      dict_get_del_same)

text \<open>A negative TTL puts the expiry in the past: the next \<open>get\<close> does not find the key.\<close>

lemma negative_ttl_is_absent:
  assumes "ttl < 0" and "now \<le> t"
  shows "fst (cache_get (cache_set c k v (Some ttl) now) k t t') = None"
proof -
  let ?c = "cache_set c k v (Some ttl) now"
  from assms(1) have e: "dict_get (expiry_times ?c) k = Some (now + of_int ttl)"
    by (simp add: cache_set_stores ttl_or_default_def)
  from assms have "now + of_int ttl < t" by simp
  from expired_entry_is_absent_and_removed(1) [OF cache_set_stores(2) e this]
  show ?thesis .
qed

text \<open>
  C4, as the code has it. A key set with TTL 0 gets the default TTL: with a positive
  default, \<open>get\<close> returns the value at every time up to \<open>default_ttl\<close> seconds after the
  \<open>set\<close>, and the entry stays in the cache.
\<close>

theorem C4_ttl_zero_is_default_ttl:
  assumes "0 < default_ttl c" and "now \<le> t" and "t \<le> now + of_int (default_ttl c)"
  shows "fst (cache_get (cache_set c k v (Some 0) now) k t t') = Some v \<and>
         k \<in> set (dict_keys (cache (snd (cache_get (cache_set c k v (Some 0) now) k t t')))) \<and>
         dict_get (expiry_times (cache_set c k v (Some 0) now)) k =
           Some (now + of_int (default_ttl c))"
proof -
  let ?c = "cache_set c k v (Some 0) now"
  have e: "dict_get (expiry_times ?c) k = Some (now + of_int (default_ttl c))"
    by (simp add: cache_set_stores ttl_or_default_def)
  from e assms(3) have ne: "\<not> is_expired ?c k t" by (simp add: is_expired_def)
  from ne show ?thesis
    by (simp add: cache_get_def cache_set_stores(1,2) e dict_set_key_present)
qed

text \<open>
  A memory tier of size 500 with the default TTL of 3600 seconds: \<open>set\<close> with TTL 0 at
  time 1000, \<open>get\<close> one second later.
\<close>

theorem C4_ttl_zero_is_default_ttl_witness:
  "fst (cache_get
          (cache_set (MemoryCache_new 500 3600) ''k'' ''v'' (Some 0) 1000) ''k'' 1001 1001)
     = Some ''v''"
proof -
  let ?c = "MemoryCache_new 500 3600 :: (string, string) MemoryCache"
  have h1: "0 < default_ttl ?c" by (simp add: MemoryCache_new_def)
  have h2: "(1000::rat) \<le> 1001" by simp
  have h3: "(1001::rat) \<le> 1000 + of_int (default_ttl ?c)" by (simp add: MemoryCache_new_def)
  from C4_ttl_zero_is_default_ttl [OF h1 h2 h3] show ?thesis by blast
qed

section \<open>ProcessingRoute: a copy is independent of its original\<close>

lemma valid_routeE:
  assumes "valid_route h r"
  obtains x ss d where "r < length h" "h ! r = RouteObj x"
    "stages x < length h" "h ! stages x = ListObj ss"
    "route_context x < length h" "h ! route_context x = DictObj d"
    "view h r = Some (ss, parallel_execution x, timeout x, model_preference x, d)"
    "footprint h r = {r, stages x, route_context x}"
  using assms
  by (auto simp: valid_route_def view_def get_route_def get_list_def get_dict_def heap_get_def
      footprint_def split: option.splits obj.splits if_splits)

lemma footprint_below:
  assumes "valid_route h r" shows "\<forall>b \<in> footprint h r. b < length h"
  using assms by (rule valid_routeE) simp

lemma view_frame:
  assumes "valid_route h r" and "length h \<le> length h'"
    and "\<forall>b \<in> footprint h r. h' ! b = h ! b"
  shows "view h' r = view h r" and "footprint h' r = footprint h r" and "valid_route h' r"
proof -
  from assms(1) obtain x ss d where
    f: "r < length h" "h ! r = RouteObj x"
    "stages x < length h" "h ! stages x = ListObj ss"
    "route_context x < length h" "h ! route_context x = DictObj d"
    "view h r = Some (ss, parallel_execution x, timeout x, model_preference x, d)"
    "footprint h r = {r, stages x, route_context x}"
    by (rule valid_routeE)
  from assms(3) f have g: "h' ! r = RouteObj x" "h' ! stages x = ListObj ss"
    "h' ! route_context x = DictObj d" by simp_all
  from f g assms(2) show v: "view h' r = view h r"
    by (simp add: view_def get_route_def get_list_def get_dict_def heap_get_def)
  from f g assms(2) show "footprint h' r = footprint h r"
    by (simp add: footprint_def get_route_def heap_get_def)
  from v assms(1) show "valid_route h' r" by (simp add: valid_route_def)
qed

lemma heap_extends_nth: "heap_extends h h' \<Longrightarrow> b < length h \<Longrightarrow> h' ! b = h ! b"
  unfolding heap_extends_def by (metis nth_take)

lemma heap_extends_refl: "heap_extends h h"
  by (simp add: heap_extends_def)

lemma heap_extends_trans:
  assumes "heap_extends h1 h2" and "heap_extends h2 h3"
  shows "heap_extends h1 h3"
proof -
  from assms have l: "length h1 \<le> length h2" "length h2 \<le> length h3"
    by (simp_all add: heap_extends_def)
  have "take (length h1) h3 = take (length h1) (take (length h2) h3)"
    using l by (simp add: min_def)
  also have "\<dots> = take (length h1) h2" using assms(2) by (simp add: heap_extends_def)
  also have "\<dots> = h1" using assms(1) by (simp add: heap_extends_def)
  finally show ?thesis using l by (simp add: heap_extends_def)
qed

lemma heap_extendsI:
  assumes "length h \<le> length h'" and "\<forall>b < length h. h' ! b = h ! b"
  shows "heap_extends h h'"
  using assms unfolding heap_extends_def
  by (auto intro!: nth_equalityI)

lemma heap_extends_view:
  assumes "heap_extends h h'" and "valid_route h b"
  shows "view h' b = view h b" and "valid_route h' b"
proof -
  from assms(1) have l: "length h \<le> length h'" by (simp add: heap_extends_def)
  from footprint_below [OF assms(2)] heap_extends_nth [OF assms(1)]
  have "\<forall>a \<in> footprint h b. h' ! a = h ! a" by blast
  from view_frame(1,3) [OF assms(2) l this]
  show "view h' b = view h b" and "valid_route h' b" by simp_all
qed

lemma apply_op_effect:
  assumes "valid_route h r"
  shows "\<exists>h'. apply_op h r op = Some h' \<and> length h' = length h \<and>
           (\<forall>b. b \<notin> footprint h r \<longrightarrow> h' ! b = h ! b) \<and>
           footprint h' r = footprint h r \<and> valid_route h' r"
proof -
  from assms obtain x ss d where
    f: "r < length h" "h ! r = RouteObj x"
    "stages x < length h" "h ! stages x = ListObj ss"
    "route_context x < length h" "h ! route_context x = DictObj d"
    "view h r = Some (ss, parallel_execution x, timeout x, model_preference x, d)"
    "footprint h r = {r, stages x, route_context x}"
    by (rule valid_routeE)
  from f have ne: "r \<noteq> stages x" "r \<noteq> route_context x" "stages x \<noteq> route_context x"
    by auto
  show ?thesis
    using f ne
    by (cases op)
       (auto simp: add_stage_def remove_stage_def add_context_def set_field_def
          get_route_def get_list_def get_dict_def heap_get_def footprint_def valid_route_def
          view_def nth_list_update)
qed

lemma apply_ops_effect:
  assumes "valid_route h r"
  shows "\<exists>h'. apply_ops h r ops = Some h' \<and> length h' = length h \<and>
           (\<forall>b. b \<notin> footprint h r \<longrightarrow> h' ! b = h ! b) \<and>
           footprint h' r = footprint h r \<and> valid_route h' r"
  using assms
proof (induction ops arbitrary: h)
  case Nil
  then show ?case by simp
next
  case (Cons op ops)
  from apply_op_effect [OF Cons.prems, of op] obtain h1 where
    s: "apply_op h r op = Some h1" and l: "length h1 = length h"
    and fr: "\<forall>b. b \<notin> footprint h r \<longrightarrow> h1 ! b = h ! b"
    and fa: "footprint h1 r = footprint h r" and va: "valid_route h1 r"
    by blast
  from Cons.IH [OF va] obtain h' where
    "apply_ops h1 r ops = Some h'" "length h' = length h1"
    "\<forall>b. b \<notin> footprint h1 r \<longrightarrow> h' ! b = h1 ! b"
    "footprint h' r = footprint h1 r" "valid_route h' r"
    by blast
  with s l fr fa show ?case by simp
qed

text \<open>Operations on one route leave a route with a disjoint footprint as it is.\<close>

lemma apply_ops_other_route:
  assumes "valid_route h a" and "valid_route h b" and "footprint h a \<inter> footprint h b = {}"
  shows "\<exists>h'. apply_ops h a ops = Some h' \<and> view h' b = view h b \<and>
           valid_route h' a \<and> valid_route h' b"
proof -
  from apply_ops_effect [OF assms(1), of ops] obtain h' where
    s: "apply_ops h a ops = Some h'" and l: "length h' = length h"
    and fr: "\<forall>c. c \<notin> footprint h a \<longrightarrow> h' ! c = h ! c" and va: "valid_route h' a"
    by blast
  from fr assms(3) have "\<forall>c \<in> footprint h b. h' ! c = h ! c" by blast
  from view_frame(1,3) [OF assms(2) _ this] l have "view h' b = view h b" "valid_route h' b"
    by simp_all
  with s va show ?thesis by blast
qed

lemma route_copy_effect:
  assumes "valid_route h r"
  shows "\<exists>c h1. route_copy h r = Some (c, h1) \<and> length h \<le> c \<and> heap_extends h h1 \<and>
           view h1 c = view h r \<and> valid_route h1 c \<and>
           (\<forall>b \<in> footprint h1 c. length h \<le> b)"
proof -
  from assms obtain x ss d where
    f: "r < length h" "h ! r = RouteObj x"
    "stages x < length h" "h ! stages x = ListObj ss"
    "route_context x < length h" "h ! route_context x = DictObj d"
    "view h r = Some (ss, parallel_execution x, timeout x, model_preference x, d)"
    "footprint h r = {r, stages x, route_context x}"
    by (rule valid_routeE)
  show ?thesis
    using f
    by (simp add: route_copy_def new_route_def alloc_def get_route_def get_list_def
        get_dict_def heap_get_def view_def valid_route_def footprint_def nth_append Let_def
        heap_extends_def)
qed

text \<open>A copy, then operations on the copy: the old store is extended.\<close>

lemma copy_then_ops:
  assumes "valid_route h r"
  shows "\<exists>c h1. route_copy h r = Some (c, h1) \<and> length h \<le> c \<and> valid_route h1 c \<and>
           (\<forall>ops. \<exists>h2. apply_ops h1 c ops = Some h2 \<and> heap_extends h h2 \<and>
              valid_route h2 c)"
proof -
  from route_copy_effect [OF assms] obtain c h1 where
    rc: "route_copy h r = Some (c, h1)" and c: "length h \<le> c" and ex: "heap_extends h h1"
    and valc: "valid_route h1 c" and fc: "\<forall>b \<in> footprint h1 c. length h \<le> b"
    by blast
  have "\<forall>ops. \<exists>h2. apply_ops h1 c ops = Some h2 \<and> heap_extends h h2 \<and> valid_route h2 c"
  proof
    fix ops
    from apply_ops_effect [OF valc, of ops] obtain h2 where
      s: "apply_ops h1 c ops = Some h2" and l: "length h2 = length h1"
      and fr: "\<forall>b. b \<notin> footprint h1 c \<longrightarrow> h2 ! b = h1 ! b" and v: "valid_route h2 c"
      by blast
    from ex have l1: "length h \<le> length h1" by (simp add: heap_extends_def)
    have "\<forall>b < length h. h2 ! b = h ! b"
    proof (intro allI impI)
      fix b assume b: "b < length h"
      with fc have "b \<notin> footprint h1 c" by fastforce
      with fr have "h2 ! b = h1 ! b" by blast
      with heap_extends_nth [OF ex b] show "h2 ! b = h ! b" by simp
    qed
    with l l1 have "heap_extends h h2" by (intro heap_extendsI) simp_all
    with s v show "\<exists>h2. apply_ops h1 c ops = Some h2 \<and> heap_extends h h2 \<and> valid_route h2 c"
      by blast
  qed
  with rc c valc show ?thesis by blast
qed


lemma speed_keeps: "keeps_old_routes create_speed_optimized_route"
  unfolding keeps_old_routes_def
proof (intro allI impI)
  fix h :: "'a heap" and base
  assume v: "valid_route h base"
  from copy_then_ops [OF v] obtain c h1 where
    rc: "route_copy h base = Some (c, h1)" and c: "length h \<le> c" and valc: "valid_route h1 c"
    and ops: "\<forall>ops. \<exists>h2. apply_ops h1 c ops = Some h2 \<and> heap_extends h h2 \<and>
              valid_route h2 c"
    by blast
  from valc obtain x where x: "get_route h1 c = Some x"
    by (auto simp: valid_route_def view_def split: option.splits)
  from ops obtain h2 where
    "apply_ops h1 c [SetTimeout (min (timeout x) 10), SetModelPreference ''speed'',
                     RemoveStage ''multi_stage_validation''] = Some h2"
    "heap_extends h h2" "valid_route h2 c"
    by blast
  with rc c x
  show "\<exists>c h'. create_speed_optimized_route h base = Some (c, h') \<and> length h \<le> c \<and>
          heap_extends h h' \<and> valid_route h' c"
    by (simp add: create_speed_optimized_route_def)
qed

lemma quality_keeps: "keeps_old_routes create_quality_optimized_route"
  unfolding keeps_old_routes_def
proof (intro allI impI)
  fix h :: "'a heap" and base
  assume v: "valid_route h base"
  from copy_then_ops [OF v] obtain c h1 where
    rc: "route_copy h base = Some (c, h1)" and c: "length h \<le> c"
    and ops: "\<forall>ops. \<exists>h2. apply_ops h1 c ops = Some h2 \<and> heap_extends h h2 \<and>
              valid_route h2 c"
    by blast
  from ops obtain h2 where
    "apply_ops h1 c [SetModelPreference ''quality'', AddStage ''fact_checking'',
                AddStage ''expert_validation''] = Some h2"
    "heap_extends h h2" "valid_route h2 c"
    by blast
  with rc c
  show "\<exists>c h'. create_quality_optimized_route h base = Some (c, h') \<and> length h \<le> c \<and>
          heap_extends h h' \<and> valid_route h' c"
    by (simp add: create_quality_optimized_route_def)
qed

lemma efficient_keeps: "keeps_old_routes create_resource_efficient_route"
  unfolding keeps_old_routes_def
proof (intro allI impI)
  fix h :: "'a heap" and base
  assume v: "valid_route h base"
  from copy_then_ops [OF v] obtain c h1 where
    rc: "route_copy h base = Some (c, h1)" and c: "length h \<le> c"
    and ops: "\<forall>ops. \<exists>h2. apply_ops h1 c ops = Some h2 \<and> heap_extends h h2 \<and>
              valid_route h2 c"
    by blast
  from ops obtain h2 where
    "apply_ops h1 c [SetParallelExecution False, SetModelPreference ''speed'',
                RemoveStage ''multi_source_retrieval''] = Some h2"
    "heap_extends h h2" "valid_route h2 c"
    by blast
  with rc c
  show "\<exists>c h'. create_resource_efficient_route h base = Some (c, h') \<and> length h \<le> c \<and>
          heap_extends h h' \<and> valid_route h' c"
    by (simp add: create_resource_efficient_route_def)
qed

lemma add_variant_ok:
  assumes "keeps_old_routes variant" and "candidates_ok h base acc"
  shows "candidates_ok h base (add_variant wanted variant base acc)"
proof -
  from assms(2) obtain routes h' where acc: "acc = Some (routes, h')"
    and vb: "valid_route h' base" and ex: "heap_extends h h'"
    and rs: "list_all (\<lambda>r. length h \<le> r \<and> valid_route h' r) routes"
    by (auto simp: candidates_ok_def split: option.splits)
  show ?thesis
  proof (cases wanted)
    case False
    with assms(2) acc show ?thesis by (simp add: add_variant_def)
  next
    case True
    from assms(1) vb obtain c h'' where
      mk: "variant h' base = Some (c, h'')" and c: "length h' \<le> c"
      and ex': "heap_extends h' h''" and vc: "valid_route h'' c"
      unfolding keeps_old_routes_def by blast
    from ex have "length h \<le> length h'" by (simp add: heap_extends_def)
    with c have c': "length h \<le> c" by simp
    from rs have rs': "list_all (\<lambda>r. length h \<le> r \<and> valid_route h'' r) routes"
      using heap_extends_view(2) [OF ex'] by (induction routes) auto
    from heap_extends_view(2) [OF ex' vb] have vb': "valid_route h'' base" .
    from heap_extends_trans [OF ex ex'] have "heap_extends h h''" .
    with True acc mk c' vc rs' vb' show ?thesis
      by (simp add: add_variant_def candidates_ok_def)
  qed
qed

lemma generate_candidate_routes_keeps_template:
  assumes "valid_route h template"
  shows "\<exists>routes h'. generate_candidate_routes h template urgent professional high_load =
             Some (routes, h') \<and>
           view h' template = view h template \<and>
           template \<notin> set routes \<and>
           list_all (valid_route h') routes \<and>
           heap_extends h h'"
proof -
  from route_copy_effect [OF assms] obtain base h1 where
    rc: "route_copy h template = Some (base, h1)" and b: "length h \<le> base"
    and ex: "heap_extends h h1" and vb: "valid_route h1 base"
    by blast
  from b ex vb have c0: "candidates_ok h base (Some ([base], h1))"
    by (simp add: candidates_ok_def)
  let ?acc = "add_variant high_load create_resource_efficient_route base
            (add_variant professional create_quality_optimized_route base
               (add_variant urgent create_speed_optimized_route base
                  (Some ([base], h1))))"
  have "candidates_ok h base ?acc"
    by (intro add_variant_ok speed_keeps quality_keeps efficient_keeps c0)
  then obtain routes h' where acc: "?acc = Some (routes, h')"
    and ex': "heap_extends h h'"
    and rs: "list_all (\<lambda>r. length h \<le> r \<and> valid_route h' r) routes"
    by (auto simp: candidates_ok_def split: option.splits)
  from assms have "template < length h" by (rule valid_routeE)
  with rs have nt: "template \<notin> set routes" by (auto simp: list_all_iff)
  from rs have vr: "list_all (valid_route h') routes" by (auto simp: list_all_iff)
  from heap_extends_view(1) [OF ex' assms] have "view h' template = view h template" .
  with rc acc nt vr ex' show ?thesis by (simp add: generate_candidate_routes_def)
qed

text \<open>
  C8. For every route \<open>r\<close>, \<open>r.copy()\<close> is a new route with the same stage list,
  context mapping, timeout, parallelism flag and model preference, made of a new list
  and a new mapping. Any run of \<open>add_stage\<close>, \<open>remove_stage\<close>, \<open>add_context\<close> and
  assignments to \<open>timeout\<close>, \<open>parallel_execution\<close> and \<open>model_preference\<close> on the copy
  leaves all five of \<open>r\<close> unchanged, and such a run on \<open>r\<close> leaves the copy unchanged.
  The router's candidate routes for a template are all new routes, and the template is
  unchanged after they are built. (The values of the context mapping are not copied;
  none of these operations reaches into a value.)
\<close>

theorem C8_route_copy_is_independent:
  assumes "view h r = Some w"
  shows "\<exists>c h1. route_copy h r = Some (c, h1) \<and> c \<noteq> r \<and>
           view h1 c = Some w \<and> view h1 r = Some w \<and>
           footprint h1 c \<inter> footprint h1 r = {} \<and>
           (\<forall>ops. \<exists>h2. apply_ops h1 c ops = Some h2 \<and> view h2 r = Some w) \<and>
           (\<forall>ops. \<exists>h2. apply_ops h1 r ops = Some h2 \<and> view h2 c = Some w) \<and>
           (\<forall>urgent professional high_load.
              \<exists>routes h2. generate_candidate_routes h r urgent professional high_load =
                  Some (routes, h2) \<and> r \<notin> set routes \<and> view h2 r = Some w)"
proof -
  from assms have v: "valid_route h r" by (simp add: valid_route_def)
  from route_copy_effect [OF v] obtain c h1 where
    rc: "route_copy h r = Some (c, h1)" and c: "length h \<le> c" and ex: "heap_extends h h1"
    and vc: "view h1 c = view h r" and valc: "valid_route h1 c"
    and fc: "\<forall>b \<in> footprint h1 c. length h \<le> b"
    by blast
  from v have rl: "r < length h" by (rule valid_routeE)
  with c have ne: "c \<noteq> r" by simp
  note hv = heap_extends_view [OF ex v]
  from ex have "length h \<le> length h1" by (simp add: heap_extends_def)
  from footprint_below [OF v] heap_extends_nth [OF ex]
  have "\<forall>a \<in> footprint h r. h1 ! a = h ! a" by blast
  from view_frame(2) [OF v \<open>length h \<le> length h1\<close> this]
  have fr: "footprint h1 r = footprint h r" .
  from fc footprint_below [OF v] fr have dj: "footprint h1 c \<inter> footprint h1 r = {}"
    by fastforce
  then have dj': "footprint h1 r \<inter> footprint h1 c = {}" by blast
  have a: "\<forall>ops. \<exists>h2. apply_ops h1 c ops = Some h2 \<and> view h2 r = Some w"
  proof
    fix ops
    from apply_ops_other_route [OF valc hv(2) dj, of ops] hv(1) assms
    show "\<exists>h2. apply_ops h1 c ops = Some h2 \<and> view h2 r = Some w" by auto
  qed
  have b: "\<forall>ops. \<exists>h2. apply_ops h1 r ops = Some h2 \<and> view h2 c = Some w"
  proof
    fix ops
    from apply_ops_other_route [OF hv(2) valc dj', of ops] vc assms
    show "\<exists>h2. apply_ops h1 r ops = Some h2 \<and> view h2 c = Some w" by auto
  qed
  have g: "\<forall>urgent professional high_load.
              \<exists>routes h2. generate_candidate_routes h r urgent professional high_load =
                  Some (routes, h2) \<and> r \<notin> set routes \<and> view h2 r = Some w"
  proof (intro allI)
    fix urgent professional high_load
    from generate_candidate_routes_keeps_template [OF v, of urgent professional high_load] assms
    show "\<exists>routes h2. generate_candidate_routes h r urgent professional high_load =
                  Some (routes, h2) \<and> r \<notin> set routes \<and> view h2 r = Some w"
      by auto
  qed
  from rc ne vc hv(1) assms dj a b g show ?thesis by auto
qed

text \<open>
  The comprehensive template: what the speed variant does to a copy of it, and that the
  template still reads as before.
\<close>

lemma comprehensive_template_view:
  "view (snd comprehensive_template) (fst comprehensive_template) =
     Some ([''preprocessing'', ''multi_source_retrieval'', ''tool_orchestration'',
            ''advanced_reasoning'', ''multi_stage_validation''], True, 30, ''quality'', [])"
  by (simp add: comprehensive_template_def new_route_def alloc_def view_def get_route_def
      get_list_def get_dict_def heap_get_def)

lemma speed_variant_of_template:
  "\<exists>c h'. create_speed_optimized_route (snd comprehensive_template)
             (fst comprehensive_template) = Some (c, h') \<and>
          view h' c =
            Some ([''preprocessing'', ''multi_source_retrieval'', ''tool_orchestration'',
                   ''advanced_reasoning''], True, 10, ''speed'', []) \<and>
          view h' (fst comprehensive_template) =
            view (snd comprehensive_template) (fst comprehensive_template)"
  by (simp add: comprehensive_template_def new_route_def alloc_def view_def get_route_def
      get_list_def get_dict_def heap_get_def create_speed_optimized_route_def route_copy_def
      remove_stage_def set_field_def nth_append)

theorem C8_route_copy_is_independent_witness:
  "\<exists>c h1. route_copy (snd comprehensive_template) (fst comprehensive_template) = Some (c, h1) \<and>
     c \<noteq> fst comprehensive_template \<and>
     (\<exists>h2. apply_ops h1 c
              [SetTimeout 10, SetModelPreference ''speed'',
               RemoveStage ''multi_stage_validation'',
               AddContext ''selected_model'' (PStr (ascii ''qwen-turbo''))] = Some h2 \<and>
           view h2 (fst comprehensive_template) =
             Some ([''preprocessing'', ''multi_source_retrieval'', ''tool_orchestration'',
                    ''advanced_reasoning'', ''multi_stage_validation''], True, 30,
                   ''quality'', []))"
proof -
  from C8_route_copy_is_independent [OF comprehensive_template_view] obtain c h1 where
    rc: "route_copy (snd comprehensive_template) (fst comprehensive_template) = Some (c, h1)"
    and ne: "c \<noteq> fst comprehensive_template"
    and ops: "\<forall>ops. \<exists>h2. apply_ops h1 c ops = Some h2 \<and>
           view h2 (fst comprehensive_template) =
             Some ([''preprocessing'', ''multi_source_retrieval'', ''tool_orchestration'',
                    ''advanced_reasoning'', ''multi_stage_validation''], True, 30,
                   ''quality'', [])"
    by blast
  from ops have "\<exists>h2. apply_ops h1 c
              [SetTimeout 10, SetModelPreference ''speed'',
               RemoveStage ''multi_stage_validation'',
               AddContext ''selected_model'' (PStr (ascii ''qwen-turbo''))] = Some h2 \<and>
           view h2 (fst comprehensive_template) =
             Some ([''preprocessing'', ''multi_source_retrieval'', ''tool_orchestration'',
                    ''advanced_reasoning'', ''multi_stage_validation''], True, 30,
                   ''quality'', [])"
    by blast
  with rc ne show ?thesis by blast
qed

section \<open>The tool orchestrator: web search before the calculator\<close>

subsection \<open>The dependency graph\<close>

lemma add_requirements_nodes:
  "dict_get (nodes (add_requirements reg all_reqs rs g)) t =
     (if t \<in> set rs \<and> t \<in> set reg then Some (node_of t all_reqs) else dict_get (nodes g) t)"
proof (induction rs arbitrary: g)
  case Nil
  show ?case by simp
next
  case (Cons r rs)
  show ?case
  proof (cases "r \<in> set reg")
    case True
    let ?g = "add_tool g r (analyze_input_dependencies r)
                (analyze_output_dependencies r all_reqs)"
    have n: "dict_get (nodes ?g) t = (if t = r then Some (node_of r all_reqs)
                                      else dict_get (nodes g) t)"
      by (simp add: add_tool_def node_of_def dict_get_set_same dict_get_set_other)
    from Cons.IH [of ?g] True n show ?thesis by auto
  next
    case False
    from Cons.IH [of g] False show ?thesis by auto
  qed
qed

lemma add_requirements_distinct:
  "distinct (dict_keys (nodes g)) \<Longrightarrow>
   distinct (dict_keys (nodes (add_requirements reg all_reqs rs g)))"
proof (induction rs arbitrary: g)
  case Nil
  then show ?case by simp
next
  case (Cons r rs)
  from Cons.prems have "distinct (dict_keys (nodes (add_tool g r
      (analyze_input_dependencies r) (analyze_output_dependencies r all_reqs))))"
    by (simp add: add_tool_def dict_keys_def dict_set_distinct)
  with Cons.prems show ?case by (simp add: Cons.IH)
qed

lemma graph_nodes:
  "dict_get (nodes (analyze_tool_dependencies reg reqs)) t =
     (if t \<in> set reqs \<and> t \<in> set reg then Some (node_of t reqs) else None)"
  by (simp add: analyze_tool_dependencies_def add_requirements_nodes)

lemma graph_distinct: "distinct (dict_keys (nodes (analyze_tool_dependencies reg reqs)))"
  unfolding analyze_tool_dependencies_def
  by (rule add_requirements_distinct) (simp add: dict_keys_def)

subsection \<open>The topological order\<close>

lemma dict_keys_remove_ready:
  "dict_keys (remove_ready t tg) = filter (\<lambda>n. n \<noteq> t) (dict_keys tg)"
  by (induction tg) (auto simp: remove_ready_def dict_del_def dict_keys_def)

lemma dict_keys_fold_remove_ready:
  "dict_keys (fold remove_ready ts tg) = filter (\<lambda>n. n \<notin> set ts) (dict_keys tg)"
proof (induction ts arbitrary: tg)
  case Nil
  show ?case by simp
next
  case (Cons t ts)
  have "dict_keys (fold remove_ready (t # ts) tg) =
        filter (\<lambda>n. n \<notin> set ts) (filter (\<lambda>n. n \<noteq> t) (dict_keys tg))"
    by (simp add: Cons.IH dict_keys_remove_ready)
  also have "\<dots> = filter (\<lambda>n. n \<notin> set (t # ts)) (dict_keys tg)"
    by (induction "dict_keys tg") (auto simp: conj_commute)
  finally show ?case .
qed

lemma ready_tools_distinct: "distinct (dict_keys tg) \<Longrightarrow> distinct (ready_tools tg)"
  by (simp add: ready_tools_def dict_keys_def distinct_map_filter)

lemma topo_loop_set_distinct:
  "distinct (res @ dict_keys tg) \<Longrightarrow>
   set (topo_loop res tg) = set res \<union> set (dict_keys tg) \<and> distinct (topo_loop res tg)"
proof (induction res tg rule: topo_loop.induct)
  case (1 res tg)
  show ?case
  proof (cases "tg = []")
    case True
    with "1.prems" show ?thesis by (subst (1 2) topo_loop.simps) (simp add: dict_keys_def)
  next
    case ne: False
    show ?thesis
    proof (cases "ready_tools tg = []")
      case True
      with ne "1.prems" show ?thesis by (subst (1 2) topo_loop.simps) simp
    next
      case False
      let ?r = "ready_tools tg"
      let ?tg = "fold remove_ready ?r tg"
      have k: "dict_keys ?tg = filter (\<lambda>n. n \<notin> set ?r) (dict_keys tg)"
        by (rule dict_keys_fold_remove_ready)
      from "1.prems" have dk: "distinct (dict_keys tg)" and dr: "distinct res"
        and dj: "set res \<inter> set (dict_keys tg) = {}" by auto
      from ready_tools_keys [of tg] dj have dj2: "set res \<inter> set ?r = {}" by blast
      have "distinct ((res @ ?r) @ dict_keys ?tg)"
        using dr dk dj dj2 ready_tools_distinct [OF dk] ready_tools_keys [of tg]
        by (auto simp: k)
      from "1.IH" [OF ne False this]
      have "set (topo_loop (res @ ?r) ?tg) = set (res @ ?r) \<union> set (dict_keys ?tg)"
        and d: "distinct (topo_loop (res @ ?r) ?tg)" by simp_all
      moreover have "set (res @ ?r) \<union> set (dict_keys ?tg) = set res \<union> set (dict_keys tg)"
        using ready_tools_keys [of tg] by (auto simp: k)
      moreover have "topo_loop res tg = topo_loop (res @ ?r) ?tg"
        using ne False by (subst topo_loop.simps) simp
      ultimately show ?thesis by simp
    qed
  qed
qed

lemma topological_sort_keys:
  assumes "distinct (dict_keys (nodes g))"
  shows "set (topological_sort g) = set (dict_keys (nodes g))"
    and "distinct (topological_sort g)"
proof -
  let ?tg = "map (\<lambda>(name, node). (name, input_deps node)) (nodes g)"
  have k: "dict_keys ?tg = dict_keys (nodes g)"
    by (induction "nodes g") (auto simp: dict_keys_def split: prod.splits)
  with assms have "distinct ([] @ dict_keys ?tg)" by simp
  from topo_loop_set_distinct [OF this] k
  show "set (topological_sort g) = set (dict_keys (nodes g))"
    and "distinct (topological_sort g)"
    by (simp_all add: topological_sort_def)
qed


subsection \<open>The parallel groups\<close>

lemma scan_group_distinct:
  "distinct (acc @ ts) \<Longrightarrow> distinct (scan_group nd remaining ts acc)"
proof (induction ts arbitrary: acc)
  case Nil
  then show ?case by simp
next
  case (Cons t ts)
  show ?case
  proof (cases "dependencies_satisfied nd remaining t \<and> length acc < max_parallel_tools")
    case True
    from Cons.prems have "distinct ((acc @ [t]) @ ts)" by auto
    from Cons.IH [OF this] True show ?thesis by simp
  next
    case False
    from Cons.prems have "distinct (acc @ ts)" by auto
    from Cons.IH [OF this] False show ?thesis by auto
  qed
qed

lemma scan_group_excludes:
  "\<not> dependencies_satisfied nd remaining t \<Longrightarrow> t \<notin> set acc \<Longrightarrow>
   t \<notin> set (scan_group nd remaining ts acc)"
proof (induction ts arbitrary: acc)
  case Nil
  then show ?case by simp
next
  case (Cons u ts)
  show ?case
  proof (cases "dependencies_satisfied nd remaining u \<and> length acc < max_parallel_tools")
    case True
    with Cons.prems have "t \<noteq> u" by auto
    with Cons.prems have "t \<notin> set (acc @ [u])" by simp
    from Cons.IH [OF Cons.prems(1) this] True show ?thesis by simp
  next
    case False
    from Cons.IH [OF Cons.prems] False show ?thesis by auto
  qed
qed

lemma scan_group_nonempty:
  "t \<in> set ts \<Longrightarrow> dependencies_satisfied nd remaining t \<Longrightarrow>
   scan_group nd remaining ts acc \<noteq> []"
proof (induction ts arbitrary: acc)
  case Nil
  then show ?case by simp
next
  case (Cons u ts)
  show ?case
  proof (cases "dependencies_satisfied nd remaining u \<and> length acc < max_parallel_tools")
    case True
    from scan_group_prefix [of nd remaining ts "acc @ [u]"] obtain more where
      "scan_group nd remaining ts (acc @ [u]) = (acc @ [u]) @ more" by blast
    with True show ?thesis by simp
  next
    case False
    show ?thesis
    proof (cases "t = u")
      case True
      with False Cons.prems have "\<not> length acc < max_parallel_tools" by simp
      then have "acc \<noteq> []" by (auto simp: max_parallel_tools_def)
      moreover from scan_group_prefix [of nd remaining ts acc] obtain more where
        "scan_group nd remaining ts acc = acc @ more" by blast
      moreover have "scan_group nd remaining (u # ts) acc = scan_group nd remaining ts acc"
        using False by auto
      ultimately show ?thesis by simp
    next
      case ne: False
      with Cons.prems have "t \<in> set ts" by simp
      from Cons.IH [OF this Cons.prems(2)] False show ?thesis by auto
    qed
  qed
qed

lemma next_group_distinct: "distinct remaining \<Longrightarrow> distinct (next_group nd remaining)"
  using scan_group_distinct [of "[]" remaining nd remaining]
  by (cases remaining) (auto simp: next_group_def Let_def)

lemma fold_remove1_distinct:
  "distinct xs \<Longrightarrow> distinct (fold remove1 ts xs) \<and> set (fold remove1 ts xs) = set xs - set ts"
proof (induction ts arbitrary: xs)
  case Nil
  then show ?case by simp
next
  case (Cons t ts)
  from Cons.prems have d: "distinct (remove1 t xs)" by simp
  from Cons.IH [OF d] Cons.prems show ?case by auto
qed

lemma stage_index_Some:
  "t \<in> set (concat gs) \<Longrightarrow> \<exists>i. stage_index t gs = Some i \<and> i < length gs"
  by (induction gs) auto

lemma stage_index_None: "t \<notin> set (concat gs) \<Longrightarrow> stage_index t gs = None"
  by (induction gs) auto

text \<open>The groups partition the remaining tools.\<close>

lemma groups_loop_partition:
  "distinct remaining \<Longrightarrow>
   set (concat (groups_loop nd remaining)) = set remaining \<and>
   distinct (concat (groups_loop nd remaining))"
proof (induction nd remaining rule: groups_loop.induct)
  case (1 nd remaining)
  show ?case
  proof (cases "remaining = []")
    case True
    then show ?thesis by (subst (1 2) groups_loop.simps) simp
  next
    case False
    let ?g = "next_group nd remaining"
    let ?r = "fold remove1 ?g remaining"
    from fold_remove1_distinct [OF "1.prems", of ?g]
    have dr: "distinct ?r" and sr: "set ?r = set remaining - set ?g" by simp_all
    from "1.IH" [OF False refl refl dr]
    have ih: "set (concat (groups_loop nd ?r)) = set ?r" "distinct (concat (groups_loop nd ?r))"
      by simp_all
    have ne: "?g \<noteq> []" by (rule next_group_nonempty [OF False])
    have sub: "set ?g \<subseteq> set remaining" by (rule next_group_subset)
    have dg: "distinct ?g" by (rule next_group_distinct [OF "1.prems"])
    have eq: "groups_loop nd remaining = ?g # groups_loop nd ?r"
      using False ne by (subst groups_loop.simps) (simp add: Let_def)
    from ih sr sub dg show ?thesis by (auto simp: eq)
  qed
qed

text \<open>A tool without dependencies is in an earlier group than a tool that depends on it.\<close>

lemma groups_loop_order:
  assumes "dict_get nd a = Some na" and "input_deps na = []"
    and "dict_get nd b = Some nb" and "a \<in> set (input_deps nb)"
    and "distinct remaining" and "a \<in> set remaining" and "b \<in> set remaining"
  shows "\<exists>i j. stage_index a (groups_loop nd remaining) = Some i \<and>
           stage_index b (groups_loop nd remaining) = Some j \<and> i < j"
  using assms
proof (induction nd remaining rule: groups_loop.induct)
  case (1 nd remaining)
  note a = "1.prems"(1-2) and b = "1.prems"(3-4)
  note dist = "1.prems"(5) and ain = "1.prems"(6) and bin = "1.prems"(7)
  from ain have False': "remaining \<noteq> []" by auto
  let ?g = "next_group nd remaining"
  let ?r = "fold remove1 ?g remaining"
  have sat: "dependencies_satisfied nd remaining a"
    using a by (simp add: dependencies_satisfied_def)
  have unsat: "\<not> dependencies_satisfied nd remaining b"
    using b ain by (auto simp: dependencies_satisfied_def list_all_iff)
  have sne: "scan_group nd remaining remaining [] \<noteq> []"
    by (rule scan_group_nonempty [OF ain sat])
  then have g: "?g = scan_group nd remaining remaining []"
    by (cases remaining) (auto simp: next_group_def Let_def)
  have bg: "b \<notin> set ?g"
    unfolding g by (rule scan_group_excludes [OF unsat]) simp
  have ne: "?g \<noteq> []" by (rule next_group_nonempty [OF False'])
  have eq: "groups_loop nd remaining = ?g # groups_loop nd ?r"
    using False' ne by (subst groups_loop.simps) (simp add: Let_def)
  from fold_remove1_distinct [OF dist, of ?g]
  have dr: "distinct ?r" and sr: "set ?r = set remaining - set ?g" by simp_all
  from bin bg sr have br: "b \<in> set ?r" by simp
  show ?case
  proof (cases "a \<in> set ?g")
    case True
    from groups_loop_partition [OF dr, of nd] br
    have "b \<in> set (concat (groups_loop nd ?r))" by simp
    from stage_index_Some [OF this] obtain j where
      "stage_index b (groups_loop nd ?r) = Some j" by blast
    with True bg show ?thesis by (simp add: eq)
  next
    case False
    with ain sr have ar: "a \<in> set ?r" by simp
    from "1.IH" [OF False' refl refl a b dr ar br] obtain i j where
      "stage_index a (groups_loop nd ?r) = Some i"
      "stage_index b (groups_loop nd ?r) = Some j" "i < j" by blast
    with False bg show ?thesis by (simp add: eq)
  qed
qed


lemma plan_is_built:
  assumes "distinct (dict_keys (nodes g))"
  shows "generate_execution_plan g = Inr (groups_loop (nodes g) (topological_sort g))"
proof -
  from topological_sort_keys(1) [OF assms]
  have "\<forall>t \<in> set (topological_sort g). dict_get (nodes g) t \<noteq> None"
    by (simp add: dict_get_None_iff)
  then have "find (\<lambda>t. dict_get (nodes g) t = None) (topological_sort g) = None"
    by (simp add: find_None_iff)
  then show ?thesis
    by (simp add: generate_execution_plan_def identify_parallel_groups_def)
qed

text \<open>
  C6. Whenever \<open>web_search\<close> and \<open>calculator\<close> are both registered and both among the
  requested tools, the execution plan is built without error, each of the two is in
  exactly one stage, and the stage of \<open>web_search\<close> comes strictly before the stage of
  \<open>calculator\<close>; so it is never later.
\<close>

theorem C6_web_search_before_calculator:
  assumes "''web_search'' \<in> set registry" and "''calculator'' \<in> set registry"
    and "''web_search'' \<in> set tool_requirements"
    and "''calculator'' \<in> set tool_requirements"
  shows "\<exists>plan i j.
           generate_execution_plan (analyze_tool_dependencies registry tool_requirements) =
             Inr plan \<and>
           stage_index ''web_search'' plan = Some i \<and>
           stage_index ''calculator'' plan = Some j \<and>
           i < j \<and> i \<le> j \<and>
           distinct (concat plan)"
proof -
  let ?g = "analyze_tool_dependencies registry tool_requirements"
  let ?order = "topological_sort ?g"
  have d: "distinct (dict_keys (nodes ?g))" by (rule graph_distinct)
  note ts = topological_sort_keys [OF d]
  have ws: "dict_get (nodes ?g) ''web_search'' = Some (node_of ''web_search'' tool_requirements)"
    using assms by (simp add: graph_nodes)
  have calc: "dict_get (nodes ?g) ''calculator'' = Some (node_of ''calculator'' tool_requirements)"
    using assms by (simp add: graph_nodes)
  have wd: "input_deps (node_of ''web_search'' tool_requirements) = []"
    by (simp add: node_of_def analyze_input_dependencies_def dependency_rules_def
        dict_get_default_def)
  have cd: "''web_search'' \<in> set (input_deps (node_of ''calculator'' tool_requirements))"
    by (simp add: node_of_def analyze_input_dependencies_def dependency_rules_def
        dict_get_default_def)
  from ws have wo: "''web_search'' \<in> set ?order"
    using dict_get_None_iff [of "nodes ?g" "''web_search''"] by (simp add: ts(1))
  from calc have co: "''calculator'' \<in> set ?order"
    using dict_get_None_iff [of "nodes ?g" "''calculator''"] by (simp add: ts(1))
  from groups_loop_order [OF ws wd calc cd ts(2) wo co] obtain i j where
    ij: "stage_index ''web_search'' (groups_loop (nodes ?g) ?order) = Some i"
    "stage_index ''calculator'' (groups_loop (nodes ?g) ?order) = Some j" "i < j"
    by blast
  from groups_loop_partition [OF ts(2), of "nodes ?g"]
  have "distinct (concat (groups_loop (nodes ?g) ?order))" by simp
  with ij plan_is_built [OF d] show ?thesis by auto
qed

text \<open>
  A request that names the calculator first: the translator and the web search share the
  first stage and the calculator runs in the second.
\<close>

lemma calculator_first_plan:
  "generate_execution_plan (analyze_tool_dependencies default_tools
      [''calculator'', ''translator'', ''web_search'']) =
     Inr [[''translator'', ''web_search''], [''calculator'']]"
  by (simp add: generate_execution_plan_def identify_parallel_groups_def
      analyze_tool_dependencies_def add_tool_def default_tools_def topological_sort_def
      analyze_input_dependencies_def analyze_output_dependencies_def dependency_rules_def
      output_rules_def dict_get_default_def topo_loop.simps groups_loop.simps
      ready_tools_def remove_ready_def dict_del_def dict_keys_def next_group_def
      dependencies_satisfied_def max_parallel_tools_def Let_def)

text \<open>
  The requested order calculator, web search, with the default registry: the plan exists
  and has \<open>web_search\<close> in a stage before \<open>calculator\<close>.
\<close>

theorem C6_web_search_before_calculator_witness:
  "\<exists>plan i j.
     generate_execution_plan
       (analyze_tool_dependencies default_tools [''calculator'', ''web_search'']) = Inr plan \<and>
     stage_index ''web_search'' plan = Some i \<and>
     stage_index ''calculator'' plan = Some j \<and>
     i < j \<and> i \<le> j \<and> distinct (concat plan)"
proof -
  have r: "''web_search'' \<in> set default_tools" "''calculator'' \<in> set default_tools"
    by (simp_all add: default_tools_def)
  have q: "''web_search'' \<in> set [''calculator'', ''web_search'']"
    "''calculator'' \<in> set [''calculator'', ''web_search'']"
    by simp_all
  from C6_web_search_before_calculator [OF r q] show ?thesis .
qed

end
